theory Spec2Isabelle
  imports Main
begin

section \<open>Paths: the functions of path/filepath that the code calls\<close>

text \<open>
  The code runs on a slash-separated system. \<open>filepath.Clean\<close>, \<open>filepath.Join\<close>,
  \<open>filepath.Dir\<close> and \<open>filepath.Base\<close> belong to Go's standard library; they are
  written out here after the library's documented rules, on the bytes of the path.
\<close>

type_synonym path = string
type_synonym bytes = string
type_synonym time = int

definition IsPathSeparator :: "char \<Rightarrow> bool" where
  "IsPathSeparator c = (c = CHR ''/'')"

text \<open>
  \<open>strings.Split(s, "/")\<close>: the elements between the separators, empty ones included.
  \<open>cur\<close> is the element being read, last byte first.
\<close>

fun split_from :: "string \<Rightarrow> string \<Rightarrow> string list" where
  "split_from cur [] = [rev cur]"
| "split_from cur (c # cs) =
     (if IsPathSeparator c then rev cur # split_from [] cs else split_from (c # cur) cs)"

definition split_elems :: "string \<Rightarrow> string list" where
  "split_elems s = split_from [] s"

text \<open>
  The element loop of \<open>Clean\<close>. \<open>out\<close> is the output so far, innermost element first.
  An empty element and \<open>.\<close> are dropped; \<open>..\<close> removes the element before it when there
  is one that is not itself \<open>..\<close>, is dropped at the root of a rooted path, and is kept
  otherwise.
\<close>

fun clean_elems :: "bool \<Rightarrow> string list \<Rightarrow> string list \<Rightarrow> string list" where
  "clean_elems rooted out [] = rev out"
| "clean_elems rooted out (e # es) =
     (if e = [] \<or> e = ''.'' then clean_elems rooted out es
      else if e = ''..'' then
        (case out of
           [] \<Rightarrow> if rooted then clean_elems rooted [] es else clean_elems rooted [e] es
         | t # ts \<Rightarrow> if t = ''..'' then clean_elems rooted (e # out) es
                    else clean_elems rooted ts es)
      else clean_elems rooted (e # out) es)"

fun join_elems :: "string list \<Rightarrow> string" where
  "join_elems [] = []"
| "join_elems [e] = e"
| "join_elems (e # es) = e @ ''/'' @ join_elems es"

definition filepath_Clean :: "path \<Rightarrow> path" where
  "filepath_Clean p =
     (let rooted = (p \<noteq> [] \<and> IsPathSeparator (hd p));
          out = (if rooted then ''/'' else []) @ join_elems (clean_elems rooted [] (split_elems p))
      in if out = [] then ''.'' else out)"

text \<open>
  The output of the element loop, innermost element first: no element is empty or
  \<open>.\<close>, and the \<open>..\<close> elements are the outermost ones, of a path that is not rooted.
\<close>

fun dots_outermost :: "string list \<Rightarrow> bool" where
  "dots_outermost [] = True"
| "dots_outermost (e # es) = (if e = ''..'' then (\<forall>x \<in> set es. x = ''..'') else dots_outermost es)"

definition clean_out :: "bool \<Rightarrow> string list \<Rightarrow> bool" where
  "clean_out rooted out =
     ((\<forall>e \<in> set out. e \<noteq> [] \<and> e \<noteq> ''.'') \<and> (rooted \<longrightarrow> ''..'' \<notin> set out) \<and> dots_outermost out)"

text \<open>
  \<open>filepath.Join\<close>: the elements from the first non-empty one on are joined with
  separators and cleaned; when every element is empty the result is empty.
\<close>

fun filepath_Join :: "string list \<Rightarrow> path" where
  "filepath_Join [] = []"
| "filepath_Join (e # es) =
     (if e \<noteq> [] then filepath_Clean (join_elems (e # es)) else filepath_Join es)"

text \<open>\<open>filepath.Dir\<close>: everything up to and including the last separator, cleaned.\<close>

definition filepath_Dir :: "path \<Rightarrow> path" where
  "filepath_Dir p = filepath_Clean (rev (dropWhile (\<lambda>c. \<not> IsPathSeparator c) (rev p)))"

text \<open>
  \<open>filepath.Base\<close>: the last element, after trailing separators are removed; \<open>.\<close> for
  the empty path and a single separator for a path of separators only.
\<close>

definition filepath_Base :: "path \<Rightarrow> path" where
  "filepath_Base p =
     (if p = [] then ''.''
      else let q = rev (dropWhile IsPathSeparator (rev p));
               b = rev (takeWhile (\<lambda>c. \<not> IsPathSeparator c) (rev q))
           in if b = [] then ''/'' else b)"

text \<open>\<open>strings.HasSuffix\<close> and \<open>strings.Replace(s, old, new, -1)\<close> for one-byte \<open>old\<close>, \<open>new\<close>.\<close>

definition HasSuffix :: "string \<Rightarrow> string \<Rightarrow> bool" where
  "HasSuffix s suffix =
     (length s \<ge> length suffix \<and> drop (length s - length suffix) s = suffix)"

definition ReplaceByte :: "string \<Rightarrow> char \<Rightarrow> char \<Rightarrow> string" where
  "ReplaceByte s old new = map (\<lambda>c. if c = old then new else c) s"


section \<open>URLs and errors\<close>

text \<open>
  A parsed \<open>url.URL\<close>. The query string is held as the decoded \<open>key=value\<close> pairs, in
  the order in which they stand in \<open>RawQuery\<close>: this is what \<open>u.Query()\<close> reads from it.
  The empty query string is the empty list.
\<close>

record url =
  Scheme :: string
  User :: string
  Host :: string
  Path :: string
  RawQuery :: "(string \<times> string) list"

text \<open>\<open>url.Values.Get\<close>: the first value of the key, the empty string when there is none.\<close>

fun Values_Get :: "(string \<times> string) list \<Rightarrow> string \<Rightarrow> string" where
  "Values_Get [] key = []"
| "Values_Get ((k, v) # rest) key = (if k = key then v else Values_Get rest key)"

datatype errno = ENOENT | ENOTDIR | EISDIR | EEXIST | EBADF | EIO

text \<open>
  The errors the two files return. Those built with \<open>fmt.Errorf\<close> carry the value
  that the message names; an error of a collaborator is passed on unchanged.
\<close>

datatype error =
    EmptyArchive string                 \<comment> \<open>\<open>empty archive: %s\<close>\<close>
  | ExpectedSingleFile string           \<comment> \<open>\<open>expected a single file: %s\<close>\<close>
  | MultipleFiles string                \<comment> \<open>\<open>expected a single file, got multiple: %s\<close>\<close>
  | TarError string                     \<comment> \<open>an error of \<open>tarR.Next()\<close> other than \<open>io.EOF\<close>\<close>
  | OsError errno                       \<comment> \<open>an error of a call of package \<open>os\<close>\<close>
  | MissingParameter string             \<comment> \<open>\<open>query parameter '%s' is required.\<close>\<close>
  | NoSnapshotVersions url              \<comment> \<open>\<open>no snapshot versions in the %s\<close>\<close>
  | Unsupported                         \<comment> \<open>\<open>MvnGetter does not support download folder.\<close>\<close>
  | UrlError string                     \<comment> \<open>an error of \<open>url.Parse\<close>\<close>
  | XmlError string                     \<comment> \<open>an error of \<open>xml.Unmarshal\<close>\<close>
  | FetchError string                   \<comment> \<open>an error of the injected \<open>HttpGetter\<close>\<close>

section \<open>The tar stream\<close>

datatype typeflag =
    TypeReg | TypeLink | TypeSymlink | TypeChar | TypeBlock | TypeDir | TypeFifo
  | TypeXHeader | TypeXGlobalHeader | TypeOther nat

record header =
  Name :: string
  Typeflag :: typeflag
  Mode :: int
  AccessTime :: time
  ModTime :: time
  Linkname :: string

text \<open>
  What \<open>tarR.Next()\<close> returns, call after call: a header, with the payload that
  \<open>io.Copy\<close> would read from the reader, or an error. The end of the list is \<open>io.EOF\<close>.
\<close>

datatype tar_next = Entry header bytes | ReadErr string

text \<open>
  \<open>hdr.FileInfo().IsDir()\<close> of archive/tar: the directory bit is set from the type
  flag \<open>TypeDir\<close>, and from the file-type bits of \<open>Mode\<close> (read as 32 bits, the low
  twelve cleared) when they are \<open>c_ISDIR = 040000\<close>.
\<close>

definition FileInfo_IsDir :: "header \<Rightarrow> bool" where
  "FileInfo_IsDir hdr = (Typeflag hdr = TypeDir \<or> (Mode hdr mod 2 ^ 32) div 4096 = 4)"

text \<open>
  \<open>hdr.FileInfo().Mode()\<close> as \<open>os.Chmod\<close> takes it: the permission bits with setuid,
  setgid and sticky, which are the low twelve bits of \<open>Mode\<close>.
\<close>

definition FileInfo_Mode :: "header \<Rightarrow> int" where
  "FileInfo_Mode hdr = Mode hdr mod 4096"

section \<open>The calls of package os\<close>

text \<open>
  Every call the code makes to the operating system is a value of \<open>os_call\<close>. An
  operating system is any function from a call and a state to an optional error and
  the next state; the code is modelled over an arbitrary one. The world the code runs
  in is the state of the operating system with the list of the calls made so far.
  \<open>Copy\<close> stands for \<open>io.Copy(dstF, tarR)\<close> followed by \<open>dstF.Close()\<close>.
\<close>

datatype os_call =
    MkdirAll path int
  | Stat path
  | Create path
  | Copy path bytes
  | Chmod path int
  | Chtimes path time time
  | Open path

type_synonym 's os = "os_call \<Rightarrow> 's \<Rightarrow> errno option \<times> 's"
type_synonym 's world = "'s \<times> os_call list"

definition calls :: "'s world \<Rightarrow> os_call list" where
  "calls w = snd w"

definition sys :: "'s os \<Rightarrow> os_call \<Rightarrow> 's world \<Rightarrow> errno option \<times> 's world" where
  "sys os c w = (case os c (fst w) of (r, s') \<Rightarrow> (r, (s', snd w @ [c])))"

definition os_IsNotExist :: "errno option \<Rightarrow> bool" where
  "os_IsNotExist r = (r = Some ENOENT)"

section \<open>untar\<close>

text \<open>
  The variables of \<open>untar\<close> that live across iterations of its loop: \<open>done\<close>,
  \<open>dirHdrs\<close>, and the world.
\<close>

record 's ustate =
  doneFlag :: bool
  dirHdrs :: "header list"
  world :: "'s world"

text \<open>
  Lines 59 to 66: the parent directory of a file is created when \<open>os.Stat\<close> reports
  that it does not exist.
\<close>

definition ensure_parent :: "'s os \<Rightarrow> path \<Rightarrow> 's world \<Rightarrow> errno option \<times> 's world" where
  "ensure_parent os dstPath w =
     (case sys os (Stat dstPath) w of
        (r, w1) \<Rightarrow> if os_IsNotExist r then sys os (MkdirAll dstPath 493) w1 else (None, w1))"

text \<open>Lines 77 to 96: create, copy and close, chmod, chtimes; the first error returns.\<close>

definition write_file :: "'s os \<Rightarrow> path \<Rightarrow> header \<Rightarrow> bytes \<Rightarrow> 's world \<Rightarrow> errno option \<times> 's world" where
  "write_file os path hdr data w =
     (case sys os (Create path) w of
        (Some e, w1) \<Rightarrow> (Some e, w1)
      | (None, w1) \<Rightarrow>
     (case sys os (Copy path data) w1 of
        (Some e, w2) \<Rightarrow> (Some e, w2)
      | (None, w2) \<Rightarrow>
     (case sys os (Chmod path (FileInfo_Mode hdr)) w2 of
        (Some e, w3) \<Rightarrow> (Some e, w3)
      | (None, w3) \<Rightarrow> sys os (Chtimes path (AccessTime hdr) (ModTime hdr)) w3)))"

text \<open>
  Lines 36 to 96: the body of the loop for a header that is not an extended header.
  The state returned with an error is the state at the \<open>return\<close>.
\<close>

definition untar_entry ::
  "'s os \<Rightarrow> path \<Rightarrow> string \<Rightarrow> bool \<Rightarrow> header \<Rightarrow> bytes \<Rightarrow> 's ustate \<Rightarrow> error option \<times> 's ustate" where
  "untar_entry os dst src dir hdr data st =
     (let path = (if dir then filepath_Join [dst, Name hdr] else dst) in
      if FileInfo_IsDir hdr then
        (if \<not> dir then (Some (ExpectedSingleFile src), st)
         else (case sys os (MkdirAll path 493) (world st) of
                 (Some e, w1) \<Rightarrow> (Some (OsError e), st\<lparr>world := w1\<rparr>)
               | (None, w1) \<Rightarrow> (None, st\<lparr>dirHdrs := dirHdrs st @ [hdr], world := w1\<rparr>)))
      else
        (case ensure_parent os (filepath_Dir path) (world st) of
           (Some e, w1) \<Rightarrow> (Some (OsError e), st\<lparr>world := w1\<rparr>)
         | (None, w1) \<Rightarrow>
             if \<not> dir \<and> doneFlag st then (Some (MultipleFiles src), st\<lparr>world := w1\<rparr>)
             else (case write_file os path hdr data w1 of
                     (Some e, w2) \<Rightarrow> (Some (OsError e), st\<lparr>doneFlag := True, world := w2\<rparr>)
                   | (None, w2) \<Rightarrow> (None, st\<lparr>doneFlag := True, world := w2\<rparr>))))"

text \<open>Lines 17 to 97: the loop, over what \<open>tarR.Next()\<close> returns.\<close>

fun untar_loop ::
  "'s os \<Rightarrow> path \<Rightarrow> string \<Rightarrow> bool \<Rightarrow> tar_next list \<Rightarrow> 's ustate \<Rightarrow> error option \<times> 's ustate" where
  "untar_loop os dst src dir [] st =
     (if \<not> doneFlag st then (Some (EmptyArchive src), st) else (None, st))"
| "untar_loop os dst src dir (ReadErr e # rest) st = (Some (TarError e), st)"
| "untar_loop os dst src dir (Entry hdr data # rest) st =
     (if Typeflag hdr = TypeXGlobalHeader \<or> Typeflag hdr = TypeXHeader
      then untar_loop os dst src dir rest st
      else (case untar_entry os dst src dir hdr data st of
              (Some e, st') \<Rightarrow> (Some e, st')
            | (None, st') \<Rightarrow> untar_loop os dst src dir rest st'))"

text \<open>Lines 101 to 106: the recorded times of the directories, in the order of \<open>dirHdrs\<close>.\<close>

fun apply_dirHdrs :: "'s os \<Rightarrow> path \<Rightarrow> header list \<Rightarrow> 's world \<Rightarrow> error option \<times> 's world" where
  "apply_dirHdrs os dst [] w = (None, w)"
| "apply_dirHdrs os dst (dirHdr # rest) w =
     (case sys os (Chtimes (filepath_Join [dst, Name dirHdr]) (AccessTime dirHdr) (ModTime dirHdr)) w of
        (Some e, w1) \<Rightarrow> (Some (OsError e), w1)
      | (None, w1) \<Rightarrow> apply_dirHdrs os dst rest w1)"

definition untar ::
  "'s os \<Rightarrow> tar_next list \<Rightarrow> path \<Rightarrow> string \<Rightarrow> bool \<Rightarrow> 's world \<Rightarrow> error option \<times> 's world" where
  "untar os input dst src dir w =
     (case untar_loop os dst src dir input \<lparr>doneFlag = False, dirHdrs = [], world = w\<rparr> of
        (Some e, st) \<Rightarrow> (Some e, world st)
      | (None, st) \<Rightarrow> apply_dirHdrs os dst (dirHdrs st) (world st))"

text \<open>
  \<open>tarDecompressor.Decompress\<close>; \<open>input\<close> is what the tar reader decodes from the
  opened file.
\<close>

definition Decompress ::
  "'s os \<Rightarrow> tar_next list \<Rightarrow> path \<Rightarrow> string \<Rightarrow> bool \<Rightarrow> 's world \<Rightarrow> error option \<times> 's world" where
  "Decompress os input dst src dir w =
     (let mkdir = (if \<not> dir then filepath_Dir dst else dst) in
      case sys os (MkdirAll mkdir 493) w of
        (Some e, w1) \<Rightarrow> (Some (OsError e), w1)
      | (None, w1) \<Rightarrow>
          (case sys os (Open src) w1 of
             (Some e, w2) \<Rightarrow> (Some (OsError e), w2)
           | (None, w2) \<Rightarrow> untar os input dst src dir w2))"


section \<open>A reference file system\<close>

text \<open>
  One operating system to run the code on: a tree of files and directories keyed by
  cleaned path, with no symbolic links, no permission checks and one clock value
  \<open>now\<close>, the time of the extraction. As on a POSIX system, creating an entry in a
  directory sets the modification time of that directory to the clock, and writing a
  file sets the file's.
\<close>

datatype node =
    FileNode bytes int time time      \<comment> \<open>content, mode, access time, modification time\<close>
  | DirNode int time time             \<comment> \<open>mode, access time, modification time\<close>

record fsys =
  nodes :: "path \<rightharpoonup> node"
  now :: time

fun is_dir :: "node option \<Rightarrow> bool" where
  "is_dir (Some (DirNode m a t)) = True"
| "is_dir _ = False"

fun is_file :: "node option \<Rightarrow> bool" where
  "is_file (Some (FileNode c m a t)) = True"
| "is_file _ = False"

fun node_times :: "node option \<Rightarrow> (time \<times> time) option" where
  "node_times None = None"
| "node_times (Some (FileNode c m a t)) = Some (a, t)"
| "node_times (Some (DirNode m a t)) = Some (a, t)"

fun set_times :: "time \<Rightarrow> time \<Rightarrow> node \<Rightarrow> node" where
  "set_times a t (FileNode c m a0 t0) = FileNode c m a t"
| "set_times a t (DirNode m a0 t0) = DirNode m a t"

fun set_mode :: "int \<Rightarrow> node \<Rightarrow> node" where
  "set_mode m (FileNode c m0 a t) = FileNode c m a t"
| "set_mode m (DirNode m0 a t) = DirNode m a t"

text \<open>The modification time of the directory at \<open>p\<close> becomes the clock.\<close>

definition touch :: "path \<Rightarrow> fsys \<Rightarrow> fsys" where
  "touch p fs =
     (case nodes fs p of
        Some (DirNode m a t) \<Rightarrow> fs\<lparr>nodes := (nodes fs)(p \<mapsto> DirNode m a (now fs))\<rparr>
      | _ \<Rightarrow> fs)"

text \<open>A new entry \<open>n\<close> at \<open>p\<close>, which needs the parent of \<open>p\<close> to be a directory.\<close>

definition add_entry :: "path \<Rightarrow> node \<Rightarrow> fsys \<Rightarrow> errno option \<times> fsys" where
  "add_entry p n fs =
     (case nodes fs (filepath_Dir p) of
        None \<Rightarrow> (Some ENOENT, fs)
      | Some (FileNode c m a t) \<Rightarrow> (Some ENOTDIR, fs)
      | Some (DirNode m a t) \<Rightarrow>
          (None, touch (filepath_Dir p) (fs\<lparr>nodes := (nodes fs)(p \<mapsto> n)\<rparr>)))"

text \<open>
  The ancestors of a path, the nearest first: its directory, the directory of that,
  and so on up to the root or the working directory, which are left out. A path has
  fewer ancestors than bytes.
\<close>

fun ancestors_upto :: "nat \<Rightarrow> path \<Rightarrow> path list" where
  "ancestors_upto 0 p = []"
| "ancestors_upto (Suc n) p =
     (if filepath_Dir p = p \<or> filepath_Dir p = ''/'' \<or> filepath_Dir p = ''.'' then []
      else filepath_Dir p # ancestors_upto n (filepath_Dir p))"

definition ancestors :: "path \<Rightarrow> path list" where
  "ancestors p = ancestors_upto (length p) p"

text \<open>
  \<open>os.MkdirAll\<close>, on the path followed by its ancestors: a path that is a directory
  ends the call, a path that is a file fails it, and a missing path is made after its
  parent.
\<close>

fun mkdir_all :: "path list \<Rightarrow> int \<Rightarrow> fsys \<Rightarrow> errno option \<times> fsys" where
  "mkdir_all [] perm fs = (None, fs)"
| "mkdir_all (p # ps) perm fs =
     (case nodes fs p of
        Some (DirNode m a t) \<Rightarrow> (None, fs)
      | Some (FileNode c m a t) \<Rightarrow> (Some ENOTDIR, fs)
      | None \<Rightarrow>
          (case mkdir_all ps perm fs of
             (Some e, fs1) \<Rightarrow> (Some e, fs1)
           | (None, fs1) \<Rightarrow> add_entry p (DirNode perm (now fs1) (now fs1)) fs1))"

definition update_node :: "path \<Rightarrow> (node \<Rightarrow> node) \<Rightarrow> fsys \<Rightarrow> errno option \<times> fsys" where
  "update_node p f fs =
     (case nodes fs p of
        None \<Rightarrow> (Some ENOENT, fs)
      | Some n \<Rightarrow> (None, fs\<lparr>nodes := (nodes fs)(p \<mapsto> f n)\<rparr>))"

fun posix :: "fsys os" where
  "posix (MkdirAll p perm) fs =
     mkdir_all (filepath_Clean p # ancestors (filepath_Clean p)) perm fs"
| "posix (Stat p) fs =
     (case nodes fs (filepath_Clean p) of None \<Rightarrow> (Some ENOENT, fs) | Some n \<Rightarrow> (None, fs))"
| "posix (Create p) fs =
     (case nodes fs (filepath_Clean p) of
        Some (DirNode m a t) \<Rightarrow> (Some EISDIR, fs)
      | Some (FileNode c m a t) \<Rightarrow>
          (None, fs\<lparr>nodes := (nodes fs)(filepath_Clean p \<mapsto> FileNode [] m a (now fs))\<rparr>)
      | None \<Rightarrow> add_entry (filepath_Clean p) (FileNode [] 438 (now fs) (now fs)) fs)"
| "posix (Copy p data) fs =
     (case nodes fs (filepath_Clean p) of
        Some (FileNode c m a t) \<Rightarrow>
          (None, fs\<lparr>nodes := (nodes fs)(filepath_Clean p \<mapsto> FileNode data m a (now fs))\<rparr>)
      | _ \<Rightarrow> (Some EBADF, fs))"
| "posix (Chmod p m) fs = update_node (filepath_Clean p) (set_mode m) fs"
| "posix (Chtimes p a t) fs = update_node (filepath_Clean p) (set_times a t) fs"
| "posix (Open p) fs =
     (case nodes fs (filepath_Clean p) of None \<Rightarrow> (Some ENOENT, fs) | Some n \<Rightarrow> (None, fs))"

text \<open>The path whose own node a call may change, parent directories apart.\<close>

fun writes_to :: "os_call \<Rightarrow> path option" where
  "writes_to (Create p) = Some (filepath_Clean p)"
| "writes_to (Copy p data) = Some (filepath_Clean p)"
| "writes_to (Chmod p m) = Some (filepath_Clean p)"
| "writes_to (Chtimes p a t) = Some (filepath_Clean p)"
| "writes_to _ = None"


section \<open>The Maven getter\<close>

record snapshot_version =
  Extension :: string
  Value :: string

record snapshot_versions =
  VersionList :: "snapshot_version list"

record snapshot_verioning =
  SnapshotVersions :: snapshot_versions

record metadata =
  GroupId :: string
  ArtifactId :: string
  Version :: string
  Versioning :: snapshot_verioning

text \<open>
  The world of the getter: the files on disk, with their content, and the list of the
  operations made so far on files and through the injected \<open>HttpGetter\<close>.
\<close>

datatype mvn_op =
    TempFileOp path
  | GetFileOp path url
  | ReadFileOp path
  | RemoveOp path

record mworld =
  files :: "path \<rightharpoonup> bytes"
  ops :: "mvn_op list"

text \<open>
  What the getter takes from the standard library and from the getter injected into it:
  \<^item> \<open>url_reparse u\<close> is \<open>url.Parse(u.String())\<close>;
  \<^item> \<open>temp_name\<close> is the name \<open>ioutil.TempFile(os.TempDir(), "maven-metadata")\<close>
    picks, or its error;
  \<^item> \<open>HttpGet\<close> is the \<open>GetFile\<close> of the injected \<open>HttpGetter\<close>, which may do
    anything to the files;
  \<^item> \<open>xml_Unmarshal b\<close> is the error of \<open>xml.Unmarshal(b, &meta)\<close> and the value of
    \<open>meta\<close> after the call, for \<open>meta\<close> the zero \<open>Metadata\<close> before it.
\<close>

record mvn_env =
  url_reparse :: "url \<Rightarrow> error + url"
  temp_name :: "(path \<rightharpoonup> bytes) \<Rightarrow> error + path"
  HttpGet :: "path \<Rightarrow> url \<Rightarrow> (path \<rightharpoonup> bytes) \<Rightarrow> error option \<times> (path \<rightharpoonup> bytes)"
  xml_Unmarshal :: "bytes \<Rightarrow> error option \<times> metadata"

definition HttpGet_GetFile :: "mvn_env \<Rightarrow> path \<Rightarrow> url \<Rightarrow> mworld \<Rightarrow> error option \<times> mworld" where
  "HttpGet_GetFile g dst u w =
     (case HttpGet g dst u (files w) of
        (r, fs) \<Rightarrow> (r, \<lparr>files = fs, ops = ops w @ [GetFileOp dst u]\<rparr>))"

definition ioutil_TempFile :: "mvn_env \<Rightarrow> mworld \<Rightarrow> (error + path) \<times> mworld" where
  "ioutil_TempFile g w =
     (case temp_name g (files w) of
        Inl e \<Rightarrow> (Inl e, w)
      | Inr name \<Rightarrow> (Inr name, \<lparr>files = (files w)(name \<mapsto> []), ops = ops w @ [TempFileOp name]\<rparr>))"

definition ioutil_ReadFile :: "path \<Rightarrow> mworld \<Rightarrow> (error + bytes) \<times> mworld" where
  "ioutil_ReadFile name w =
     (case files w name of
        None \<Rightarrow> (Inl (OsError ENOENT), w\<lparr>ops := ops w @ [ReadFileOp name]\<rparr>)
      | Some b \<Rightarrow> (Inr b, w\<lparr>ops := ops w @ [ReadFileOp name]\<rparr>))"

text \<open>\<open>os.Remove\<close>, whose error the code drops: the name is gone afterwards.\<close>

definition os_Remove :: "path \<Rightarrow> mworld \<Rightarrow> mworld" where
  "os_Remove name w = \<lparr>files = (files w)(name := None), ops = ops w @ [RemoveOp name]\<rparr>"

text \<open>
  \<open>parseLastestSnapshotVersion\<close> from line 92 on, the part that runs under
  \<open>defer os.Remove(mvnMetaFile.Name())\<close>. The error of \<open>xml.Unmarshal\<close> is not read.
\<close>

definition read_snapshot_version ::
  "mvn_env \<Rightarrow> path \<Rightarrow> url \<Rightarrow> mworld \<Rightarrow> (error + string) \<times> mworld" where
  "read_snapshot_version g name mvnMetaUrl w =
     (case HttpGet_GetFile g name mvnMetaUrl w of
        (Some e, w1) \<Rightarrow> (Inl e, w1)
      | (None, w1) \<Rightarrow>
          (case ioutil_ReadFile name w1 of
             (Inl e, w2) \<Rightarrow> (Inl e, w2)
           | (Inr mvnMetaXml, w2) \<Rightarrow>
               (let meta = snd (xml_Unmarshal g mvnMetaXml);
                    vers = VersionList (SnapshotVersions (Versioning meta))
                in if length vers = 0 then (Inl (NoSnapshotVersions mvnMetaUrl), w2)
                   else (Inr (Value (vers ! 0)), w2))))"

definition parseLastestSnapshotVersion ::
  "mvn_env \<Rightarrow> url \<Rightarrow> mworld \<Rightarrow> (error + string) \<times> mworld" where
  "parseLastestSnapshotVersion g artifactUrl w =
     (case url_reparse g artifactUrl of
        Inl e \<Rightarrow> (Inl e, w)
      | Inr u \<Rightarrow>
          (let mvnMetaUrl = u\<lparr>Path := Path u @ ''/maven-metadata.xml''\<rparr> in
           case ioutil_TempFile g w of
             (Inl e, w1) \<Rightarrow> (Inl e, w1)
           | (Inr name, w1) \<Rightarrow>
               (case read_snapshot_version g name mvnMetaUrl w1 of
                  (r, w2) \<Rightarrow> (r, os_Remove name w2))))"

text \<open>\<open>MvnGetter.GetFile\<close>. The call of \<open>log.Printf\<close> is left out.\<close>

definition GetFile :: "mvn_env \<Rightarrow> path \<Rightarrow> url \<Rightarrow> mworld \<Rightarrow> error option \<times> mworld" where
  "GetFile g dst u w =
     (let groupId = Values_Get (RawQuery u) ''groupId'' in
      if groupId = [] then (Some (MissingParameter ''groupId''), w) else
      let artifactId = Values_Get (RawQuery u) ''artifactId'' in
      if artifactId = [] then (Some (MissingParameter ''artifactId''), w) else
      let version = Values_Get (RawQuery u) ''version'' in
      if version = [] then (Some (MissingParameter ''version''), w) else
      let artType = (if Values_Get (RawQuery u) ''type'' = [] then ''jar''
                     else Values_Get (RawQuery u) ''type'') in
      case url_reparse g u of
        Inl e \<Rightarrow> (Some e, w)
      | Inr a \<Rightarrow>
          (let artifactUrl = a\<lparr>RawQuery := [],
                 Path := Path a @ ''/'' @ ReplaceByte groupId (CHR ''.'') (CHR ''/'')
                           @ ''/'' @ artifactId @ ''/'' @ version\<rparr> in
           case (if HasSuffix version ''-SNAPSHOT''
                 then parseLastestSnapshotVersion g artifactUrl w
                 else (Inr version, w)) of
             (Inl e, w1) \<Rightarrow> (Some e, w1)
           | (Inr ver, w1) \<Rightarrow>
               (let finalUrl = artifactUrl\<lparr>Path := Path artifactUrl @ ''/'' @ artifactId
                                  @ ''-'' @ ver @ ''.'' @ artType\<rparr>;
                    dstFile = filepath_Join [filepath_Dir dst, filepath_Base (Path finalUrl)]
                in HttpGet_GetFile g dstFile finalUrl w1)))"

text \<open>\<open>MvnGetter.Get\<close>.\<close>

definition Get :: "mvn_env \<Rightarrow> path \<Rightarrow> url \<Rightarrow> mworld \<Rightarrow> error option \<times> mworld" where
  "Get g dst u w = (Some Unsupported, w)"


section \<open>Notions used in the statements\<close>

text \<open>The kinds of entries the loop tells apart, and the headers of a kind in an archive.\<close>

definition is_xheader :: "header \<Rightarrow> bool" where
  "is_xheader hdr = (Typeflag hdr = TypeXGlobalHeader \<or> Typeflag hdr = TypeXHeader)"

definition dir_entry :: "header \<Rightarrow> bool" where
  "dir_entry hdr = (\<not> is_xheader hdr \<and> FileInfo_IsDir hdr)"

definition file_entry :: "header \<Rightarrow> bool" where
  "file_entry hdr = (\<not> is_xheader hdr \<and> \<not> FileInfo_IsDir hdr)"

fun headers :: "tar_next list \<Rightarrow> header list" where
  "headers [] = []"
| "headers (Entry hdr data # rest) = hdr # headers rest"
| "headers (ReadErr e # rest) = headers rest"

text \<open>
  The entries of an archive that are not extended headers, and the key under which
  the reference file system holds the path of an entry in directory mode.
\<close>

definition entries :: "tar_next list \<Rightarrow> header list" where
  "entries items = filter (\<lambda>hdr. \<not> is_xheader hdr) (headers items)"

definition disk_path :: "path \<Rightarrow> header \<Rightarrow> path" where
  "disk_path dst hdr = filepath_Clean (filepath_Join [dst, Name hdr])"

fun only_xheaders :: "tar_next list \<Rightarrow> bool" where
  "only_xheaders [] = True"
| "only_xheaders (Entry hdr data # rest) = (is_xheader hdr \<and> only_xheaders rest)"
| "only_xheaders (ReadErr e # rest) = False"

fun no_file_entries :: "tar_next list \<Rightarrow> bool" where
  "no_file_entries [] = True"
| "no_file_entries (Entry hdr data # rest) = (\<not> file_entry hdr \<and> no_file_entries rest)"
| "no_file_entries (ReadErr e # rest) = False"

fun is_Create :: "os_call \<Rightarrow> bool" where
  "is_Create (Create p) = True"
| "is_Create _ = False"

text \<open>The calls that only look for a directory or make one.\<close>

fun is_mkdir :: "os_call \<Rightarrow> bool" where
  "is_mkdir (Stat p) = True"
| "is_mkdir (MkdirAll p m) = True"
| "is_mkdir _ = False"

definition chtimes_of :: "path \<Rightarrow> header \<Rightarrow> os_call" where
  "chtimes_of dst hdr = Chtimes (filepath_Join [dst, Name hdr]) (AccessTime hdr) (ModTime hdr)"

text \<open>The four calls that write a file entry, and those of all file entries of an archive.\<close>

definition file_calls :: "path \<Rightarrow> header \<Rightarrow> bytes \<Rightarrow> os_call list" where
  "file_calls path hdr data =
     [Create path, Copy path data, Chmod path (FileInfo_Mode hdr),
      Chtimes path (AccessTime hdr) (ModTime hdr)]"

fun all_file_calls :: "path \<Rightarrow> tar_next list \<Rightarrow> os_call list" where
  "all_file_calls dst [] = []"
| "all_file_calls dst (Entry hdr data # rest) =
     (if file_entry hdr then file_calls (filepath_Join [dst, Name hdr]) hdr data else [])
     @ all_file_calls dst rest"
| "all_file_calls dst (ReadErr e # rest) = all_file_calls dst rest"

definition within :: "path \<Rightarrow> path \<Rightarrow> bool" where
  "within root p = (p = root \<or> take (Suc (length root)) p = root @ ''/'')"


section \<open>Example inputs\<close>

text \<open>A repository URL with the coordinates of a release, and one of a snapshot.\<close>

definition release_url :: url where
  "release_url = \<lparr>Scheme = ''http'', User = [], Host = ''repo.example'', Path = ''/maven'',
     RawQuery = [(''groupId'', ''org.example''), (''artifactId'', ''test''), (''version'', ''1.0.0'')]\<rparr>"

definition snapshot_url :: url where
  "snapshot_url = \<lparr>Scheme = ''http'', User = [], Host = ''repo.example'', Path = ''/maven'',
     RawQuery = [(''groupId'', ''org.example''), (''artifactId'', ''test''),
                 (''version'', ''1.0.0-SNAPSHOT'')]\<rparr>"

definition metadata_of :: "snapshot_version list \<Rightarrow> metadata" where
  "metadata_of vs = \<lparr>GroupId = ''org.example'', ArtifactId = ''test'', Version = ''1.0.0-SNAPSHOT'',
     Versioning = \<lparr>SnapshotVersions = \<lparr>VersionList = vs\<rparr>\<rparr>\<rparr>"

text \<open>
  An environment in which every fetch stores the bytes \<open>doc\<close> at its destination, the
  temporary file is \<open>/tmp/maven-metadata1\<close>, and the parse of any document reports
  \<open>err\<close> and leaves the versions \<open>vs\<close> in the structure.
\<close>

definition example_env :: "error option \<Rightarrow> snapshot_version list \<Rightarrow> mvn_env" where
  "example_env err vs = \<lparr>url_reparse = Inr,
     temp_name = (\<lambda>fs. Inr ''/tmp/maven-metadata1''),
     HttpGet = (\<lambda>dst u fs. (None, fs(dst \<mapsto> ''doc''))),
     xml_Unmarshal = (\<lambda>b. (err, metadata_of vs))\<rparr>"

definition snapshot_1 :: snapshot_version where
  "snapshot_1 = \<lparr>Extension = ''jar'', Value = ''1.0.0-20240101.010101-1''\<rparr>"

definition no_files :: mworld where
  "no_files = \<lparr>files = Map.empty, ops = []\<rparr>"

text \<open>
  The headers of a file \<open>a/b\<close>, of its directory \<open>a/\<close>, of a symbolic link, of a
  global extended header, and of a file whose name leaves the destination.
\<close>

definition file_ab :: header where
  "file_ab = \<lparr>Name = ''a/b'', Typeflag = TypeReg, Mode = 420, AccessTime = 11, ModTime = 12,
     Linkname = []\<rparr>"

definition dir_a :: header where
  "dir_a = \<lparr>Name = ''a/'', Typeflag = TypeDir, Mode = 493, AccessTime = 21, ModTime = 22,
     Linkname = []\<rparr>"

definition link_l :: header where
  "link_l = \<lparr>Name = ''l'', Typeflag = TypeSymlink, Mode = 511, AccessTime = 31, ModTime = 32,
     Linkname = ''a/b''\<rparr>"

definition pax_global :: header where
  "pax_global = \<lparr>Name = ''pax_global_header'', Typeflag = TypeXGlobalHeader, Mode = 420,
     AccessTime = 0, ModTime = 0, Linkname = []\<rparr>"

definition file_up :: header where
  "file_up = \<lparr>Name = ''../e'', Typeflag = TypeReg, Mode = 420, AccessTime = 41, ModTime = 42,
     Linkname = []\<rparr>"

text \<open>
  The world before an extraction into \<open>/d\<close> at time 1000: the root and the directory
  \<open>/d\<close>, both last modified at time 0, and no call made yet.
\<close>

definition disk0 :: "fsys world" where
  "disk0 = (\<lparr>nodes = [''/'' \<mapsto> DirNode 493 0 0, ''/d'' \<mapsto> DirNode 493 0 0], now = 1000\<rparr>, [])"

section \<open>Proof set-up\<close>

text \<open>Paths are joined and cleaned on concrete strings only; the equations stay folded.\<close>

declare filepath_Join.simps [simp del]

section \<open>Paths: a cleaned path is clean\<close>

lemma split_from_app:
  "CHR ''/'' \<notin> set e \<Longrightarrow> split_from cur (e @ s) = split_from (rev e @ cur) s"
  by (induction e arbitrary: cur) (auto simp: IsPathSeparator_def)

lemma split_from_no_sep:
  "CHR ''/'' \<notin> set cur \<Longrightarrow> e \<in> set (split_from cur s) \<Longrightarrow> CHR ''/'' \<notin> set e"
proof (induction s arbitrary: cur)
  case Nil
  then show ?case by simp
next
  case (Cons c s)
  show ?case
  proof (cases "IsPathSeparator c")
    case True
    with Cons.prems have "e = rev cur \<or> e \<in> set (split_from [] s)" by simp
    with Cons.IH [of "[]"] Cons.prems(1) show ?thesis by auto
  next
    case False
    then have "CHR ''/'' \<notin> set (c # cur)"
      using Cons.prems(1) by (simp add: IsPathSeparator_def)
    moreover from Cons.prems(2) False have "e \<in> set (split_from (c # cur) s)" by simp
    ultimately show ?thesis by (rule Cons.IH)
  qed
qed

lemma split_join:
  "es \<noteq> [] \<Longrightarrow> \<forall>e \<in> set es. CHR ''/'' \<notin> set e \<Longrightarrow> split_elems (join_elems es) = es"
proof (induction es rule: join_elems.induct)
  case 1
  then show ?case by simp
next
  case (2 e)
  then show ?case
    using split_from_app [of e "[]" "[]"] by (simp add: split_elems_def)
next
  case (3 e e' es)
  then have "split_elems (join_elems (e' # es)) = e' # es" by simp
  moreover have "split_from [] (e @ ''/'' @ join_elems (e' # es)) =
      split_from (rev e) (''/'' @ join_elems (e' # es))"
    using split_from_app [of e "[]"] 3 by simp
  ultimately show ?case
    by (simp add: split_elems_def IsPathSeparator_def)
qed

lemma clean_elems_out:
  "clean_out rooted out \<Longrightarrow> clean_out rooted (rev (clean_elems rooted out es))"
proof (induction es arbitrary: out)
  case Nil
  then show ?case by simp
next
  case (Cons e es)
  show ?case
  proof (cases "e = [] \<or> e = ''.''")
    case True
    with Cons show ?thesis by auto
  next
    case False
    show ?thesis
    proof (cases "e = ''..''")
      case up: True
      show ?thesis
      proof (cases out)
        case Nil
        have "clean_out rooted [e]" if "\<not> rooted"
          using that up by (simp add: clean_out_def)
        with Cons.IH [of "[]"] Cons.IH [of "[e]"] Cons.prems up Nil show ?thesis
          by (cases rooted) simp_all
      next
        case (Cons t ts)
        have "clean_out rooted (e # out)" if "t = ''..''"
          using that up Cons Cons.prems by (auto simp: clean_out_def)
        moreover have "clean_out rooted ts" if "t \<noteq> ''..''"
          using that Cons Cons.prems by (auto simp: clean_out_def)
        ultimately show ?thesis
          using Cons.IH [of "e # out"] Cons.IH [of ts] up Cons by (cases "t = ''..''") simp_all
      qed
    next
      case other: False
      with False Cons.prems have "clean_out rooted (e # out)"
        by (auto simp: clean_out_def)
      with Cons.IH [of "e # out"] False other show ?thesis by simp
    qed
  qed
qed

lemma dots_outermost_below:
  "dots_outermost (xs @ ''..'' # ys) \<Longrightarrow> y \<in> set ys \<Longrightarrow> y = ''..''"
proof (induction xs)
  case Nil
  then show ?case by simp
next
  case (Cons x xs)
  show ?case
  proof (cases "x = ''..''")
    case True
    with Cons.prems have "\<forall>z \<in> set (xs @ ''..'' # ys). z = ''..''"
      by (simp only: append_Cons dots_outermost.simps simp_thms if_True)
    with Cons.prems(2) show ?thesis by simp
  next
    case False
    with Cons.prems have "dots_outermost (xs @ ''..'' # ys)"
      by (simp only: append_Cons dots_outermost.simps if_False)
    from Cons.IH [OF this Cons.prems(2)] show ?thesis .
  qed
qed
lemma clean_elems_clean:
  "clean_out rooted (rev es @ out) \<Longrightarrow> clean_elems rooted out es = rev out @ es"
proof (induction es arbitrary: out)
  case Nil
  then show ?case by simp
next
  case (Cons e es)
  from Cons.prems have p: "clean_out rooted (rev es @ (e # out))" by simp
  from Cons.prems have e: "e \<noteq> []" "e \<noteq> ''.''"
    by (auto simp: clean_out_def)
  show ?case
  proof (cases "e = ''..''")
    case True
    with p have nr: "\<not> rooted" and d: "dots_outermost (rev es @ ''..'' # out)"
      by (auto simp: clean_out_def)
    have below: "\<forall>y \<in> set out. y = ''..''"
      using dots_outermost_below [OF d] by blast
    show ?thesis
    proof (cases out)
      case Nil
      with Cons.IH [of "[e]"] p True nr e show ?thesis by simp
    next
      case (Cons t ts)
      with below have "t = ''..''" by simp
      with Cons.IH [of "e # out"] p True Cons e show ?thesis by simp
    qed
  next
    case False
    with Cons.IH [of "e # out"] p e show ?thesis by simp
  qed
qed

lemma hd_join_elems:
  "es \<noteq> [] \<Longrightarrow> hd es \<noteq> [] \<Longrightarrow> hd (join_elems es) = hd (hd es)"
  by (induction es rule: join_elems.induct) simp_all

lemma join_elems_empty:
  "join_elems es = [] \<Longrightarrow> \<forall>e \<in> set es. e \<noteq> [] \<Longrightarrow> es = []"
  by (induction es rule: join_elems.induct) simp_all

lemma clean_elems_subset: "set (clean_elems rooted out es) \<subseteq> set out \<union> set es"
proof (induction es arbitrary: out)
  case Nil
  show ?case by simp
next
  case (Cons e es)
  show ?case
  proof (cases "e = [] \<or> e = ''.''")
    case True
    with Cons.IH [of out] show ?thesis by auto
  next
    case False
    show ?thesis
    proof (cases "e = ''..''")
      case up: True
      show ?thesis
      proof (cases out)
        case Nil
        with Cons.IH [of "[]"] Cons.IH [of "[e]"] up show ?thesis
          by (cases rooted) auto
      next
        case (Cons t ts)
        show ?thesis
        proof (cases "t = ''..''")
          case True
          with Cons.IH [of "e # out"] up Cons show ?thesis by auto
        next
          case False
          with Cons.IH [of ts] up Cons show ?thesis by auto
        qed
      qed
    next
      case other: False
      with Cons.IH [of "e # out"] False show ?thesis by auto
    qed
  qed
qed

lemma filepath_Clean_nonempty: "filepath_Clean p \<noteq> []"
  by (simp add: filepath_Clean_def Let_def)

theorem filepath_Clean_idem: "filepath_Clean (filepath_Clean p) = filepath_Clean p"
proof -
  define rooted where "rooted = (p \<noteq> [] \<and> IsPathSeparator (hd p))"
  define es where "es = clean_elems rooted [] (split_elems p)"
  have "clean_out rooted []" by (simp add: clean_out_def)
  from clean_elems_out [OF this, of "split_elems p"]
  have ok: "clean_out rooted (rev es)" by (simp add: es_def)
  have "\<forall>e \<in> set (split_elems p). CHR ''/'' \<notin> set e"
    using split_from_no_sep [of "[]" _ p] by (simp add: split_elems_def)
  then have ns: "\<forall>e \<in> set es. CHR ''/'' \<notin> set e"
    using clean_elems_subset [of rooted "[]" "split_elems p"] by (auto simp: es_def)
  from ok have ne: "\<forall>e \<in> set es. e \<noteq> []" by (auto simp: clean_out_def)
  have cl: "clean_elems rooted [] es = es"
    using clean_elems_clean [of rooted es "[]"] ok by simp
  show ?thesis
  proof (cases "es = []")
    case True
    have "filepath_Clean p =
        (let out = (if rooted then ''/'' else []) @ join_elems es in if out = [] then ''.'' else out)"
      unfolding filepath_Clean_def rooted_def es_def Let_def ..
    with True have "filepath_Clean p = (if rooted then ''/'' else ''.'')"
      by simp
    moreover have "filepath_Clean ''/'' = ''/''" and "filepath_Clean ''.'' = ''.''"
      by code_simp+
    ultimately show ?thesis by simp
  next
    case False
    define out where "out = (if rooted then ''/'' else []) @ join_elems es"
    from False ne have j: "join_elems es \<noteq> []"
      using join_elems_empty by blast
    have "filepath_Clean p =
        (let out = (if rooted then ''/'' else []) @ join_elems es in if out = [] then ''.'' else out)"
      unfolding filepath_Clean_def rooted_def es_def Let_def ..
    with j have cp: "filepath_Clean p = out"
      by (simp add: out_def)
    from False obtain e0 es0 where c: "es = e0 # es0" by (cases es) auto
    with ne ns have "e0 \<noteq> []" and "CHR ''/'' \<notin> set e0" by auto
    then have "hd e0 \<noteq> CHR ''/''" by (cases e0) auto
    moreover from c \<open>e0 \<noteq> []\<close> have "hd (join_elems es) = hd e0"
      using hd_join_elems [of es] by simp
    ultimately have "hd (join_elems es) \<noteq> CHR ''/''" by simp
    with j have r: "(out \<noteq> [] \<and> IsPathSeparator (hd out)) = rooted"
      by (auto simp: out_def IsPathSeparator_def)
    have "split_elems out = (if rooted then [[]] else []) @ es"
      using split_join [OF False ns] by (simp add: out_def split_elems_def IsPathSeparator_def)
    then have "clean_elems rooted [] (split_elems out) = es"
      using cl by (cases rooted) simp_all
    moreover have "filepath_Clean out =
        (let o2 = (if rooted then ''/'' else []) @ join_elems (clean_elems rooted [] (split_elems out))
         in if o2 = [] then ''.'' else o2)"
      unfolding filepath_Clean_def Let_def r ..
    ultimately have "filepath_Clean out = out"
      using j by (simp add: out_def)
    with cp show ?thesis by simp
  qed
qed

lemma filepath_Dir_clean: "filepath_Clean (filepath_Dir p) = filepath_Dir p"
  by (simp add: filepath_Dir_def filepath_Clean_idem)

lemma filepath_Join_clean:
  "dst \<noteq> [] \<Longrightarrow> filepath_Clean (filepath_Join [dst, name]) = filepath_Join [dst, name]"
  by (simp add: filepath_Join.simps filepath_Clean_idem)

section \<open>untar: the calls it makes\<close>

lemma sys_calls: "calls (snd (sys os c w)) = calls w @ [c]"
  by (simp add: sys_def calls_def split: prod.split)

lemma sys_eq: "sys os c w = (r, w') \<Longrightarrow> calls w' = calls w @ [c]"
  using sys_calls [of os c w] by simp

lemma ensure_parent_calls:
  "ensure_parent os p w = (r, w') \<Longrightarrow>
   calls w' = calls w @ [Stat p] \<or> calls w' = calls w @ [Stat p, MkdirAll p 493]"
  by (auto simp: ensure_parent_def split: prod.splits if_splits dest!: sys_eq)

lemma write_file_ok:
  "write_file os path hdr data w = (None, w') \<Longrightarrow> calls w' = calls w @ file_calls path hdr data"
  by (auto simp: write_file_def file_calls_def split: prod.splits option.splits dest!: sys_eq)

lemma write_file_creates:
  "write_file os path hdr data w = (r, w') \<Longrightarrow>
   length (filter is_Create (calls w')) = Suc (length (filter is_Create (calls w)))"
  by (auto simp: write_file_def split: prod.splits option.splits dest!: sys_eq)

text \<open>The body of the loop, case by case.\<close>

lemma untar_entry_dir:
  assumes "FileInfo_IsDir hdr"
  shows "untar_entry os dst src True hdr data st =
     (case sys os (MkdirAll (filepath_Join [dst, Name hdr]) 493) (world st) of
        (Some e, w1) \<Rightarrow> (Some (OsError e), st\<lparr>world := w1\<rparr>)
      | (None, w1) \<Rightarrow> (None, st\<lparr>dirHdrs := dirHdrs st @ [hdr], world := w1\<rparr>))"
    and "untar_entry os dst src False hdr data st = (Some (ExpectedSingleFile src), st)"
  using assms by (simp_all add: untar_entry_def)

lemma untar_entry_file:
  assumes "\<not> FileInfo_IsDir hdr"
  shows "untar_entry os dst src dir hdr data st =
     (case ensure_parent os (filepath_Dir (if dir then filepath_Join [dst, Name hdr] else dst))
             (world st) of
        (Some e, w1) \<Rightarrow> (Some (OsError e), st\<lparr>world := w1\<rparr>)
      | (None, w1) \<Rightarrow>
          if \<not> dir \<and> doneFlag st then (Some (MultipleFiles src), st\<lparr>world := w1\<rparr>)
          else (case write_file os (if dir then filepath_Join [dst, Name hdr] else dst) hdr data w1 of
                  (Some e, w2) \<Rightarrow> (Some (OsError e), st\<lparr>doneFlag := True, world := w2\<rparr>)
                | (None, w2) \<Rightarrow> (None, st\<lparr>doneFlag := True, world := w2\<rparr>)))"
  using assms by (simp add: untar_entry_def Let_def)

lemma untar_entry_file_ok:
  assumes "\<not> FileInfo_IsDir hdr" and "untar_entry os dst src dir hdr data st = (None, st')"
  shows "doneFlag st' \<and> dirHdrs st' = dirHdrs st
     \<and> (\<exists>pre. calls (world st') =
            calls (world st) @ pre
              @ file_calls (if dir then filepath_Join [dst, Name hdr] else dst) hdr data
          \<and> filter (\<lambda>c. \<not> is_mkdir c) pre = [])"
proof -
  let ?path = "if dir then filepath_Join [dst, Name hdr] else dst"
  obtain r w1 where e: "ensure_parent os (filepath_Dir ?path) (world st) = (r, w1)"
    by (cases "ensure_parent os (filepath_Dir ?path) (world st)")
  obtain r2 w2 where wf: "write_file os ?path hdr data w1 = (r2, w2)"
    by (cases "write_file os ?path hdr data w1")
  from assms e wf have ok: "r = None" "r2 = None" "st' = st\<lparr>doneFlag := True, world := w2\<rparr>"
    by (auto simp: untar_entry_file split: option.splits if_splits)
  from ensure_parent_calls [OF e] obtain pre where
    pre: "calls w1 = calls (world st) @ pre" "filter (\<lambda>c. \<not> is_mkdir c) pre = []"
    by auto
  from wf ok have "calls w2 = calls w1 @ file_calls ?path hdr data"
    using write_file_ok by blast
  with pre ok show ?thesis by auto
qed

lemma untar_entry_dir_ok:
  assumes "FileInfo_IsDir hdr" and "untar_entry os dst src True hdr data st = (None, st')"
  shows "doneFlag st' = doneFlag st \<and> dirHdrs st' = dirHdrs st @ [hdr]
     \<and> calls (world st') = calls (world st) @ [MkdirAll (filepath_Join [dst, Name hdr]) 493]"
  using assms
  by (auto simp: untar_entry_dir split: prod.splits option.splits dest!: sys_eq)

lemma apply_dirHdrs_ok:
  "apply_dirHdrs os dst hs w = (None, w') \<Longrightarrow> calls w' = calls w @ map (chtimes_of dst) hs"
proof (induction hs arbitrary: w)
  case Nil
  then show ?case by simp
next
  case (Cons h hs)
  obtain r w1 where s: "sys os (chtimes_of dst h) w = (r, w1)"
    by (cases "sys os (chtimes_of dst h) w")
  with Cons.prems have "r = None" and "apply_dirHdrs os dst hs w1 = (None, w')"
    by (auto simp: chtimes_of_def split: option.splits)
  with Cons.IH [of w1] sys_eq [OF s] show ?case by simp
qed

text \<open>
  The loop in directory mode, when it ends without an error: the directory headers
  are recorded in the order of the archive, and apart from the calls that look for
  directories or make them, the calls are those that write the file entries.
\<close>

lemma untar_loop_ok:
  "untar_loop os dst src True items st = (None, st') \<Longrightarrow>
   dirHdrs st' = dirHdrs st @ filter dir_entry (headers items)
   \<and> (\<exists>pre. calls (world st') = calls (world st) @ pre
          \<and> filter (\<lambda>c. \<not> is_mkdir c) pre = all_file_calls dst items)"
proof (induction items arbitrary: st)
  case Nil
  then show ?case by (simp split: if_splits)
next
  case (Cons it items)
  show ?case
  proof (cases it)
    case (ReadErr e)
    with Cons.prems show ?thesis by simp
  next
    case (Entry hdr data)
    show ?thesis
    proof (cases "is_xheader hdr")
      case True
      then have "\<not> dir_entry hdr" and "\<not> file_entry hdr"
        by (simp_all add: dir_entry_def file_entry_def)
      moreover have "untar_loop os dst src True items st = (None, st')"
        using Cons.prems Entry True by (simp add: is_xheader_def)
      ultimately show ?thesis
        using Cons.IH [of st] Entry by simp
    next
      case False
      then have nx: "\<not> (Typeflag hdr = TypeXGlobalHeader \<or> Typeflag hdr = TypeXHeader)"
        by (simp add: is_xheader_def)
      obtain r st1 where e: "untar_entry os dst src True hdr data st = (r, st1)"
        by (cases "untar_entry os dst src True hdr data st")
      with Cons.prems Entry nx have r: "r = None"
        and l: "untar_loop os dst src True items st1 = (None, st')"
        by (auto split: option.splits)
      from Cons.IH [OF l] obtain pre where
        ih: "dirHdrs st' = dirHdrs st1 @ filter dir_entry (headers items)"
            "calls (world st') = calls (world st1) @ pre"
            "filter (\<lambda>c. \<not> is_mkdir c) pre = all_file_calls dst items"
        by auto
      show ?thesis
      proof (cases "FileInfo_IsDir hdr")
        case True
        from untar_entry_dir_ok [OF True, of os dst src data st st1] e r
        have "dirHdrs st1 = dirHdrs st @ [hdr]"
          and "calls (world st1) = calls (world st) @ [MkdirAll (filepath_Join [dst, Name hdr]) 493]"
          by auto
        moreover have "dir_entry hdr" and "\<not> file_entry hdr"
          using True False by (simp_all add: dir_entry_def file_entry_def)
        ultimately show ?thesis
          using ih Entry by simp
      next
        case isfile: False
        from untar_entry_file_ok [OF isfile, of os dst src True data st st1] e r
        obtain p1 where "dirHdrs st1 = dirHdrs st"
          and "calls (world st1) =
                 calls (world st) @ p1 @ file_calls (filepath_Join [dst, Name hdr]) hdr data"
          and "filter (\<lambda>c. \<not> is_mkdir c) p1 = []"
          by auto
        moreover have "\<not> dir_entry hdr" and "file_entry hdr"
          using isfile False by (simp_all add: dir_entry_def file_entry_def)
        ultimately show ?thesis
          using ih Entry by (simp add: file_calls_def)
      qed
    qed
  qed
qed

section \<open>untar: the loop\<close>

lemma untar_loop_xheaders:
  "only_xheaders pre \<Longrightarrow>
   untar_loop os dst src dir (pre @ xs) st = untar_loop os dst src dir xs st"
proof (induction pre)
  case Nil
  then show ?case by simp
next
  case (Cons it pre)
  then show ?case by (cases it) (simp_all add: is_xheader_def)
qed

lemma untar_loop_append:
  "untar_loop os dst src dir pre st = (None, st1) \<Longrightarrow>
   untar_loop os dst src dir (pre @ xs) st = untar_loop os dst src dir xs st1"
proof (induction pre arbitrary: st)
  case Nil
  then show ?case by (simp split: if_splits)
next
  case (Cons it pre)
  then show ?case
    by (cases it) (auto split: if_splits option.splits prod.splits)
qed

text \<open>The errors of the body of the loop, and what it does to \<open>done\<close>.\<close>

lemma untar_entry_error:
  "untar_entry os dst src dir hdr data st = (Some e, st') \<Longrightarrow>
   (\<not> dir \<and> (e = ExpectedSingleFile src \<or> e = MultipleFiles src)) \<or> (\<exists>n. e = OsError n)"
  by (cases dir; cases "FileInfo_IsDir hdr")
    (auto simp: untar_entry_dir untar_entry_file split: prod.splits option.splits if_splits)

lemma untar_entry_single:
  "untar_entry os dst src False hdr data st = (r, st') \<Longrightarrow> dirHdrs st' = dirHdrs st"
  by (cases "FileInfo_IsDir hdr")
    (auto simp: untar_entry_dir untar_entry_file split: prod.splits option.splits if_splits)

lemma untar_loop_single:
  "untar_loop os dst src False items st = (r, st') \<Longrightarrow> dirHdrs st' = dirHdrs st"
proof (induction items arbitrary: st)
  case Nil
  then show ?case by (auto split: if_splits)
next
  case (Cons it items)
  show ?case
  proof (cases it)
    case (ReadErr e)
    with Cons.prems show ?thesis by auto
  next
    case (Entry hdr data)
    obtain r1 st1 where e: "untar_entry os dst src False hdr data st = (r1, st1)"
      by (cases "untar_entry os dst src False hdr data st")
    from untar_entry_single [OF e] have "dirHdrs st1 = dirHdrs st" .
    with Cons Entry e show ?thesis
      by (auto split: if_splits option.splits)
  qed
qed

text \<open>
  A run of \<open>untar\<close> in single-file mode that ends without an error is a run of the
  loop that ends without an error, in the same world.
\<close>

lemma untar_single_ok:
  assumes "untar os pre dst src False w = (None, w1)"
  shows "\<exists>st1. untar_loop os dst src False pre \<lparr>doneFlag = False, dirHdrs = [], world = w\<rparr>
                 = (None, st1) \<and> world st1 = w1"
proof -
  let ?st0 = "\<lparr>doneFlag = False, dirHdrs = [], world = w\<rparr>"
  obtain r st1 where l: "untar_loop os dst src False pre ?st0 = (r, st1)"
    by (cases "untar_loop os dst src False pre ?st0")
  from untar_loop_single [OF l] have d: "dirHdrs st1 = []" by simp
  from assms l have "r = None"
    by (auto simp: untar_def split: option.splits)
  with assms l d show ?thesis
    by (auto simp: untar_def)
qed

lemma untar_fails_if_loop_fails:
  "fst (untar_loop os dst src dir items \<lparr>doneFlag = False, dirHdrs = [], world = w\<rparr>) \<noteq> None
   \<Longrightarrow> fst (untar os items dst src dir w) \<noteq> None"
  by (auto simp: untar_def split: prod.splits option.splits)

section \<open>untar: single-file mode\<close>

lemma dir_entry_fails:
  "Entry hdr data \<in> set items \<Longrightarrow> dir_entry hdr \<Longrightarrow>
   fst (untar_loop os dst src False items st) \<noteq> None"
proof (induction items arbitrary: st)
  case Nil
  then show ?case by simp
next
  case (Cons it items)
  show ?case
  proof (cases it)
    case (ReadErr e)
    then show ?thesis by simp
  next
    case (Entry h d)
    show ?thesis
    proof (cases "is_xheader h")
      case True
      with Cons Entry show ?thesis
        by (auto simp: is_xheader_def dir_entry_def)
    next
      case False
      obtain r st1 where e: "untar_entry os dst src False h d st = (r, st1)"
        by (cases "untar_entry os dst src False h d st")
      show ?thesis
      proof (cases "FileInfo_IsDir h")
        case True
        with False Entry show ?thesis
          by (simp add: is_xheader_def untar_entry_dir)
      next
        case isfile: False
        with Cons.prems Entry have "Entry hdr data \<in> set items"
          by (auto simp: dir_entry_def)
        from Cons.IH [OF this Cons.prems(2)] Entry False e show ?thesis
          by (auto simp: is_xheader_def split: option.splits)
      qed
    qed
  qed
qed

lemma dir_entry_reached:
  assumes "dir_entry hdr"
  shows "untar_loop os dst src False (Entry hdr data # rest) st = (Some (ExpectedSingleFile src), st)"
  using assms by (simp add: dir_entry_def is_xheader_def untar_entry_dir)

text \<open>
  C2, as the claim states it, fails: a file entry that stands before the directory
  entry is written to the destination before the directory entry is read. Here the
  extraction of the file \<open>a/b\<close> followed by the directory \<open>a/\<close> to the single file
  \<open>/d/f\<close> fails with \<open>expected a single file\<close>, and \<open>/d/f\<close> holds the content of \<open>a/b\<close>.
\<close>

theorem C2_counterexample:
  "fst (untar posix [Entry file_ab ''hello'', Entry dir_a []] ''/d/f'' ''x.tar'' False disk0) =
     Some (ExpectedSingleFile ''x.tar'')
   \<and> nodes (fst disk0) ''/d/f'' = None
   \<and> nodes (fst (snd (untar posix [Entry file_ab ''hello'', Entry dir_a []] ''/d/f'' ''x.tar''
        False disk0))) ''/d/f'' = Some (FileNode ''hello'' 420 11 12)"
  by code_simp

text \<open>
  C2, amended. For every archive that contains a directory entry, extraction in
  single-file mode fails. Whenever the run reaches the directory entry (what stands
  before it extracts without an error), the failure is \<open>expected a single file\<close> and
  no call is made for the directory entry or after it. When only extended headers
  stand before the directory entry, no call is made at all: no file is written.
\<close>

theorem C2_directory_in_single_file_mode:
  assumes "items = pre @ Entry hdr data # rest" and "dir_entry hdr"
  shows "fst (untar os items dst src False w) \<noteq> None
     \<and> (only_xheaders pre \<longrightarrow>
          untar os items dst src False w = (Some (ExpectedSingleFile src), w))
     \<and> (untar os pre dst src False w = (None, w1) \<longrightarrow>
          untar os items dst src False w = (Some (ExpectedSingleFile src), w1))"
proof (intro conjI impI)
  let ?st0 = "\<lparr>doneFlag = False, dirHdrs = [], world = w\<rparr>"
  have "Entry hdr data \<in> set items"
    using assms(1) by simp
  from dir_entry_fails [OF this assms(2)] show "fst (untar os items dst src False w) \<noteq> None"
    by (rule untar_fails_if_loop_fails)
  {
    assume "only_xheaders pre"
    then have "untar_loop os dst src False items ?st0 =
        untar_loop os dst src False (Entry hdr data # rest) ?st0"
      unfolding assms(1) by (rule untar_loop_xheaders)
    also have "\<dots> = (Some (ExpectedSingleFile src), ?st0)"
      by (rule dir_entry_reached [OF assms(2)])
    finally show "untar os items dst src False w = (Some (ExpectedSingleFile src), w)"
      by (simp add: untar_def)
  }
  {
    assume "untar os pre dst src False w = (None, w1)"
    from untar_single_ok [OF this] obtain st1 where
      l: "untar_loop os dst src False pre ?st0 = (None, st1)" and w: "world st1 = w1"
      by auto
    have "untar_loop os dst src False items ?st0 =
        untar_loop os dst src False (Entry hdr data # rest) st1"
      unfolding assms(1) by (rule untar_loop_append [OF l])
    also have "\<dots> = (Some (ExpectedSingleFile src), st1)"
      by (rule dir_entry_reached [OF assms(2)])
    finally show "untar os items dst src False w = (Some (ExpectedSingleFile src), w1)"
      using w by (simp add: untar_def)
  }
qed

theorem C2_directory_in_single_file_mode_witness:
  "fst (untar posix [Entry pax_global [], Entry dir_a [], Entry file_ab ''hello''] ''/d/f'' ''x.tar''
          False disk0) \<noteq> None
   \<and> untar posix [Entry pax_global [], Entry dir_a [], Entry file_ab ''hello''] ''/d/f'' ''x.tar''
          False disk0 = (Some (ExpectedSingleFile ''x.tar''), disk0)"
proof -
  have d: "dir_entry dir_a" by code_simp
  have x: "only_xheaders [Entry pax_global []]" by code_simp
  show ?thesis
    using C2_directory_in_single_file_mode [where pre = "[Entry pax_global []]" and hdr = dir_a
        and data = "[]" and rest = "[Entry file_ab ''hello'']" and os = posix and dst = "''/d/f''"
        and src = "''x.tar''" and w = disk0, OF _ d] x
    by simp
qed

text \<open>
  In single-file mode the body of the loop creates no file once \<open>done\<close> is set, and at
  most one before; it goes on to the next entry only from a file entry read while
  \<open>done\<close> was not set, and sets it.
\<close>

lemma untar_entry_single_creates:
  assumes "untar_entry os dst src False hdr data st = (r, st1)"
  shows "length (filter is_Create (calls (world st1)))
           \<le> length (filter is_Create (calls (world st))) + (if doneFlag st then 0 else 1)
     \<and> (r = None \<longrightarrow> \<not> doneFlag st \<and> doneFlag st1 \<and> \<not> FileInfo_IsDir hdr)"
proof (cases "FileInfo_IsDir hdr")
  case True
  with assms show ?thesis by (auto simp: untar_entry_dir)
next
  case False
  obtain r1 w1 where e: "ensure_parent os (filepath_Dir dst) (world st) = (r1, w1)"
    by (cases "ensure_parent os (filepath_Dir dst) (world st)")
  from ensure_parent_calls [OF e]
  have c1: "length (filter is_Create (calls w1)) = length (filter is_Create (calls (world st)))"
    by auto
  obtain r2 w2 where wf: "write_file os dst hdr data w1 = (r2, w2)"
    by (cases "write_file os dst hdr data w1")
  from write_file_creates [OF wf]
  have c2: "length (filter is_Create (calls w2)) = Suc (length (filter is_Create (calls w1)))" .
  from assms e wf c1 c2 False show ?thesis
    by (auto simp: untar_entry_file split: option.splits if_splits)
qed

lemma untar_loop_single_creates:
  "length (filter is_Create (calls (world (snd (untar_loop os dst src False items st)))))
     \<le> length (filter is_Create (calls (world st))) + (if doneFlag st then 0 else 1)"
proof (induction items arbitrary: st)
  case Nil
  then show ?case by simp
next
  case (Cons it items)
  show ?case
  proof (cases it)
    case (ReadErr e)
    then show ?thesis by simp
  next
    case (Entry hdr data)
    obtain r st1 where e: "untar_entry os dst src False hdr data st = (r, st1)"
      by (cases "untar_entry os dst src False hdr data st")
    note c = untar_entry_single_creates [OF e]
    show ?thesis
    proof (cases "r = None \<and> \<not> is_xheader hdr")
      case True
      with c have "\<not> doneFlag st" and "doneFlag st1"
        and "length (filter is_Create (calls (world st1)))
               \<le> length (filter is_Create (calls (world st))) + 1"
        by auto
      with Cons.IH [of st1] True Entry e show ?thesis
        by (auto simp: is_xheader_def)
    next
      case False
      with Cons.IH [of st] c Entry e show ?thesis
        by (auto simp: is_xheader_def split: option.splits)
    qed
  qed
qed

lemma second_file_fails:
  "(if doneFlag st then 1 else 2) \<le> length (filter file_entry (headers items)) \<Longrightarrow>
   fst (untar_loop os dst src False items st) \<noteq> None"
proof (induction items arbitrary: st)
  case Nil
  then show ?case by (simp split: if_splits)
next
  case (Cons it items)
  show ?case
  proof (cases it)
    case (ReadErr e)
    then show ?thesis by simp
  next
    case (Entry hdr data)
    obtain r st1 where e: "untar_entry os dst src False hdr data st = (r, st1)"
      by (cases "untar_entry os dst src False hdr data st")
    note c = untar_entry_single_creates [OF e]
    show ?thesis
    proof (cases "is_xheader hdr")
      case True
      then have "\<not> file_entry hdr" by (simp add: file_entry_def)
      with Cons.prems Entry have "(if doneFlag st then 1 else 2) \<le> length (filter file_entry (headers items))"
        by simp
      from Cons.IH [OF this] True Entry show ?thesis
        by (simp add: is_xheader_def)
    next
      case False
      show ?thesis
      proof (cases r)
        case (Some err)
        with False Entry e show ?thesis by (simp add: is_xheader_def)
      next
        case None
        with c have d: "\<not> doneFlag st" "doneFlag st1" by auto
        with Cons.prems Entry have "(if doneFlag st1 then 1 else 2) \<le> length (filter file_entry (headers items))"
          by (auto split: if_splits)
        from Cons.IH [OF this] None False Entry e show ?thesis
          by (simp add: is_xheader_def)
      qed
    qed
  qed
qed

lemma untar_loop_ok_done:
  "untar_loop os dst src dir items st = (None, st') \<Longrightarrow> doneFlag st'"
proof (induction items arbitrary: st)
  case Nil
  then show ?case by (auto split: if_splits)
next
  case (Cons it items)
  then show ?case
    by (cases it) (auto split: if_splits option.splits prod.splits)
qed

lemma file_entry_reached:
  assumes "file_entry hdr" and "doneFlag st"
  shows "untar_loop os dst src False (Entry hdr data # rest) st =
     (case ensure_parent os (filepath_Dir dst) (world st) of
        (Some e, w2) \<Rightarrow> (Some (OsError e), st\<lparr>world := w2\<rparr>)
      | (None, w2) \<Rightarrow> (Some (MultipleFiles src), st\<lparr>world := w2\<rparr>))"
  using assms
  by (simp add: file_entry_def is_xheader_def untar_entry_file split: prod.splits option.splits)

lemma untar_single_world:
  "snd (untar os items dst src False w) =
   world (snd (untar_loop os dst src False items \<lparr>doneFlag = False, dirHdrs = [], world = w\<rparr>))"
proof -
  let ?st0 = "\<lparr>doneFlag = False, dirHdrs = [], world = w\<rparr>"
  obtain r st1 where l: "untar_loop os dst src False items ?st0 = (r, st1)"
    by (cases "untar_loop os dst src False items ?st0")
  from untar_loop_single [OF l] have "dirHdrs st1 = []" by simp
  with l show ?thesis
    by (simp add: untar_def split: option.splits)
qed

text \<open>
  C4, as the claim states it, fails: when a directory entry stands before the file
  entries, the failure is that of the directory entry.
\<close>

theorem C4_counterexample:
  "fst (untar posix [Entry dir_a [], Entry file_ab ''hello'', Entry file_ab ''world''] ''/d/f''
          ''x.tar'' False disk0) = Some (ExpectedSingleFile ''x.tar'')"
  by code_simp

text \<open>
  C4, amended. For every archive that contains two or more file entries (entries that
  are neither extended headers nor directories), extraction in single-file mode fails,
  and it creates at most one file. Whenever the run reaches a file entry after a file
  has been materialized (what stands before the entry extracts without an error),
  the entry is not created or written: after the look at the parent directory of the
  destination the run fails with \<open>expected a single file, got multiple\<close>, or with the
  error of \<open>os.MkdirAll\<close> when the parent directory was missing and could not be made.
\<close>

theorem C4_second_file_in_single_file_mode:
  assumes "2 \<le> length (filter file_entry (headers items))"
  shows "fst (untar os items dst src False w) \<noteq> None
     \<and> length (filter is_Create (calls (snd (untar os items dst src False w))))
           \<le> Suc (length (filter is_Create (calls w)))
     \<and> (items = pre @ Entry hdr data # rest \<and> file_entry hdr
          \<and> untar os pre dst src False w = (None, w1) \<longrightarrow>
        untar os items dst src False w =
          (case ensure_parent os (filepath_Dir dst) w1 of
             (Some e, w2) \<Rightarrow> (Some (OsError e), w2)
           | (None, w2) \<Rightarrow> (Some (MultipleFiles src), w2)))"
proof (intro conjI impI)
  let ?st0 = "\<lparr>doneFlag = False, dirHdrs = [], world = w\<rparr>"
  have "fst (untar_loop os dst src False items ?st0) \<noteq> None"
    using assms by (intro second_file_fails) simp
  then show "fst (untar os items dst src False w) \<noteq> None"
    by (rule untar_fails_if_loop_fails)
  show "length (filter is_Create (calls (snd (untar os items dst src False w))))
           \<le> Suc (length (filter is_Create (calls w)))"
    using untar_loop_single_creates [of os dst src items ?st0]
    by (simp add: untar_single_world)
  {
    assume a: "items = pre @ Entry hdr data # rest \<and> file_entry hdr
          \<and> untar os pre dst src False w = (None, w1)"
    from untar_single_ok [of os pre dst src w w1] a obtain st1 where
      l: "untar_loop os dst src False pre ?st0 = (None, st1)" and w: "world st1 = w1"
      by auto
    from untar_loop_ok_done [OF l] have d: "doneFlag st1" .
    have "untar_loop os dst src False items ?st0 =
        untar_loop os dst src False (Entry hdr data # rest) st1"
      using a untar_loop_append [OF l] by simp
    also have "\<dots> = (case ensure_parent os (filepath_Dir dst) (world st1) of
        (Some e, w2) \<Rightarrow> (Some (OsError e), st1\<lparr>world := w2\<rparr>)
      | (None, w2) \<Rightarrow> (Some (MultipleFiles src), st1\<lparr>world := w2\<rparr>))"
      using a d by (intro file_entry_reached) simp_all
    finally show "untar os items dst src False w =
          (case ensure_parent os (filepath_Dir dst) w1 of
             (Some e, w2) \<Rightarrow> (Some (OsError e), w2)
           | (None, w2) \<Rightarrow> (Some (MultipleFiles src), w2))"
      using w by (simp add: untar_def split: prod.splits option.splits)
  }
qed

theorem C4_second_file_in_single_file_mode_witness:
  "fst (untar posix [Entry file_ab ''hello'', Entry file_ab ''world''] ''/d/f'' ''x.tar'' False disk0)
     = Some (MultipleFiles ''x.tar'')
   \<and> length (filter is_Create (calls (snd (untar posix
        [Entry file_ab ''hello'', Entry file_ab ''world''] ''/d/f'' ''x.tar'' False disk0)))) \<le> 1
   \<and> nodes (fst (snd (untar posix [Entry file_ab ''hello'', Entry file_ab ''world''] ''/d/f''
        ''x.tar'' False disk0))) ''/d/f'' = Some (FileNode ''hello'' 420 11 12)"
proof -
  have n: "2 \<le> length (filter file_entry (headers [Entry file_ab ''hello'', Entry file_ab ''world'']))"
    by code_simp
  have f: "file_entry file_ab" by code_simp
  have p: "untar posix [Entry file_ab ''hello''] ''/d/f'' ''x.tar'' False disk0 =
      (None, snd (untar posix [Entry file_ab ''hello''] ''/d/f'' ''x.tar'' False disk0))"
    by (rule prod_eqI) (code_simp, simp)
  have e: "fst (ensure_parent posix (filepath_Dir ''/d/f'')
      (snd (untar posix [Entry file_ab ''hello''] ''/d/f'' ''x.tar'' False disk0))) = None"
    by code_simp
  have c: "calls disk0 = []" by code_simp
  have k: "nodes (fst (snd (untar posix [Entry file_ab ''hello'', Entry file_ab ''world''] ''/d/f''
        ''x.tar'' False disk0))) ''/d/f'' = Some (FileNode ''hello'' 420 11 12)"
    by code_simp
  from C4_second_file_in_single_file_mode [OF n, where os = posix and dst = "''/d/f''"
      and src = "''x.tar''" and w = disk0 and pre = "[Entry file_ab ''hello'']" and hdr = file_ab
      and data = "''world''" and rest = "[]"
      and ?w1.0 = "snd (untar posix [Entry file_ab ''hello''] ''/d/f'' ''x.tar'' False disk0)"]
    f p e c k
  show ?thesis
    by (auto split: prod.splits option.splits)
qed

section \<open>untar: the empty archive\<close>

lemma apply_dirHdrs_error:
  "apply_dirHdrs os dst hs w = (Some e, w') \<Longrightarrow> \<exists>n. e = OsError n"
proof (induction hs arbitrary: w)
  case Nil
  then show ?case by simp
next
  case (Cons h hs)
  then show ?case
    by (auto split: prod.splits option.splits)
qed

text \<open>The loop returns \<open>empty archive\<close> only from the end of a stream without a file entry.\<close>

lemma empty_archive_only_if:
  "fst (untar_loop os dst src dir items st) = Some (EmptyArchive s) \<Longrightarrow>
   no_file_entries items \<and> \<not> doneFlag st"
proof (induction items arbitrary: st)
  case Nil
  then show ?case by (simp split: if_splits)
next
  case (Cons it items)
  show ?case
  proof (cases it)
    case (ReadErr e)
    with Cons.prems show ?thesis by simp
  next
    case (Entry hdr data)
    show ?thesis
    proof (cases "is_xheader hdr")
      case True
      then have "\<not> file_entry hdr" by (simp add: file_entry_def)
      moreover have "fst (untar_loop os dst src dir items st) = Some (EmptyArchive s)"
        using Cons.prems Entry True by (simp add: is_xheader_def)
      ultimately show ?thesis
        using Cons.IH [of st] Entry by simp
    next
      case False
      obtain r st1 where e: "untar_entry os dst src dir hdr data st = (r, st1)"
        by (cases "untar_entry os dst src dir hdr data st")
      have r: "r = None"
      proof (cases r)
        case None
        then show ?thesis .
      next
        case (Some err)
        with Cons.prems Entry False e have "err = EmptyArchive s"
          by (simp add: is_xheader_def)
        with untar_entry_error [of os dst src dir hdr data st err st1] e Some show ?thesis
          by auto
      qed
      with Cons.prems Entry False e
      have "fst (untar_loop os dst src dir items st1) = Some (EmptyArchive s)"
        by (simp add: is_xheader_def)
      from Cons.IH [OF this] have ih: "no_file_entries items" "\<not> doneFlag st1"
        by auto
      have isdir: "FileInfo_IsDir hdr"
      proof (rule ccontr)
        assume "\<not> FileInfo_IsDir hdr"
        from untar_entry_file_ok [OF this, of os dst src dir data st st1] e r ih show False
          by simp
      qed
      then have "\<not> file_entry hdr" by (simp add: file_entry_def)
      moreover have "doneFlag st1 = doneFlag st"
        using isdir e r by (cases dir) (auto simp: untar_entry_dir split: prod.splits option.splits)
      ultimately show ?thesis
        using ih Entry by simp
    qed
  qed
qed

text \<open>
  A stream without a file entry and without an error never extracts: the loop ends in
  \<open>empty archive\<close>, unless a directory entry fails before.
\<close>

lemma no_file_entries_result:
  "no_file_entries items \<Longrightarrow> \<not> doneFlag st \<Longrightarrow>
   fst (untar_loop os dst src dir items st) = Some (EmptyArchive src)
   \<or> (\<exists>n. fst (untar_loop os dst src dir items st) = Some (OsError n))
   \<or> (\<not> dir \<and> fst (untar_loop os dst src dir items st) = Some (ExpectedSingleFile src))"
proof (induction items arbitrary: st)
  case Nil
  then show ?case by simp
next
  case (Cons it items)
  show ?case
  proof (cases it)
    case (ReadErr e)
    with Cons.prems show ?thesis by simp
  next
    case (Entry hdr data)
    with Cons.prems have nf: "\<not> file_entry hdr" and rest: "no_file_entries items"
      by auto
    show ?thesis
    proof (cases "is_xheader hdr")
      case True
      with Cons.IH [OF rest Cons.prems(2)] Entry show ?thesis
        by (simp add: is_xheader_def)
    next
      case False
      with nf have isdir: "FileInfo_IsDir hdr" by (simp add: file_entry_def)
      show ?thesis
      proof (cases dir)
        case single: False
        with isdir False Entry show ?thesis
          by (simp add: is_xheader_def untar_entry_dir)
      next
        case True
        obtain r w1 where s: "sys os (MkdirAll (filepath_Join [dst, Name hdr]) 493) (world st) = (r, w1)"
          by (cases "sys os (MkdirAll (filepath_Join [dst, Name hdr]) 493) (world st)")
        show ?thesis
        proof (cases r)
          case (Some n)
          with s isdir True False Entry show ?thesis
            by (simp add: is_xheader_def untar_entry_dir)
        next
          case None
          let ?st1 = "st\<lparr>dirHdrs := dirHdrs st @ [hdr], world := w1\<rparr>"
          have "\<not> doneFlag ?st1" using Cons.prems(2) by simp
          from Cons.IH [OF rest this] None s isdir True False Entry show ?thesis
            by (simp add: is_xheader_def untar_entry_dir)
        qed
      qed
    qed
  qed
qed

text \<open>
  C3. The code does not do what the claim states for an archive of directories. The
  flag \<open>done\<close> is set where a file is written (line 75) and nowhere else, so an entry
  that is materialized as a directory does not count. In directory mode, on any
  operating system, take the archive of one directory entry whose \<open>os.MkdirAll\<close>
  succeeds: the directory is made and its header is recorded, and at the end of the
  stream the extraction returns \<open>empty archive\<close> (line 22), before the loop over the
  recorded headers. The world it returns is the world that \<open>os.MkdirAll\<close> left:
  \<open>os.Chtimes\<close> is never called, and the times recorded for the directory are never
  applied.
\<close>

theorem C3_directory_archive_reported_empty:
  "dir_entry d \<and> sys os (MkdirAll (filepath_Join [dst, Name d]) 493) w = (None, w1) \<longrightarrow>
   untar os [Entry d data] dst src True w = (Some (EmptyArchive src), w1)
   \<and> untar_loop os dst src True [Entry d data] \<lparr>doneFlag = False, dirHdrs = [], world = w\<rparr>
       = (Some (EmptyArchive src), \<lparr>doneFlag = False, dirHdrs = [d], world = w1\<rparr>)
   \<and> calls w1 = calls w @ [MkdirAll (filepath_Join [dst, Name d]) 493]"
proof (intro impI)
  assume a: "dir_entry d \<and> sys os (MkdirAll (filepath_Join [dst, Name d]) 493) w = (None, w1)"
  then have isdir: "FileInfo_IsDir d"
    and nx: "\<not> (Typeflag d = TypeXGlobalHeader \<or> Typeflag d = TypeXHeader)"
    and s: "sys os (MkdirAll (filepath_Join [dst, Name d]) 493) w = (None, w1)"
    by (simp_all add: dir_entry_def is_xheader_def)
  let ?st0 = "\<lparr>doneFlag = False, dirHdrs = [], world = w\<rparr>"
  have e: "untar_entry os dst src True d data ?st0 =
      (None, \<lparr>doneFlag = False, dirHdrs = [d], world = w1\<rparr>)"
    using s by (simp add: untar_entry_dir [OF isdir])
  have l: "untar_loop os dst src True [Entry d data] ?st0 =
      (Some (EmptyArchive src), \<lparr>doneFlag = False, dirHdrs = [d], world = w1\<rparr>)"
    using nx e by simp
  then have "untar os [Entry d data] dst src True w = (Some (EmptyArchive src), w1)"
    by (simp add: untar_def)
  moreover from sys_calls [of os "MkdirAll (filepath_Join [dst, Name d]) 493" w] s
  have "calls w1 = calls w @ [MkdirAll (filepath_Join [dst, Name d]) 493]"
    by simp
  ultimately show "untar os [Entry d data] dst src True w = (Some (EmptyArchive src), w1)
   \<and> untar_loop os dst src True [Entry d data] \<lparr>doneFlag = False, dirHdrs = [], world = w\<rparr>
       = (Some (EmptyArchive src), \<lparr>doneFlag = False, dirHdrs = [d], world = w1\<rparr>)
   \<and> calls w1 = calls w @ [MkdirAll (filepath_Join [dst, Name d]) 493]"
    using l by simp
qed

text \<open>
  The archive that holds the directory \<open>a/\<close> alone, with the times 21 and 22 in its
  header, extracted to the directory \<open>/d\<close> at time 1000: the extraction fails with
  \<open>empty archive\<close>; \<open>/d/a\<close>, which was not there, is a directory afterwards, and its
  times are those of the extraction; the one call made is \<open>os.MkdirAll\<close>.
\<close>

theorem C3_directory_archive_reported_empty_witness:
  "untar posix [Entry dir_a []] ''/d'' ''x.tar'' True disk0 =
     (Some (EmptyArchive ''x.tar''),
      snd (sys posix (MkdirAll (filepath_Join [''/d'', Name dir_a]) 493) disk0))
   \<and> nodes (fst disk0) ''/d/a'' = None
   \<and> nodes (fst (snd (untar posix [Entry dir_a []] ''/d'' ''x.tar'' True disk0))) ''/d/a''
       = Some (DirNode 493 1000 1000)
   \<and> (AccessTime dir_a, ModTime dir_a) = (21, 22)
   \<and> calls (snd (untar posix [Entry dir_a []] ''/d'' ''x.tar'' True disk0))
       = [MkdirAll ''/d/a'' 493]"
proof -
  let ?w1 = "snd (sys posix (MkdirAll (filepath_Join [''/d'', Name dir_a]) 493) disk0)"
  have da: "dir_entry dir_a"
    and ok: "fst (sys posix (MkdirAll (filepath_Join [''/d'', Name dir_a]) 493) disk0) = None"
    and n0: "nodes (fst disk0) ''/d/a'' = None"
    and n1: "nodes (fst ?w1) ''/d/a'' = Some (DirNode 493 1000 1000)"
    and t: "(AccessTime dir_a, ModTime dir_a) = (21, 22)"
    and c: "calls disk0 = []"
    and j: "filepath_Join [''/d'', Name dir_a] = ''/d/a''"
    by code_simp+
  from ok have s: "sys posix (MkdirAll (filepath_Join [''/d'', Name dir_a]) 493) disk0 = (None, ?w1)"
    by (simp only: prod_eq_iff fst_conv snd_conv simp_thms)
  from C3_directory_archive_reported_empty [where os = posix and d = dir_a and dst = "''/d''"
      and w = disk0 and ?w1.0 = ?w1 and data = "[]" and src = "''x.tar''"] da s
  have u: "untar posix [Entry dir_a []] ''/d'' ''x.tar'' True disk0 = (Some (EmptyArchive ''x.tar''), ?w1)"
    and k: "calls ?w1 = calls disk0 @ [MkdirAll (filepath_Join [''/d'', Name dir_a]) 493]"
    by blast+
  from k c j have "calls ?w1 = [MkdirAll ''/d/a'' 493]"
    by (simp only: append_Nil)
  with u n0 n1 t show ?thesis
    by (simp only: snd_conv simp_thms)
qed

section \<open>untar: what is not a directory is written as a file\<close>

lemma retype_not_dir:
  "\<not> FileInfo_IsDir hdr \<Longrightarrow> \<not> FileInfo_IsDir (hdr\<lparr>Typeflag := TypeReg\<rparr>)"
  by (simp add: FileInfo_IsDir_def)

lemma write_file_retype:
  "write_file os path (hdr\<lparr>Typeflag := ty\<rparr>) data w = write_file os path hdr data w"
  by (simp add: write_file_def FileInfo_Mode_def split: prod.split option.split)

lemma untar_entry_retype:
  assumes "\<not> FileInfo_IsDir hdr"
  shows "untar_entry os dst src dir (hdr\<lparr>Typeflag := TypeReg\<rparr>) data st =
         untar_entry os dst src dir hdr data st"
  by (simp add: untar_entry_file [OF assms] untar_entry_file [OF retype_not_dir [OF assms]]
      write_file_retype split: prod.split option.split)

text \<open>
  C10. An entry that is neither an extended header nor a directory is processed in
  one way, whatever its type flag: the loop does with it what it does with the
  regular file of the same name, mode, times and payload. When its processing ends
  without an error, the calls made are looks for and the making of the parent
  directory, followed by create, copy, chmod and chtimes on the path of the entry, and
  \<open>done\<close> is set; so in single-file mode the next such entry is not written and
  fails the run with \<open>expected a single file, got multiple\<close> (or with the error of the
  making of the parent directory). A symbolic link, whose payload is empty, thus
  becomes an empty regular file.
\<close>

theorem C10_non_directory_entry_is_written_as_file:
  assumes "file_entry hdr"
  shows "untar_loop os dst src dir (Entry hdr data # rest) st =
           untar_loop os dst src dir (Entry (hdr\<lparr>Typeflag := TypeReg\<rparr>) data # rest) st
     \<and> (untar_entry os dst src dir hdr data st = (None, st') \<longrightarrow>
          doneFlag st'
          \<and> (\<exists>pre. calls (world st') = calls (world st) @ pre
                 @ file_calls (if dir then filepath_Join [dst, Name hdr] else dst) hdr data
               \<and> filter (\<lambda>c. \<not> is_mkdir c) pre = []))
     \<and> (untar_entry os dst src False hdr data st = (None, st') \<and> file_entry hdr2 \<longrightarrow>
          untar_loop os dst src False (Entry hdr2 data2 # rest) st' =
            (case ensure_parent os (filepath_Dir dst) (world st') of
               (Some e, w2) \<Rightarrow> (Some (OsError e), st'\<lparr>world := w2\<rparr>)
             | (None, w2) \<Rightarrow> (Some (MultipleFiles src), st'\<lparr>world := w2\<rparr>)))"
proof (intro conjI impI)
  from assms have nd: "\<not> FileInfo_IsDir hdr" and nx: "\<not> is_xheader hdr"
    by (simp_all add: file_entry_def)
  show "untar_loop os dst src dir (Entry hdr data # rest) st =
           untar_loop os dst src dir (Entry (hdr\<lparr>Typeflag := TypeReg\<rparr>) data # rest) st"
    using nx by (simp add: is_xheader_def untar_entry_retype [OF nd])
  {
    assume a: "untar_entry os dst src dir hdr data st = (None, st')"
    from untar_entry_file_ok [OF nd a] show "doneFlag st'" by simp
    from untar_entry_file_ok [OF nd a]
    show "\<exists>pre. calls (world st') = calls (world st) @ pre
                 @ file_calls (if dir then filepath_Join [dst, Name hdr] else dst) hdr data
               \<and> filter (\<lambda>c. \<not> is_mkdir c) pre = []"
      by simp
  }
  {
    assume a: "untar_entry os dst src False hdr data st = (None, st') \<and> file_entry hdr2"
    with untar_entry_file_ok [OF nd, of os dst src False data st st'] have "doneFlag st'"
      by simp
    with a show "untar_loop os dst src False (Entry hdr2 data2 # rest) st' =
            (case ensure_parent os (filepath_Dir dst) (world st') of
               (Some e, w2) \<Rightarrow> (Some (OsError e), st'\<lparr>world := w2\<rparr>)
             | (None, w2) \<Rightarrow> (Some (MultipleFiles src), st'\<lparr>world := w2\<rparr>))"
      by (intro file_entry_reached) simp_all
  }
qed

theorem C10_non_directory_entry_is_written_as_file_witness:
  "untar_loop posix ''/d'' ''x.tar'' True [Entry link_l []]
       \<lparr>doneFlag = False, dirHdrs = [], world = disk0\<rparr> =
     untar_loop posix ''/d'' ''x.tar'' True [Entry (link_l\<lparr>Typeflag := TypeReg\<rparr>) []]
       \<lparr>doneFlag = False, dirHdrs = [], world = disk0\<rparr>
   \<and> fst (untar posix [Entry link_l []] ''/d'' ''x.tar'' True disk0) = None
   \<and> calls (snd (untar posix [Entry link_l []] ''/d'' ''x.tar'' True disk0)) =
       [Stat ''/d'', Create ''/d/l'', Copy ''/d/l'' [], Chmod ''/d/l'' 511, Chtimes ''/d/l'' 31 32]
   \<and> nodes (fst (snd (untar posix [Entry link_l []] ''/d'' ''x.tar'' True disk0))) ''/d/l''
       = Some (FileNode [] 511 31 32)
   \<and> fst (untar posix [Entry link_l [], Entry file_ab ''hello''] ''/d/f'' ''x.tar'' False disk0)
       = Some (MultipleFiles ''x.tar'')"
proof -
  have f: "file_entry link_l" by code_simp
  have "fst (untar posix [Entry link_l []] ''/d'' ''x.tar'' True disk0) = None"
    and "calls (snd (untar posix [Entry link_l []] ''/d'' ''x.tar'' True disk0)) =
       [Stat ''/d'', Create ''/d/l'', Copy ''/d/l'' [], Chmod ''/d/l'' 511, Chtimes ''/d/l'' 31 32]"
    and "nodes (fst (snd (untar posix [Entry link_l []] ''/d'' ''x.tar'' True disk0))) ''/d/l''
       = Some (FileNode [] 511 31 32)"
    and "fst (untar posix [Entry link_l [], Entry file_ab ''hello''] ''/d/f'' ''x.tar'' False disk0)
       = Some (MultipleFiles ''x.tar'')"
    by code_simp+
  with C10_non_directory_entry_is_written_as_file [OF f, where os = posix and dst = "''/d''"
      and src = "''x.tar''" and dir = True and data = "[]" and rest = "[]"
      and st = "\<lparr>doneFlag = False, dirHdrs = [], world = disk0\<rparr>"]
  show ?thesis by blast
qed

section \<open>untar: the path of an entry\<close>

lemma untar_entry_file_calls:
  assumes "\<not> FileInfo_IsDir hdr" and "untar_entry os dst src True hdr data st = (None, st')"
  shows "calls (world st') = calls (world st)
           @ [Stat (filepath_Dir (filepath_Join [dst, Name hdr]))]
           @ file_calls (filepath_Join [dst, Name hdr]) hdr data
       \<or> calls (world st') = calls (world st)
           @ [Stat (filepath_Dir (filepath_Join [dst, Name hdr])),
              MkdirAll (filepath_Dir (filepath_Join [dst, Name hdr])) 493]
           @ file_calls (filepath_Join [dst, Name hdr]) hdr data"
proof -
  let ?path = "filepath_Join [dst, Name hdr]"
  obtain r w1 where e: "ensure_parent os (filepath_Dir ?path) (world st) = (r, w1)"
    by (cases "ensure_parent os (filepath_Dir ?path) (world st)")
  obtain r2 w2 where wf: "write_file os ?path hdr data w1 = (r2, w2)"
    by (cases "write_file os ?path hdr data w1")
  from assms e wf have ok: "r = None" "r2 = None" "st' = st\<lparr>doneFlag := True, world := w2\<rparr>"
    by (auto simp: untar_entry_file split: option.splits if_splits)
  from wf ok have "calls w2 = calls w1 @ file_calls ?path hdr data"
    using write_file_ok by blast
  with ensure_parent_calls [OF e] ok show ?thesis by auto
qed

text \<open>
  C9. In directory mode the path of an entry on disk is \<open>filepath.Join(dst, hdr.Name)\<close>
  for every name: a directory entry is made at that path, and a file entry that is
  processed without an error is created, written, and given its mode and times at
  that path, after a look at the directory of the path. Nothing compares the path
  with the destination. There is an archive, of one file named \<open>../e\<close>, whose
  extraction to \<open>/d\<close> succeeds and creates the file \<open>/e\<close>, which is not within \<open>/d\<close>.
\<close>

theorem C9_entry_path_is_plain_join:
  "(dir_entry hdr \<longrightarrow>
      calls (world (snd (untar_entry os dst src True hdr data st))) =
        calls (world st) @ [MkdirAll (filepath_Join [dst, Name hdr]) 493])
   \<and> (file_entry hdr \<and> untar_entry os dst src True hdr data st = (None, st') \<longrightarrow>
        calls (world st') = calls (world st)
            @ [Stat (filepath_Dir (filepath_Join [dst, Name hdr]))]
            @ file_calls (filepath_Join [dst, Name hdr]) hdr data
        \<or> calls (world st') = calls (world st)
            @ [Stat (filepath_Dir (filepath_Join [dst, Name hdr])),
               MkdirAll (filepath_Dir (filepath_Join [dst, Name hdr])) 493]
            @ file_calls (filepath_Join [dst, Name hdr]) hdr data)
   \<and> (\<exists>items p. fst (untar posix items ''/d'' ''x.tar'' True disk0) = None
         \<and> Create p \<in> set (calls (snd (untar posix items ''/d'' ''x.tar'' True disk0)))
         \<and> is_file (nodes (fst (snd (untar posix items ''/d'' ''x.tar'' True disk0))) p)
         \<and> nodes (fst disk0) p = None
         \<and> \<not> within ''/d'' p)"
proof (intro conjI impI)
  {
    assume "dir_entry hdr"
    then have "FileInfo_IsDir hdr" by (simp add: dir_entry_def)
    then show "calls (world (snd (untar_entry os dst src True hdr data st))) =
        calls (world st) @ [MkdirAll (filepath_Join [dst, Name hdr]) 493]"
      by (auto simp: untar_entry_dir split: prod.splits option.splits dest!: sys_eq)
  }
  {
    assume a: "file_entry hdr \<and> untar_entry os dst src True hdr data st = (None, st')"
    then have "\<not> FileInfo_IsDir hdr" by (simp add: file_entry_def)
    from untar_entry_file_calls [OF this] a
    show "calls (world st') = calls (world st)
            @ [Stat (filepath_Dir (filepath_Join [dst, Name hdr]))]
            @ file_calls (filepath_Join [dst, Name hdr]) hdr data
        \<or> calls (world st') = calls (world st)
            @ [Stat (filepath_Dir (filepath_Join [dst, Name hdr])),
               MkdirAll (filepath_Dir (filepath_Join [dst, Name hdr])) 493]
            @ file_calls (filepath_Join [dst, Name hdr]) hdr data"
      by blast
  }
  have "fst (untar posix [Entry file_up ''x''] ''/d'' ''x.tar'' True disk0) = None
         \<and> Create ''/e'' \<in> set (calls (snd (untar posix [Entry file_up ''x''] ''/d'' ''x.tar'' True disk0)))
         \<and> is_file (nodes (fst (snd (untar posix [Entry file_up ''x''] ''/d'' ''x.tar'' True disk0))) ''/e'')
         \<and> nodes (fst disk0) ''/e'' = None
         \<and> \<not> within ''/d'' ''/e''"
    by code_simp
  then show "\<exists>items p. fst (untar posix items ''/d'' ''x.tar'' True disk0) = None
         \<and> Create p \<in> set (calls (snd (untar posix items ''/d'' ''x.tar'' True disk0)))
         \<and> is_file (nodes (fst (snd (untar posix items ''/d'' ''x.tar'' True disk0))) p)
         \<and> nodes (fst disk0) p = None
         \<and> \<not> within ''/d'' p"
    by blast
qed

theorem C9_entry_path_is_plain_join_witness:
  "filepath_Join [''/d'', Name file_up] = ''/e''
   \<and> calls (snd (untar posix [Entry file_up ''x''] ''/d'' ''x.tar'' True disk0)) =
       [Stat ''/'', Create ''/e'', Copy ''/e'' ''x'', Chmod ''/e'' 420, Chtimes ''/e'' 41 42]
   \<and> calls (world (snd (untar_entry posix ''/d'' ''x.tar'' True dir_a []
        \<lparr>doneFlag = False, dirHdrs = [], world = disk0\<rparr>))) = [MkdirAll ''/d/a'' 493]"
proof -
  have d: "dir_entry dir_a" by code_simp
  have j: "filepath_Join [''/d'', Name file_up] = ''/e''"
    and c: "calls (snd (untar posix [Entry file_up ''x''] ''/d'' ''x.tar'' True disk0)) =
       [Stat ''/'', Create ''/e'', Copy ''/e'' ''x'', Chmod ''/e'' 420, Chtimes ''/e'' 41 42]"
    and k: "calls disk0 = []" and n: "filepath_Join [''/d'', Name dir_a] = ''/d/a''"
    by code_simp+
  from C9_entry_path_is_plain_join [where hdr = dir_a and os = posix and dst = "''/d''"
      and src = "''x.tar''" and data = "[]"
      and st = "\<lparr>doneFlag = False, dirHdrs = [], world = disk0\<rparr>"] d j c k n
  show ?thesis by simp
qed

section \<open>The reference file system: what a call leaves alone\<close>

lemma touch_file:
  "is_file (nodes fs p) \<Longrightarrow> nodes (touch q fs) p = nodes fs p"
  by (auto simp: touch_def split: option.splits node.splits)

lemma add_entry_file:
  assumes "is_file (nodes fs p)" and "p \<noteq> q"
  shows "nodes (snd (add_entry q n fs)) p = nodes fs p"
proof -
  let ?fs1 = "fs\<lparr>nodes := (nodes fs)(q \<mapsto> n)\<rparr>"
  have "is_file (nodes ?fs1 p)" using assms by simp
  from touch_file [OF this, of "filepath_Dir q"] assms show ?thesis
    by (simp add: add_entry_def split: option.splits node.splits)
qed

lemma mkdir_all_file:
  "is_file (nodes fs p) \<Longrightarrow> nodes (snd (mkdir_all chain perm fs)) p = nodes fs p"
proof (induction chain)
  case Nil
  then show ?case by simp
next
  case (Cons q chain)
  show ?case
  proof (cases "nodes fs q")
    case (Some n)
    then show ?thesis by (cases n) simp_all
  next
    case None
    obtain r fs1 where m: "mkdir_all chain perm fs = (r, fs1)"
      by (cases "mkdir_all chain perm fs")
    with Cons have k: "nodes fs1 p = nodes fs p" by simp
    show ?thesis
    proof (cases r)
      case (Some e)
      with None m k show ?thesis by simp
    next
      case ok: None
      from None Cons.prems have "p \<noteq> q" by auto
      moreover from k Cons.prems have "is_file (nodes fs1 p)" by simp
      ultimately have "nodes (snd (add_entry q (DirNode perm (now fs1) (now fs1)) fs1)) p = nodes fs1 p"
        by (rule add_entry_file [rotated])
      with None m ok k show ?thesis by simp
    qed
  qed
qed

lemma posix_file_frame:
  assumes "is_file (nodes fs p)" and "writes_to c \<noteq> Some p"
  shows "nodes (snd (posix c fs)) p = nodes fs p"
proof (cases c)
  case (MkdirAll q m)
  with assms show ?thesis by (simp only: posix.simps mkdir_all_file)
next
  case (Create q)
  with assms add_entry_file [OF assms(1), of "filepath_Clean q" "FileNode [] 438 (now fs) (now fs)"]
  show ?thesis
    by (auto split: option.splits node.splits)
qed (use assms in \<open>auto simp: update_node_def split: option.splits node.splits\<close>)

lemma sys_posix_frame:
  assumes "is_file (nodes (fst w) p)" and "writes_to c \<noteq> Some p"
  shows "nodes (fst (snd (sys posix c w))) p = nodes (fst w) p"
  using posix_file_frame [OF assms] by (auto simp: sys_def split: prod.splits)

lemma ensure_parent_frame:
  assumes "is_file (nodes (fst w) p)"
  shows "nodes (fst (snd (ensure_parent posix q w))) p = nodes (fst w) p"
proof -
  obtain r w1 where s: "sys posix (Stat q) w = (r, w1)"
    by (cases "sys posix (Stat q) w")
  from sys_posix_frame [OF assms, of "Stat q"] s
  have k: "nodes (fst w1) p = nodes (fst w) p" by simp
  with assms have "is_file (nodes (fst w1) p)" by simp
  from sys_posix_frame [OF this, of "MkdirAll q 493"] k s show ?thesis
    by (simp add: ensure_parent_def)
qed

lemma write_file_frame:
  assumes "is_file (nodes (fst w) p)" and "filepath_Clean path \<noteq> p"
  shows "nodes (fst (snd (write_file posix path hdr data w))) p = nodes (fst w) p"
proof -
  obtain r1 w1 where s1: "sys posix (Create path) w = (r1, w1)"
    by (cases "sys posix (Create path) w")
  obtain r2 w2 where s2: "sys posix (Copy path data) w1 = (r2, w2)"
    by (cases "sys posix (Copy path data) w1")
  obtain r3 w3 where s3: "sys posix (Chmod path (FileInfo_Mode hdr)) w2 = (r3, w3)"
    by (cases "sys posix (Chmod path (FileInfo_Mode hdr)) w2")
  obtain r4 w4 where s4: "sys posix (Chtimes path (AccessTime hdr) (ModTime hdr)) w3 = (r4, w4)"
    by (cases "sys posix (Chtimes path (AccessTime hdr) (ModTime hdr)) w3")
  from sys_posix_frame [OF assms(1), of "Create path"] assms(2) s1
  have k1: "nodes (fst w1) p = nodes (fst w) p" by simp
  with assms have f1: "is_file (nodes (fst w1) p)" by simp
  from sys_posix_frame [OF f1, of "Copy path data"] assms(2) s2
  have k2: "nodes (fst w2) p = nodes (fst w1) p" by simp
  with f1 have f2: "is_file (nodes (fst w2) p)" by simp
  from sys_posix_frame [OF f2, of "Chmod path (FileInfo_Mode hdr)"] assms(2) s3
  have k3: "nodes (fst w3) p = nodes (fst w2) p" by simp
  with f2 have f3: "is_file (nodes (fst w3) p)" by simp
  from sys_posix_frame [OF f3, of "Chtimes path (AccessTime hdr) (ModTime hdr)"] assms(2) s4
  have k4: "nodes (fst w4) p = nodes (fst w3) p" by simp
  from s1 s2 s3 s4 k1 k2 k3 k4 show ?thesis
    by (simp add: write_file_def split: option.splits)
qed

text \<open>A file stays as it is while entries of other paths are processed.\<close>

lemma untar_entry_frame:
  assumes "is_file (nodes (fst (world st)) p)" and "disk_path dst hdr \<noteq> p"
  shows "nodes (fst (world (snd (untar_entry posix dst src True hdr data st)))) p =
         nodes (fst (world st)) p"
proof (cases "FileInfo_IsDir hdr")
  case True
  obtain r w1 where s: "sys posix (MkdirAll (filepath_Join [dst, Name hdr]) 493) (world st) = (r, w1)"
    by (cases "sys posix (MkdirAll (filepath_Join [dst, Name hdr]) 493) (world st)")
  from sys_posix_frame [OF assms(1), of "MkdirAll (filepath_Join [dst, Name hdr]) 493"] True s
  show ?thesis
    by (cases r) (simp_all add: untar_entry_dir)
next
  case False
  let ?path = "filepath_Join [dst, Name hdr]"
  obtain r1 w1 where e: "ensure_parent posix (filepath_Dir ?path) (world st) = (r1, w1)"
    by (cases "ensure_parent posix (filepath_Dir ?path) (world st)")
  from ensure_parent_frame [OF assms(1), of "filepath_Dir ?path"] e
  have k1: "nodes (fst w1) p = nodes (fst (world st)) p" by simp
  with assms have "is_file (nodes (fst w1) p)" by simp
  from write_file_frame [OF this, of ?path hdr data] assms(2)
  have "nodes (fst (snd (write_file posix ?path hdr data w1))) p = nodes (fst w1) p"
    by (simp add: disk_path_def)
  with k1 e False show ?thesis
    by (auto simp: untar_entry_file split: prod.splits option.splits)
qed

lemma untar_loop_frame:
  "is_file (nodes (fst (world st)) p) \<Longrightarrow>
   (\<forall>hdr \<in> set (entries items). disk_path dst hdr \<noteq> p) \<Longrightarrow>
   nodes (fst (world (snd (untar_loop posix dst src True items st)))) p = nodes (fst (world st)) p"
proof (induction items arbitrary: st)
  case Nil
  then show ?case by simp
next
  case (Cons it items)
  show ?case
  proof (cases it)
    case (ReadErr e)
    then show ?thesis by simp
  next
    case (Entry hdr data)
    show ?thesis
    proof (cases "is_xheader hdr")
      case True
      with Cons Entry show ?thesis
        by (simp add: is_xheader_def entries_def)
    next
      case False
      obtain r st1 where e: "untar_entry posix dst src True hdr data st = (r, st1)"
        by (cases "untar_entry posix dst src True hdr data st")
      from Cons.prems(2) Entry False have d: "disk_path dst hdr \<noteq> p"
        and rest: "\<forall>hdr \<in> set (entries items). disk_path dst hdr \<noteq> p"
        by (simp_all add: entries_def)
      from untar_entry_frame [OF Cons.prems(1) d, of src data] e
      have k: "nodes (fst (world st1)) p = nodes (fst (world st)) p" by simp
      with Cons.prems(1) have "is_file (nodes (fst (world st1)) p)" by simp
      from Cons.IH [OF this rest] k e False Entry show ?thesis
        by (simp add: is_xheader_def split: option.splits)
    qed
  qed
qed

text \<open>The times of the directories are set on their own paths only.\<close>

lemma node_times_set_times: "node_times (Some (set_times a t n)) = Some (a, t)"
  by (cases n) simp_all

lemma chtimes_posix:
  "sys posix (Chtimes q a t) w = (r, w') \<Longrightarrow>
   (filepath_Clean q \<noteq> p \<longrightarrow> nodes (fst w') p = nodes (fst w) p)
   \<and> (r = None \<longrightarrow> node_times (nodes (fst w') (filepath_Clean q)) = Some (a, t))"
  by (auto simp: sys_def update_node_def node_times_set_times split: option.splits prod.splits)

lemma apply_dirHdrs_frame:
  "(\<forall>hdr \<in> set hs. disk_path dst hdr \<noteq> p) \<Longrightarrow>
   nodes (fst (snd (apply_dirHdrs posix dst hs w))) p = nodes (fst w) p"
proof (induction hs arbitrary: w)
  case Nil
  then show ?case by simp
next
  case (Cons h hs)
  obtain r w1 where s: "sys posix (Chtimes (filepath_Join [dst, Name h]) (AccessTime h) (ModTime h)) w = (r, w1)"
    by (cases "sys posix (Chtimes (filepath_Join [dst, Name h]) (AccessTime h) (ModTime h)) w")
  from chtimes_posix [OF s, of p] Cons.prems have "nodes (fst w1) p = nodes (fst w) p"
    by (simp add: disk_path_def)
  with Cons.IH [of w1] Cons.prems s show ?case
    by (simp split: option.splits)
qed

lemma apply_dirHdrs_times:
  "apply_dirHdrs posix dst (xs @ hdr # ys) w = (None, w') \<Longrightarrow>
   (\<forall>h \<in> set ys. disk_path dst h \<noteq> disk_path dst hdr) \<Longrightarrow>
   node_times (nodes (fst w') (disk_path dst hdr)) = Some (AccessTime hdr, ModTime hdr)"
proof (induction xs arbitrary: w)
  case Nil
  obtain r w1 where s: "sys posix (Chtimes (filepath_Join [dst, Name hdr]) (AccessTime hdr) (ModTime hdr)) w = (r, w1)"
    by (cases "sys posix (Chtimes (filepath_Join [dst, Name hdr]) (AccessTime hdr) (ModTime hdr)) w")
  with Nil.prems(1) have r: "r = None" and a: "apply_dirHdrs posix dst ys w1 = (None, w')"
    by (auto split: option.splits)
  from chtimes_posix [OF s] r
  have "node_times (nodes (fst w1) (disk_path dst hdr)) = Some (AccessTime hdr, ModTime hdr)"
    by (simp add: disk_path_def)
  with apply_dirHdrs_frame [OF Nil.prems(2), of w1] a show ?case by simp
next
  case (Cons x xs)
  obtain r w1 where s: "sys posix (Chtimes (filepath_Join [dst, Name x]) (AccessTime x) (ModTime x)) w = (r, w1)"
    by (cases "sys posix (Chtimes (filepath_Join [dst, Name x]) (AccessTime x) (ModTime x)) w")
  with Cons.prems(1) have "apply_dirHdrs posix dst (xs @ hdr # ys) w1 = (None, w')"
    by (auto split: option.splits)
  from Cons.IH [OF this Cons.prems(2)] show ?case .
qed

text \<open>A file entry that is written without an error is a file with its recorded content, mode and times.\<close>

lemma add_entry_new_file:
  "add_entry q (FileNode c m a t) fs = (None, fs1) \<Longrightarrow> nodes fs1 q = Some (FileNode c m a t)"
proof -
  let ?fs0 = "fs\<lparr>nodes := (nodes fs)(q \<mapsto> FileNode c m a t)\<rparr>"
  assume a: "add_entry q (FileNode c m a t) fs = (None, fs1)"
  have "is_file (nodes ?fs0 q)" by simp
  from touch_file [OF this, of "filepath_Dir q"] a show ?thesis
    by (auto simp: add_entry_def split: option.splits node.splits)
qed

lemma create_posix:
  assumes "sys posix (Create q) w = (None, w1)"
  shows "\<exists>m a t. nodes (fst w1) (filepath_Clean q) = Some (FileNode [] m a t)"
proof (cases "nodes (fst w) (filepath_Clean q)")
  case None
  with assms have "add_entry (filepath_Clean q) (FileNode [] 438 (now (fst w)) (now (fst w))) (fst w)
      = (None, fst w1)"
    by (auto simp: sys_def split: prod.splits)
  from add_entry_new_file [OF this] show ?thesis by blast
next
  case (Some n)
  with assms show ?thesis
    by (cases n) (auto simp: sys_def split: prod.splits)
qed

lemma copy_posix:
  assumes "sys posix (Copy q data) w = (None, w1)"
    and "nodes (fst w) (filepath_Clean q) = Some (FileNode c m a t)"
  shows "\<exists>t1. nodes (fst w1) (filepath_Clean q) = Some (FileNode data m a t1)"
  using assms by (auto simp: sys_def split: prod.splits)

lemma chmod_posix:
  assumes "sys posix (Chmod q m) w = (None, w1)"
    and "nodes (fst w) (filepath_Clean q) = Some (FileNode c m0 a t)"
  shows "nodes (fst w1) (filepath_Clean q) = Some (FileNode c m a t)"
  using assms by (auto simp: sys_def update_node_def split: prod.splits)

lemma chtimes_file_posix:
  assumes "sys posix (Chtimes q a t) w = (None, w1)"
    and "nodes (fst w) (filepath_Clean q) = Some (FileNode c m a0 t0)"
  shows "nodes (fst w1) (filepath_Clean q) = Some (FileNode c m a t)"
  using assms by (auto simp: sys_def update_node_def split: prod.splits)

lemma write_file_written:
  assumes "write_file posix path hdr data w = (None, w')"
  shows "nodes (fst w') (filepath_Clean path) =
     Some (FileNode data (FileInfo_Mode hdr) (AccessTime hdr) (ModTime hdr))"
proof -
  obtain r1 w1 where s1: "sys posix (Create path) w = (r1, w1)"
    by (cases "sys posix (Create path) w")
  obtain r2 w2 where s2: "sys posix (Copy path data) w1 = (r2, w2)"
    by (cases "sys posix (Copy path data) w1")
  obtain r3 w3 where s3: "sys posix (Chmod path (FileInfo_Mode hdr)) w2 = (r3, w3)"
    by (cases "sys posix (Chmod path (FileInfo_Mode hdr)) w2")
  from assms s1 s2 s3 have ok: "r1 = None" "r2 = None" "r3 = None"
    and s4: "sys posix (Chtimes path (AccessTime hdr) (ModTime hdr)) w3 = (None, w')"
    by (auto simp: write_file_def split: option.splits)
  from create_posix s1 ok obtain m a t where
    "nodes (fst w1) (filepath_Clean path) = Some (FileNode [] m a t)" by blast
  from copy_posix [OF _ this] s2 ok obtain t1 where
    "nodes (fst w2) (filepath_Clean path) = Some (FileNode data m a t1)" by blast
  from chmod_posix [OF _ this] s3 ok have
    "nodes (fst w3) (filepath_Clean path) = Some (FileNode data (FileInfo_Mode hdr) a t1)" by blast
  from chtimes_file_posix [OF s4 this] show ?thesis .
qed

lemma untar_entry_written:
  assumes "\<not> FileInfo_IsDir hdr" and "untar_entry posix dst src True hdr data st = (None, st')"
  shows "nodes (fst (world st')) (disk_path dst hdr) =
     Some (FileNode data (FileInfo_Mode hdr) (AccessTime hdr) (ModTime hdr))"
proof -
  let ?path = "filepath_Join [dst, Name hdr]"
  obtain r w1 where e: "ensure_parent posix (filepath_Dir ?path) (world st) = (r, w1)"
    by (cases "ensure_parent posix (filepath_Dir ?path) (world st)")
  obtain r2 w2 where wf: "write_file posix ?path hdr data w1 = (r2, w2)"
    by (cases "write_file posix ?path hdr data w1")
  from assms e wf have "r2 = None" and "world st' = w2"
    by (auto simp: untar_entry_file split: option.splits if_splits)
  with write_file_written [of ?path hdr data w1 w2] wf show ?thesis
    by (simp add: disk_path_def)
qed

text \<open>
  A directory that is there already is accepted as it is: \<open>os.MkdirAll\<close> on it makes
  no change and no error.
\<close>

lemma mkdir_all_existing:
  "is_dir (nodes fs (filepath_Clean p)) \<Longrightarrow> posix (MkdirAll p m) fs = (None, fs)"
  by (cases "nodes fs (filepath_Clean p)" rule: is_dir.cases) simp_all

lemma untar_entry_existing_dir:
  assumes "dir_entry hdr" and "is_dir (nodes (fst (world st)) (disk_path dst hdr))"
  shows "untar_entry posix dst src True hdr data st =
     (None, st\<lparr>dirHdrs := dirHdrs st @ [hdr],
                world := (fst (world st),
                          snd (world st) @ [MkdirAll (filepath_Join [dst, Name hdr]) 493])\<rparr>)"
proof -
  from assms(1) have "FileInfo_IsDir hdr" by (simp add: dir_entry_def)
  moreover from assms(2) have "posix (MkdirAll (filepath_Join [dst, Name hdr]) 493) (fst (world st))
      = (None, fst (world st))"
    by (intro mkdir_all_existing) (simp add: disk_path_def)
  ultimately show ?thesis
    by (simp add: untar_entry_dir sys_def)
qed

section \<open>untar: the times of files and directories after the extraction\<close>

lemma headers_append: "headers (xs @ ys) = headers xs @ headers ys"
  by (induction xs rule: headers.induct) simp_all

lemma entries_append: "entries (xs @ ys) = entries xs @ entries ys"
  by (simp add: entries_def headers_append)

lemma dir_entries_subset: "set (filter dir_entry (headers items)) \<subseteq> set (entries items)"
  by (auto simp: entries_def dir_entry_def)

lemma file_kept_to_end:
  "untar_loop posix dst src True (pre @ Entry hdr data # rest) st = (None, st') \<Longrightarrow>
   file_entry hdr \<Longrightarrow>
   (\<forall>h \<in> set (entries rest). disk_path dst h \<noteq> disk_path dst hdr) \<Longrightarrow>
   nodes (fst (world st')) (disk_path dst hdr) =
     Some (FileNode data (FileInfo_Mode hdr) (AccessTime hdr) (ModTime hdr))"
proof (induction pre arbitrary: st)
  case Nil
  from Nil.prems(2) have nx: "\<not> is_xheader hdr" and nd: "\<not> FileInfo_IsDir hdr"
    by (simp_all add: file_entry_def)
  obtain r st1 where e: "untar_entry posix dst src True hdr data st = (r, st1)"
    by (cases "untar_entry posix dst src True hdr data st")
  with Nil.prems(1) nx have r: "r = None"
    and l: "untar_loop posix dst src True rest st1 = (None, st')"
    by (auto simp: is_xheader_def split: option.splits)
  from untar_entry_written [OF nd] e r
  have w: "nodes (fst (world st1)) (disk_path dst hdr) =
     Some (FileNode data (FileInfo_Mode hdr) (AccessTime hdr) (ModTime hdr))"
    by simp
  then have "is_file (nodes (fst (world st1)) (disk_path dst hdr))" by simp
  from untar_loop_frame [OF this Nil.prems(3), of src] l w show ?case by simp
next
  case (Cons it pre)
  show ?case
  proof (cases it)
    case (ReadErr e)
    with Cons.prems(1) show ?thesis by simp
  next
    case (Entry h d)
    show ?thesis
    proof (cases "is_xheader h")
      case True
      with Cons.prems(1) Entry
      have "untar_loop posix dst src True (pre @ Entry hdr data # rest) st = (None, st')"
        by (simp add: is_xheader_def)
      from Cons.IH [OF this Cons.prems(2,3)] show ?thesis .
    next
      case False
      obtain r st1 where e: "untar_entry posix dst src True h d st = (r, st1)"
        by (cases "untar_entry posix dst src True h d st")
      with Cons.prems(1) Entry False
      have "untar_loop posix dst src True (pre @ Entry hdr data # rest) st1 = (None, st')"
        by (auto simp: is_xheader_def split: option.splits)
      from Cons.IH [OF this Cons.prems(2,3)] show ?thesis .
    qed
  qed
qed

text \<open>
  After an extraction in directory mode that succeeds on the reference file system, an
  entry whose path on disk is the path of no other entry has its recorded times.
\<close>

lemma entry_times_after_untar:
  assumes ok: "untar posix items dst src True w = (None, w')"
    and items: "items = pre @ Entry hdr data # rest"
    and nx: "\<not> is_xheader hdr"
    and others: "\<forall>h \<in> set (entries pre @ entries rest). disk_path dst h \<noteq> disk_path dst hdr"
  shows "node_times (nodes (fst w') (disk_path dst hdr)) = Some (AccessTime hdr, ModTime hdr)"
proof -
  let ?st0 = "\<lparr>doneFlag = False, dirHdrs = [], world = w\<rparr>"
  obtain r st1 where l: "untar_loop posix dst src True items ?st0 = (r, st1)"
    by (cases "untar_loop posix dst src True items ?st0")
  with ok have r: "r = None" and a: "apply_dirHdrs posix dst (dirHdrs st1) (world st1) = (None, w')"
    by (auto simp: untar_def split: option.splits)
  from untar_loop_ok [of posix dst src items ?st0 st1] l r
  have dh: "dirHdrs st1 = filter dir_entry (headers items)" by simp
  show ?thesis
  proof (cases "FileInfo_IsDir hdr")
    case True
    with nx have "dir_entry hdr" by (simp add: dir_entry_def)
    then have "dirHdrs st1 = filter dir_entry (headers pre) @ hdr # filter dir_entry (headers rest)"
      using dh items by (simp add: headers_append)
    moreover have "\<forall>h \<in> set (filter dir_entry (headers rest)). disk_path dst h \<noteq> disk_path dst hdr"
      using others dir_entries_subset [of rest] by auto
    ultimately show ?thesis
      using apply_dirHdrs_times [of dst "filter dir_entry (headers pre)" hdr
          "filter dir_entry (headers rest)" "world st1" w'] a
      by simp
  next
    case False
    with nx have f: "file_entry hdr" by (simp add: file_entry_def)
    then have nd: "\<not> dir_entry hdr" by (simp add: file_entry_def dir_entry_def)
    have "\<forall>h \<in> set (entries rest). disk_path dst h \<noteq> disk_path dst hdr"
      using others by simp
    from file_kept_to_end [OF _ f this, where src = src and pre = pre and data = data
        and st = ?st0 and st' = st1] l r items
    have k: "nodes (fst (world st1)) (disk_path dst hdr) =
       Some (FileNode data (FileInfo_Mode hdr) (AccessTime hdr) (ModTime hdr))"
      by simp
    have "\<forall>h \<in> set (dirHdrs st1). disk_path dst h \<noteq> disk_path dst hdr"
      using others dir_entries_subset [of pre] dir_entries_subset [of rest] nd dh items
      by (auto simp: headers_append)
    from apply_dirHdrs_frame [OF this, where w = "world st1"] a k show ?thesis
      by simp
  qed
qed

section \<open>The reference file system: a file listed before its directory\<close>

lemma ancestors_head: "ancestors p = [] \<or> hd (ancestors p) = filepath_Dir p"
  by (cases "length p") (simp_all add: ancestors_def)

lemma mkdir_all_parent_exists:
  assumes "is_dir (nodes fs (filepath_Dir q))"
  shows "mkdir_all (ancestors q) perm fs = (None, fs)"
proof (cases "ancestors q")
  case Nil
  then show ?thesis by simp
next
  case (Cons a as)
  with ancestors_head [of q] have "a = filepath_Dir q" by simp
  with assms Cons show ?thesis
    by (cases "nodes fs (filepath_Dir q)" rule: is_dir.cases) simp_all
qed

text \<open>The making of a directory that is missing, in a directory that is there.\<close>

lemma mkdir_new:
  assumes "filepath_Clean p = q" and "nodes fs q = None"
    and "nodes fs (filepath_Dir q) = Some (DirNode m a t)"
  shows "sys posix (MkdirAll p perm) (fs, cs) =
     (None, (fs\<lparr>nodes := (nodes fs)(q \<mapsto> DirNode perm (now fs) (now fs),
                                    filepath_Dir q \<mapsto> DirNode m a (now fs))\<rparr>,
             cs @ [MkdirAll p perm]))"
proof -
  have "is_dir (nodes fs (filepath_Dir q))" using assms(3) by simp
  from mkdir_all_parent_exists [OF this] have "mkdir_all (ancestors q) perm fs = (None, fs)" .
  moreover have "filepath_Dir q \<noteq> q" using assms(2,3) by auto
  ultimately show ?thesis
    using assms by (simp add: sys_def add_entry_def touch_def)
qed

text \<open>The writing of a file that is missing, in a directory that is there.\<close>

lemma write_file_new:
  assumes "filepath_Clean path = k" and "nodes fs k = None"
    and "nodes fs (filepath_Dir k) = Some (DirNode m a t)"
  shows "write_file posix path hdr data (fs, cs) =
     (None, (fs\<lparr>nodes := (nodes fs)(filepath_Dir k \<mapsto> DirNode m a (now fs),
                   k \<mapsto> FileNode data (FileInfo_Mode hdr) (AccessTime hdr) (ModTime hdr))\<rparr>,
             cs @ file_calls path hdr data))"
proof -
  have ne: "filepath_Dir k \<noteq> k" using assms(2,3) by auto
  let ?n0 = "FileNode [] 438 (now fs) (now fs)"
  let ?fs1 = "fs\<lparr>nodes := (nodes fs)(k \<mapsto> ?n0, filepath_Dir k \<mapsto> DirNode m a (now fs))\<rparr>"
  have 1: "sys posix (Create path) (fs, cs) = (None, (?fs1, cs @ [Create path]))"
    using assms ne by (simp add: sys_def add_entry_def touch_def)
  let ?fs2 = "fs\<lparr>nodes := (nodes fs)(filepath_Dir k \<mapsto> DirNode m a (now fs),
      k \<mapsto> FileNode data 438 (now fs) (now fs))\<rparr>"
  have 2: "sys posix (Copy path data) (?fs1, cs @ [Create path]) =
      (None, (?fs2, cs @ [Create path, Copy path data]))"
    using assms ne by (auto simp: sys_def fun_upd_twist)
  let ?fs3 = "fs\<lparr>nodes := (nodes fs)(filepath_Dir k \<mapsto> DirNode m a (now fs),
      k \<mapsto> FileNode data (FileInfo_Mode hdr) (now fs) (now fs))\<rparr>"
  have 3: "sys posix (Chmod path (FileInfo_Mode hdr)) (?fs2, cs @ [Create path, Copy path data]) =
      (None, (?fs3, cs @ [Create path, Copy path data, Chmod path (FileInfo_Mode hdr)]))"
    using assms by (simp add: sys_def update_node_def)
  let ?fs4 = "fs\<lparr>nodes := (nodes fs)(filepath_Dir k \<mapsto> DirNode m a (now fs),
      k \<mapsto> FileNode data (FileInfo_Mode hdr) (AccessTime hdr) (ModTime hdr))\<rparr>"
  have 4: "sys posix (Chtimes path (AccessTime hdr) (ModTime hdr))
        (?fs3, cs @ [Create path, Copy path data, Chmod path (FileInfo_Mode hdr)]) =
      (None, (?fs4, cs @ file_calls path hdr data))"
    using assms by (simp add: sys_def update_node_def file_calls_def)
  show ?thesis
    by (simp add: write_file_def 1 2 3 4)
qed

text \<open>
  A file entry followed by the entry of the directory that holds it, read where the
  directory is missing and the directory above it is there: wherever the two entries
  stand in the archive, neither fails. The directory is made for the file, the file is
  written with its recorded times, the entry of the directory finds the directory and
  is recorded, and the loop goes on. The directory then has the time of the
  extraction.
\<close>

lemma file_then_directory:
  assumes dst: "dst \<noteq> []" and f: "file_entry f" and d: "dir_entry d"
    and pf: "pf = filepath_Join [dst, Name f]" and pd: "pd = filepath_Join [dst, Name d]"
    and holds: "filepath_Dir pf = pd" and differ: "pf \<noteq> pd"
    and w: "world st = (fs, cs)"
    and nd: "nodes fs pd = None" and nf: "nodes fs pf = None"
    and up: "is_dir (nodes fs (filepath_Dir pd))"
  shows "\<exists>fs2. untar_loop posix dst src True (Entry f data # Entry d data2 # rest) st =
           untar_loop posix dst src True rest
             (st\<lparr>doneFlag := True, dirHdrs := dirHdrs st @ [d],
                 world := (fs2, cs @ [Stat pd, MkdirAll pd 493] @ file_calls pf f data
                                   @ [MkdirAll pd 493])\<rparr>)
         \<and> nodes fs2 pf = Some (FileNode data (FileInfo_Mode f) (AccessTime f) (ModTime f))
         \<and> nodes fs2 pd = Some (DirNode 493 (now fs) (now fs))"
proof -
  from f have nxf: "\<not> (Typeflag f = TypeXGlobalHeader \<or> Typeflag f = TypeXHeader)"
    and ndf: "\<not> FileInfo_IsDir f"
    by (simp_all add: file_entry_def is_xheader_def)
  from d have nxd: "\<not> (Typeflag d = TypeXGlobalHeader \<or> Typeflag d = TypeXHeader)"
    by (simp add: dir_entry_def is_xheader_def)
  have cpf: "filepath_Clean pf = pf" and cpd: "filepath_Clean pd = pd"
    using dst by (simp_all add: pf pd filepath_Join_clean)
  from up obtain m a t where pdd: "nodes fs (filepath_Dir pd) = Some (DirNode m a t)"
    by (cases "nodes fs (filepath_Dir pd)" rule: is_dir.cases) auto
  with nd nf have ne: "filepath_Dir pd \<noteq> pd" "filepath_Dir pd \<noteq> pf" by auto
  \<comment> \<open>the directory of the file is looked for, and made\<close>
  let ?fs1 = "fs\<lparr>nodes := (nodes fs)(pd \<mapsto> DirNode 493 (now fs) (now fs),
      filepath_Dir pd \<mapsto> DirNode m a (now fs))\<rparr>"
  have "sys posix (Stat pd) (fs, cs) = (Some ENOENT, (fs, cs @ [Stat pd]))"
    using nd cpd by (simp add: sys_def)
  moreover have "sys posix (MkdirAll pd 493) (fs, cs @ [Stat pd]) =
      (None, (?fs1, cs @ [Stat pd, MkdirAll pd 493]))"
    using mkdir_new [OF cpd nd pdd, of 493 "cs @ [Stat pd]"] by simp
  ultimately have ep: "ensure_parent posix pd (fs, cs) = (None, (?fs1, cs @ [Stat pd, MkdirAll pd 493]))"
    by (simp add: ensure_parent_def os_IsNotExist_def)
  \<comment> \<open>the file is written\<close>
  have nf1: "nodes ?fs1 pf = None" using nf ne differ by simp
  have nd1: "nodes ?fs1 (filepath_Dir pf) = Some (DirNode 493 (now fs) (now fs))"
    using ne holds by simp
  let ?fs2 = "?fs1\<lparr>nodes := (nodes ?fs1)(filepath_Dir pf \<mapsto> DirNode 493 (now fs) (now ?fs1),
      pf \<mapsto> FileNode data (FileInfo_Mode f) (AccessTime f) (ModTime f))\<rparr>"
  let ?cs2 = "(cs @ [Stat pd, MkdirAll pd 493]) @ file_calls pf f data"
  have wf: "write_file posix pf f data (?fs1, cs @ [Stat pd, MkdirAll pd 493]) = (None, (?fs2, ?cs2))"
    by (rule write_file_new [OF cpf nf1 nd1])
  let ?st1 = "st\<lparr>doneFlag := True, world := (?fs2, ?cs2)\<rparr>"
  have e1: "untar_entry posix dst src True f data st = (None, ?st1)"
    using ep wf holds w by (simp add: untar_entry_file [OF ndf] pf [symmetric])
  \<comment> \<open>the directory entry finds its directory\<close>
  have k2: "nodes ?fs2 pd = Some (DirNode 493 (now fs) (now fs))"
    and f2: "nodes ?fs2 pf = Some (FileNode data (FileInfo_Mode f) (AccessTime f) (ModTime f))"
    using holds differ by simp_all
  have "is_dir (nodes (fst (world ?st1)) (disk_path dst d))"
    using k2 cpd by (simp add: disk_path_def pd [symmetric])
  from untar_entry_existing_dir [OF d this, of src data2]
  have e2: "untar_entry posix dst src True d data2 ?st1 =
      (None, st\<lparr>doneFlag := True, dirHdrs := dirHdrs st @ [d],
                 world := (?fs2, ?cs2 @ [MkdirAll pd 493])\<rparr>)"
    by (simp add: pd [symmetric])
  have "untar_loop posix dst src True (Entry f data # Entry d data2 # rest) st =
      untar_loop posix dst src True rest
        (st\<lparr>doneFlag := True, dirHdrs := dirHdrs st @ [d],
            world := (?fs2, cs @ [Stat pd, MkdirAll pd 493] @ file_calls pf f data
                              @ [MkdirAll pd 493])\<rparr>)"
    using nxf nxd e1 e2 by simp
  with k2 f2 show ?thesis by blast
qed

text \<open>
  The archive of these two entries alone: the extraction succeeds, and when \<open>untar\<close>
  returns the directory has the times of its header, as the file has.
\<close>

lemma file_before_directory:
  assumes dst: "dst \<noteq> []" and f: "file_entry f" and d: "dir_entry d"
    and pf: "pf = filepath_Join [dst, Name f]" and pd: "pd = filepath_Join [dst, Name d]"
    and holds: "filepath_Dir pf = pd" and differ: "pf \<noteq> pd"
    and nd: "nodes fs pd = None" and nf: "nodes fs pf = None"
    and up: "is_dir (nodes fs (filepath_Dir pd))"
  shows "fst (untar posix [Entry f data, Entry d data2] dst src True (fs, cs)) = None
     \<and> nodes (fst (snd (untar posix [Entry f data, Entry d data2] dst src True (fs, cs)))) pf =
          Some (FileNode data (FileInfo_Mode f) (AccessTime f) (ModTime f))
     \<and> nodes (fst (snd (untar posix [Entry f data, Entry d data2] dst src True (fs, cs)))) pd =
          Some (DirNode 493 (AccessTime d) (ModTime d))"
proof -
  let ?st0 = "\<lparr>doneFlag = False, dirHdrs = [], world = (fs, cs)\<rparr>"
  let ?cs2 = "cs @ [Stat pd, MkdirAll pd 493] @ file_calls pf f data @ [MkdirAll pd 493]"
  have "world ?st0 = (fs, cs)" by simp
  from file_then_directory [OF dst f d pf pd holds differ this nd nf up, of src data data2 "[]"]
  obtain fs2 where l: "untar_loop posix dst src True [Entry f data, Entry d data2] ?st0 =
        (None, \<lparr>doneFlag = True, dirHdrs = [d], world = (fs2, ?cs2)\<rparr>)"
    and f2: "nodes fs2 pf = Some (FileNode data (FileInfo_Mode f) (AccessTime f) (ModTime f))"
    and k2: "nodes fs2 pd = Some (DirNode 493 (now fs) (now fs))"
    by auto
  have cpd: "filepath_Clean pd = pd"
    using dst by (simp add: pd filepath_Join_clean)
  let ?fs3 = "fs2\<lparr>nodes := (nodes fs2)(pd \<mapsto> DirNode 493 (AccessTime d) (ModTime d))\<rparr>"
  have "sys posix (Chtimes pd (AccessTime d) (ModTime d)) (fs2, ?cs2) =
      (None, (?fs3, ?cs2 @ [Chtimes pd (AccessTime d) (ModTime d)]))"
    using k2 cpd by (simp add: sys_def update_node_def)
  then have u: "untar posix [Entry f data, Entry d data2] dst src True (fs, cs) =
      (None, (?fs3, ?cs2 @ [Chtimes pd (AccessTime d) (ModTime d)]))"
    using l by (simp add: untar_def pd [symmetric])
  have "nodes ?fs3 pf = Some (FileNode data (FileInfo_Mode f) (AccessTime f) (ModTime f))"
    using f2 differ by simp
  moreover have "nodes ?fs3 pd = Some (DirNode 493 (AccessTime d) (ModTime d))"
    by simp
  ultimately show ?thesis
    using u by simp
qed

section \<open>The reference file system: a directory stays a directory\<close>

lemma touch_dir:
  "is_dir (nodes fs p) \<Longrightarrow> is_dir (nodes (touch q fs) p)"
  by (auto simp: touch_def split: option.splits node.splits)

lemma touch_not_file:
  "\<not> is_file (nodes fs p) \<Longrightarrow> \<not> is_file (nodes (touch q fs) p)"
  by (auto simp: touch_def split: option.splits node.splits)

lemma add_entry_dir:
  assumes "is_dir (nodes fs p)" and "is_dir (Some n) \<or> p \<noteq> q"
  shows "is_dir (nodes (snd (add_entry q n fs)) p)"
proof -
  let ?fs1 = "fs\<lparr>nodes := (nodes fs)(q \<mapsto> n)\<rparr>"
  have "is_dir (nodes ?fs1 p)" using assms by auto
  from touch_dir [OF this, of "filepath_Dir q"] assms(1) show ?thesis
    by (simp add: add_entry_def split: option.splits node.splits)
qed

lemma add_dir_not_file:
  assumes "\<not> is_file (nodes fs p)"
  shows "\<not> is_file (nodes (snd (add_entry q (DirNode m a t) fs)) p)"
proof -
  let ?fs1 = "fs\<lparr>nodes := (nodes fs)(q \<mapsto> DirNode m a t)\<rparr>"
  have "\<not> is_file (nodes ?fs1 p)" using assms by auto
  from touch_not_file [OF this, of "filepath_Dir q"] assms show ?thesis
    by (simp add: add_entry_def split: option.splits node.splits)
qed

lemma mkdir_all_dir:
  "is_dir (nodes fs p) \<Longrightarrow> is_dir (nodes (snd (mkdir_all chain perm fs)) p)"
proof (induction chain)
  case Nil
  then show ?case by simp
next
  case (Cons q chain)
  show ?case
  proof (cases "nodes fs q")
    case (Some n)
    with Cons.prems show ?thesis by (cases n) simp_all
  next
    case None
    obtain r fs1 where m: "mkdir_all chain perm fs = (r, fs1)"
      by (cases "mkdir_all chain perm fs")
    with Cons have k: "is_dir (nodes fs1 p)" by simp
    show ?thesis
    proof (cases r)
      case (Some e)
      with None m k show ?thesis by simp
    next
      case ok: None
      have "is_dir (nodes (snd (add_entry q (DirNode perm (now fs1) (now fs1)) fs1)) p)"
        by (rule add_entry_dir [OF k]) simp
      with None m ok show ?thesis by simp
    qed
  qed
qed

lemma mkdir_all_not_file:
  "\<not> is_file (nodes fs p) \<Longrightarrow> \<not> is_file (nodes (snd (mkdir_all chain perm fs)) p)"
proof (induction chain)
  case Nil
  then show ?case by simp
next
  case (Cons q chain)
  show ?case
  proof (cases "nodes fs q")
    case (Some n)
    with Cons.prems show ?thesis by (cases n) simp_all
  next
    case None
    obtain r fs1 where m: "mkdir_all chain perm fs = (r, fs1)"
      by (cases "mkdir_all chain perm fs")
    with Cons have k: "\<not> is_file (nodes fs1 p)" by simp
    show ?thesis
    proof (cases r)
      case (Some e)
      with None m k show ?thesis by simp
    next
      case ok: None
      have "\<not> is_file (nodes (snd (add_entry q (DirNode perm (now fs1) (now fs1)) fs1)) p)"
        by (rule add_dir_not_file [OF k])
      with None m ok show ?thesis by simp
    qed
  qed
qed

lemma is_dir_set_mode: "is_dir (Some (set_mode m n)) = is_dir (Some n)"
  by (cases n) simp_all

lemma is_dir_set_times: "is_dir (Some (set_times a t n)) = is_dir (Some n)"
  by (cases n) simp_all

text \<open>No call removes a directory or puts a file in its place.\<close>

lemma posix_dir:
  assumes "is_dir (nodes fs p)"
  shows "is_dir (nodes (snd (posix c fs)) p)"
proof (cases c)
  case (MkdirAll q m)
  with assms show ?thesis by (simp only: posix.simps mkdir_all_dir)
next
  case (Create q)
  show ?thesis
  proof (cases "nodes fs (filepath_Clean q)")
    case None
    with assms have "p \<noteq> filepath_Clean q" by auto
    then have "is_dir (nodes (snd (add_entry (filepath_Clean q) (FileNode [] 438 (now fs) (now fs)) fs)) p)"
      by (intro add_entry_dir [OF assms]) simp
    with None Create show ?thesis by simp
  next
    case (Some n)
    with assms Create show ?thesis by (cases n) auto
  qed
next
  case (Copy q data)
  with assms show ?thesis
    by (auto split: option.splits node.splits)
next
  case (Chmod q m)
  with assms show ?thesis
    by (auto simp: update_node_def is_dir_set_mode split: option.splits)
next
  case (Chtimes q a t)
  with assms show ?thesis
    by (auto simp: update_node_def is_dir_set_times split: option.splits)
qed (use assms in \<open>auto split: option.splits\<close>)

lemma sys_posix_dir:
  assumes "is_dir (nodes (fst w) p)"
  shows "is_dir (nodes (fst (snd (sys posix c w))) p)"
  using posix_dir [OF assms, of c] by (auto simp: sys_def split: prod.splits)

lemma ensure_parent_dir:
  assumes "is_dir (nodes (fst w) p)"
  shows "is_dir (nodes (fst (snd (ensure_parent posix q w))) p)"
proof -
  obtain r w1 where s: "sys posix (Stat q) w = (r, w1)"
    by (cases "sys posix (Stat q) w")
  from sys_posix_dir [OF assms, of "Stat q"] s
  have k: "is_dir (nodes (fst w1) p)" by simp
  from sys_posix_dir [OF this, of "MkdirAll q 493"] k s show ?thesis
    by (simp add: ensure_parent_def)
qed

lemma write_file_dir:
  assumes "is_dir (nodes (fst w) p)"
  shows "is_dir (nodes (fst (snd (write_file posix path hdr data w))) p)"
proof -
  obtain r1 w1 where s1: "sys posix (Create path) w = (r1, w1)"
    by (cases "sys posix (Create path) w")
  obtain r2 w2 where s2: "sys posix (Copy path data) w1 = (r2, w2)"
    by (cases "sys posix (Copy path data) w1")
  obtain r3 w3 where s3: "sys posix (Chmod path (FileInfo_Mode hdr)) w2 = (r3, w3)"
    by (cases "sys posix (Chmod path (FileInfo_Mode hdr)) w2")
  obtain r4 w4 where s4: "sys posix (Chtimes path (AccessTime hdr) (ModTime hdr)) w3 = (r4, w4)"
    by (cases "sys posix (Chtimes path (AccessTime hdr) (ModTime hdr)) w3")
  from sys_posix_dir [OF assms, of "Create path"] s1
  have k1: "is_dir (nodes (fst w1) p)" by simp
  from sys_posix_dir [OF k1, of "Copy path data"] s2
  have k2: "is_dir (nodes (fst w2) p)" by simp
  from sys_posix_dir [OF k2, of "Chmod path (FileInfo_Mode hdr)"] s3
  have k3: "is_dir (nodes (fst w3) p)" by simp
  from sys_posix_dir [OF k3, of "Chtimes path (AccessTime hdr) (ModTime hdr)"] s4
  have k4: "is_dir (nodes (fst w4) p)" by simp
  from s1 s2 s3 s4 k1 k2 k3 k4 show ?thesis
    by (simp add: write_file_def split: option.splits)
qed

lemma untar_entry_dir_stays:
  assumes "is_dir (nodes (fst (world st)) p)"
  shows "is_dir (nodes (fst (world (snd (untar_entry posix dst src True hdr data st)))) p)"
proof (cases "FileInfo_IsDir hdr")
  case True
  obtain r w1 where s: "sys posix (MkdirAll (filepath_Join [dst, Name hdr]) 493) (world st) = (r, w1)"
    by (cases "sys posix (MkdirAll (filepath_Join [dst, Name hdr]) 493) (world st)")
  from sys_posix_dir [OF assms, of "MkdirAll (filepath_Join [dst, Name hdr]) 493"] True s
  show ?thesis
    by (cases r) (simp_all add: untar_entry_dir)
next
  case False
  let ?path = "filepath_Join [dst, Name hdr]"
  obtain r1 w1 where e: "ensure_parent posix (filepath_Dir ?path) (world st) = (r1, w1)"
    by (cases "ensure_parent posix (filepath_Dir ?path) (world st)")
  from ensure_parent_dir [OF assms, of "filepath_Dir ?path"] e
  have k1: "is_dir (nodes (fst w1) p)" by simp
  from write_file_dir [OF this, of ?path hdr data]
  have "is_dir (nodes (fst (snd (write_file posix ?path hdr data w1))) p)" .
  with k1 e False show ?thesis
    by (auto simp: untar_entry_file split: prod.splits option.splits)
qed

text \<open>A directory that is there stays there to the end of the loop.\<close>

lemma untar_loop_dir_stays:
  "is_dir (nodes (fst (world st)) p) \<Longrightarrow>
   is_dir (nodes (fst (world (snd (untar_loop posix dst src True items st)))) p)"
proof (induction items arbitrary: st)
  case Nil
  then show ?case by simp
next
  case (Cons it items)
  show ?case
  proof (cases it)
    case (ReadErr e)
    with Cons.prems show ?thesis by simp
  next
    case (Entry hdr data)
    show ?thesis
    proof (cases "is_xheader hdr")
      case True
      with Cons Entry show ?thesis
        by (simp add: is_xheader_def)
    next
      case False
      obtain r st1 where e: "untar_entry posix dst src True hdr data st = (r, st1)"
        by (cases "untar_entry posix dst src True hdr data st")
      from untar_entry_dir_stays [OF Cons.prems, of dst src hdr data] e
      have k: "is_dir (nodes (fst (world st1)) p)" by simp
      from Cons.IH [OF this] k e False Entry show ?thesis
        by (simp add: is_xheader_def split: option.splits)
    qed
  qed
qed

text \<open>
  A file that is made has a directory above it: \<open>os.Create\<close> makes a file in a
  directory only, and the calls before it, which make directories, put no file at its
  path.
\<close>

lemma create_in_dir:
  assumes "\<not> is_file (nodes (fst w) (filepath_Clean path))"
    and "sys posix (Create path) w = (None, w1)"
  shows "is_dir (nodes (fst w1) (filepath_Dir (filepath_Clean path)))"
proof -
  let ?p = "filepath_Clean path"
  let ?fs = "fst w"
  show ?thesis
  proof (cases "nodes ?fs ?p")
    case None
    show ?thesis
    proof (cases "nodes ?fs (filepath_Dir ?p)")
      case n: None
      with None assms(2) show ?thesis
        by (simp add: sys_def add_entry_def split: prod.splits)
    next
      case (Some n)
      show ?thesis
      proof (cases n)
        case (FileNode c m a t)
        with None Some assms(2) show ?thesis
          by (simp add: sys_def add_entry_def split: prod.splits)
      next
        case (DirNode m a t)
        with Some have "is_dir (nodes ?fs (filepath_Dir ?p))" by simp
        moreover from Some None have "filepath_Dir ?p \<noteq> ?p" by auto
        ultimately have "is_dir (nodes (snd (add_entry ?p (FileNode [] 438 (now ?fs) (now ?fs)) ?fs))
            (filepath_Dir ?p))"
          by (intro add_entry_dir) simp_all
        with None assms(2) show ?thesis
          by (auto simp: sys_def split: prod.splits)
      qed
    qed
  next
    case (Some n)
    with assms show ?thesis
      by (cases n) (auto simp: sys_def split: prod.splits)
  qed
qed

lemma ensure_parent_not_file:
  assumes "\<not> is_file (nodes (fst w) p)"
  shows "\<not> is_file (nodes (fst (snd (ensure_parent posix q w))) p)"
proof -
  have "\<not> is_file (nodes (snd (mkdir_all (filepath_Clean q # ancestors (filepath_Clean q)) 493 (fst w))) p)"
    by (rule mkdir_all_not_file [OF assms])
  then show ?thesis
    using assms
    by (auto simp: ensure_parent_def sys_def split: prod.splits option.splits)
qed

lemma write_file_in_dir:
  assumes "\<not> is_file (nodes (fst w) (filepath_Clean path))"
    and "write_file posix path hdr data w = (None, w')"
  shows "is_dir (nodes (fst w') (filepath_Dir (filepath_Clean path)))"
proof -
  let ?p = "filepath_Dir (filepath_Clean path)"
  obtain r1 w1 where s1: "sys posix (Create path) w = (r1, w1)"
    by (cases "sys posix (Create path) w")
  obtain r2 w2 where s2: "sys posix (Copy path data) w1 = (r2, w2)"
    by (cases "sys posix (Copy path data) w1")
  obtain r3 w3 where s3: "sys posix (Chmod path (FileInfo_Mode hdr)) w2 = (r3, w3)"
    by (cases "sys posix (Chmod path (FileInfo_Mode hdr)) w2")
  from assms(2) s1 have r1: "r1 = None"
    by (cases r1) (simp_all add: write_file_def)
  from assms(2) s1 s2 r1 have r2: "r2 = None"
    by (cases r2) (simp_all add: write_file_def)
  from assms(2) s1 s2 s3 r1 r2 have r3: "r3 = None"
    by (cases r3) (simp_all add: write_file_def)
  from assms(2) s1 s2 s3 r1 r2 r3
  have s4: "sys posix (Chtimes path (AccessTime hdr) (ModTime hdr)) w3 = (None, w')"
    by (simp add: write_file_def)
  from create_in_dir [OF assms(1)] s1 r1 have k1: "is_dir (nodes (fst w1) ?p)" by simp
  from sys_posix_dir [OF k1, of "Copy path data"] s2
  have k2: "is_dir (nodes (fst w2) ?p)" by simp
  from sys_posix_dir [OF k2, of "Chmod path (FileInfo_Mode hdr)"] s3
  have k3: "is_dir (nodes (fst w3) ?p)" by simp
  from sys_posix_dir [OF k3, of "Chtimes path (AccessTime hdr) (ModTime hdr)"] s4
  show ?thesis by simp
qed

text \<open>
  So after a file entry that is written without an error, at a path where no file was,
  the directory of its path is there.
\<close>

lemma file_entry_in_dir:
  assumes "\<not> FileInfo_IsDir hdr"
    and "\<not> is_file (nodes (fst (world st)) (disk_path dst hdr))"
    and "untar_entry posix dst src True hdr data st = (None, st1)"
  shows "is_dir (nodes (fst (world st1)) (filepath_Dir (disk_path dst hdr)))"
proof -
  let ?path = "filepath_Join [dst, Name hdr]"
  obtain r1 w1 where e: "ensure_parent posix (filepath_Dir ?path) (world st) = (r1, w1)"
    by (cases "ensure_parent posix (filepath_Dir ?path) (world st)")
  obtain r2 w2 where wf: "write_file posix ?path hdr data w1 = (r2, w2)"
    by (cases "write_file posix ?path hdr data w1")
  from assms(3) e have r1: "r1 = None"
    by (cases r1) (simp_all add: untar_entry_file [OF assms(1)])
  from assms(3) e wf r1 have r2: "r2 = None" and st1: "world st1 = w2"
    by (cases r2; auto simp: untar_entry_file [OF assms(1)])+
  from ensure_parent_not_file [OF assms(2), of "filepath_Dir ?path"] e
  have "\<not> is_file (nodes (fst w1) (filepath_Clean ?path))"
    by (simp add: disk_path_def)
  from write_file_in_dir [OF this] wf r2 st1 show ?thesis
    by (simp add: disk_path_def)
qed

text \<open>
  The entry of a directory that stands anywhere after a file of that directory: once
  the file is written, the entry finds the directory, makes no change and no error,
  and is recorded for its times.
\<close>

lemma directory_after_its_file:
  assumes f: "file_entry f" and d: "dir_entry d"
    and holds: "filepath_Dir (disk_path dst f) = disk_path dst d"
    and nf: "\<not> is_file (nodes (fst (world st)) (disk_path dst f))"
    and run: "untar_loop posix dst src True (Entry f fdata # mid) st = (None, st1)"
  shows "untar_entry posix dst src True d ddata st1 =
     (None, st1\<lparr>dirHdrs := dirHdrs st1 @ [d],
                world := (fst (world st1),
                          snd (world st1) @ [MkdirAll (filepath_Join [dst, Name d]) 493])\<rparr>)"
proof -
  from f have nx: "\<not> (Typeflag f = TypeXGlobalHeader \<or> Typeflag f = TypeXHeader)"
    and ndf: "\<not> FileInfo_IsDir f"
    by (simp_all add: file_entry_def is_xheader_def)
  obtain r st' where e: "untar_entry posix dst src True f fdata st = (r, st')"
    by (cases "untar_entry posix dst src True f fdata st")
  from run nx e have r: "r = None"
    by (cases r) simp_all
  with run nx e have l: "untar_loop posix dst src True mid st' = (None, st1)"
    by simp
  from file_entry_in_dir [OF ndf nf] e r holds
  have "is_dir (nodes (fst (world st')) (disk_path dst d))" by simp
  from untar_loop_dir_stays [OF this, of dst src mid] l
  have "is_dir (nodes (fst (world st1)) (disk_path dst d))" by simp
  with d show ?thesis by (rule untar_entry_existing_dir)
qed

section \<open>untar: the recorded times of the directories\<close>

text \<open>
  C1. Take an extraction in directory mode that succeeds, on any operating system. Its
  calls are, in this order: the calls of the loop, which apart from the looks for
  directories and the making of directories are exactly the create, copy, chmod and
  chtimes of the file entries, entry after entry; and then one chtimes for each
  directory entry, with the access and modification time recorded in its header, in
  the order in which the directory entries stand in the archive. So the recorded times
  of a directory entry are applied once, after the stream has been read to its end and
  every file has been written.

  On the reference file system, where the making of an entry sets the modification
  time of its directory to the time of the extraction:
  \<^item> a directory entry whose directory is there already is accepted without a change
    and without an error;
  \<^item> after an extraction that succeeds, every entry, file or directory, whose path on
    disk is the path of no other entry has the access and modification time recorded
    in its header;
  \<^item> a file entry listed before the entry of its directory does not make that entry
    fail: once the file entry is written, at a path where no file was, the directory
    entry, wherever it stands after the file, finds the directory, makes no change and
    no error, and is recorded for its times;
  \<^item> the extraction of the archive of a file followed by its directory, where neither
    is on disk and the directory above them is, succeeds: the directory is made for
    the file by \<open>os.MkdirAll\<close>, the file and the directory end with the times of their
    headers, and wherever in an archive the two entries stand, the loop goes on after
    them without an error, the directory then having the time of the extraction.
\<close>

theorem C1_directory_times_applied_last:
  "(untar os items dst src True w = (None, w') \<longrightarrow>
      (\<exists>pre. calls w' = calls w @ pre @ map (chtimes_of dst) (filter dir_entry (headers items))
            \<and> filter (\<lambda>c. \<not> is_mkdir c) pre = all_file_calls dst items))
   \<and> (dir_entry hdr \<and> is_dir (nodes (fst (world st)) (disk_path dst hdr)) \<longrightarrow>
        untar_entry posix dst src True hdr data st =
          (None, st\<lparr>dirHdrs := dirHdrs st @ [hdr],
                     world := (fst (world st),
                               snd (world st) @ [MkdirAll (filepath_Join [dst, Name hdr]) 493])\<rparr>))
   \<and> (untar posix items dst src True wp = (None, wp')
        \<and> items = before @ Entry hdr data # rest \<and> \<not> is_xheader hdr
        \<and> (\<forall>h \<in> set (entries before @ entries rest). disk_path dst h \<noteq> disk_path dst hdr) \<longrightarrow>
        node_times (nodes (fst wp') (disk_path dst hdr)) = Some (AccessTime hdr, ModTime hdr))
   \<and> (file_entry f \<and> dir_entry d \<and> filepath_Dir (disk_path dst f) = disk_path dst d
        \<and> \<not> is_file (nodes (fst (world sf)) (disk_path dst f))
        \<and> untar_loop posix dst src True (Entry f fdata # mid) sf = (None, sf') \<longrightarrow>
        untar_entry posix dst src True d ddata sf' =
          (None, sf'\<lparr>dirHdrs := dirHdrs sf' @ [d],
                      world := (fst (world sf'),
                                snd (world sf') @ [MkdirAll (filepath_Join [dst, Name d]) 493])\<rparr>))
   \<and> (dst \<noteq> [] \<and> file_entry f \<and> dir_entry d
        \<and> filepath_Dir (disk_path dst f) = disk_path dst d
        \<and> nodes fs (disk_path dst f) = None \<and> nodes fs (disk_path dst d) = None
        \<and> is_dir (nodes fs (filepath_Dir (disk_path dst d))) \<longrightarrow>
        fst (untar posix [Entry f fdata, Entry d ddata] dst src True (fs, cs)) = None
        \<and> nodes (fst (snd (untar posix [Entry f fdata, Entry d ddata] dst src True (fs, cs))))
            (disk_path dst f) = Some (FileNode fdata (FileInfo_Mode f) (AccessTime f) (ModTime f))
        \<and> nodes (fst (snd (untar posix [Entry f fdata, Entry d ddata] dst src True (fs, cs))))
            (disk_path dst d) = Some (DirNode 493 (AccessTime d) (ModTime d))
        \<and> (\<forall>s more. world s = (fs, cs) \<longrightarrow>
             (\<exists>fs2. untar_loop posix dst src True (Entry f fdata # Entry d ddata # more) s =
                  untar_loop posix dst src True more
                    (s\<lparr>doneFlag := True, dirHdrs := dirHdrs s @ [d],
                       world := (fs2, cs @ [Stat (filepath_Join [dst, Name d]),
                                            MkdirAll (filepath_Join [dst, Name d]) 493]
                                   @ file_calls (filepath_Join [dst, Name f]) f fdata
                                   @ [MkdirAll (filepath_Join [dst, Name d]) 493])\<rparr>)
                \<and> nodes fs2 (disk_path dst f) =
                    Some (FileNode fdata (FileInfo_Mode f) (AccessTime f) (ModTime f))
                \<and> nodes fs2 (disk_path dst d) = Some (DirNode 493 (now fs) (now fs)))))"
proof (intro conjI impI)
  {
    assume ok: "untar os items dst src True w = (None, w')"
    let ?st0 = "\<lparr>doneFlag = False, dirHdrs = [], world = w\<rparr>"
    obtain r st1 where l: "untar_loop os dst src True items ?st0 = (r, st1)"
      by (cases "untar_loop os dst src True items ?st0")
    with ok have r: "r = None"
      and a: "apply_dirHdrs os dst (dirHdrs st1) (world st1) = (None, w')"
      by (auto simp: untar_def split: option.splits)
    from untar_loop_ok [of os dst src items ?st0 st1] l r obtain pre where
      "dirHdrs st1 = filter dir_entry (headers items)"
      and "calls (world st1) = calls w @ pre"
      and "filter (\<lambda>c. \<not> is_mkdir c) pre = all_file_calls dst items"
      by auto
    with apply_dirHdrs_ok [OF a]
    show "\<exists>pre. calls w' = calls w @ pre @ map (chtimes_of dst) (filter dir_entry (headers items))
            \<and> filter (\<lambda>c. \<not> is_mkdir c) pre = all_file_calls dst items"
      by auto
  }
  {
    assume "dir_entry hdr \<and> is_dir (nodes (fst (world st)) (disk_path dst hdr))"
    then show "untar_entry posix dst src True hdr data st =
          (None, st\<lparr>dirHdrs := dirHdrs st @ [hdr],
                     world := (fst (world st),
                               snd (world st) @ [MkdirAll (filepath_Join [dst, Name hdr]) 493])\<rparr>)"
      by (intro untar_entry_existing_dir) simp_all
  }
  {
    assume a: "untar posix items dst src True wp = (None, wp')
        \<and> items = before @ Entry hdr data # rest \<and> \<not> is_xheader hdr
        \<and> (\<forall>h \<in> set (entries before @ entries rest). disk_path dst h \<noteq> disk_path dst hdr)"
    then have "untar posix items dst src True wp = (None, wp')"
      and "items = before @ Entry hdr data # rest" and "\<not> is_xheader hdr"
      and "\<forall>h \<in> set (entries before @ entries rest). disk_path dst h \<noteq> disk_path dst hdr"
      by blast+
    then show "node_times (nodes (fst wp') (disk_path dst hdr)) = Some (AccessTime hdr, ModTime hdr)"
      by (rule entry_times_after_untar)
  }
  {
    assume a: "file_entry f \<and> dir_entry d \<and> filepath_Dir (disk_path dst f) = disk_path dst d
        \<and> \<not> is_file (nodes (fst (world sf)) (disk_path dst f))
        \<and> untar_loop posix dst src True (Entry f fdata # mid) sf = (None, sf')"
    then have "file_entry f" and "dir_entry d"
      and "filepath_Dir (disk_path dst f) = disk_path dst d"
      and "\<not> is_file (nodes (fst (world sf)) (disk_path dst f))"
      and "untar_loop posix dst src True (Entry f fdata # mid) sf = (None, sf')"
      by blast+
    then show "untar_entry posix dst src True d ddata sf' =
          (None, sf'\<lparr>dirHdrs := dirHdrs sf' @ [d],
                      world := (fst (world sf'),
                                snd (world sf') @ [MkdirAll (filepath_Join [dst, Name d]) 493])\<rparr>)"
      by (rule directory_after_its_file)
  }
  assume b: "dst \<noteq> [] \<and> file_entry f \<and> dir_entry d
        \<and> filepath_Dir (disk_path dst f) = disk_path dst d
        \<and> nodes fs (disk_path dst f) = None \<and> nodes fs (disk_path dst d) = None
        \<and> is_dir (nodes fs (filepath_Dir (disk_path dst d)))"
  let ?pf = "filepath_Join [dst, Name f]"
  let ?pd = "filepath_Join [dst, Name d]"
  from b have dst: "dst \<noteq> []" and f: "file_entry f" and d: "dir_entry d" by blast+
  from dst have pf: "disk_path dst f = ?pf" and pd: "disk_path dst d = ?pd"
    by (simp_all add: disk_path_def filepath_Join_clean)
  from b have holds: "filepath_Dir ?pf = ?pd"
    and nf: "nodes fs ?pf = None" and nd: "nodes fs ?pd = None"
    and up: "is_dir (nodes fs (filepath_Dir ?pd))"
    by (simp_all add: pf pd)
  have differ: "?pf \<noteq> ?pd"
  proof
    assume "?pf = ?pd"
    with holds up nd show False by simp
  qed
  note arch = file_before_directory [OF dst f d refl refl holds differ nd nf up,
      of fdata ddata src cs]
  show "fst (untar posix [Entry f fdata, Entry d ddata] dst src True (fs, cs)) = None"
    using arch by simp
  show "nodes (fst (snd (untar posix [Entry f fdata, Entry d ddata] dst src True (fs, cs))))
      (disk_path dst f) = Some (FileNode fdata (FileInfo_Mode f) (AccessTime f) (ModTime f))"
    using arch by (simp only: pf)
  show "nodes (fst (snd (untar posix [Entry f fdata, Entry d ddata] dst src True (fs, cs))))
      (disk_path dst d) = Some (DirNode 493 (AccessTime d) (ModTime d))"
    using arch by (simp only: pd)
  show "\<forall>s more. world s = (fs, cs) \<longrightarrow>
     (\<exists>fs2. untar_loop posix dst src True (Entry f fdata # Entry d ddata # more) s =
          untar_loop posix dst src True more
            (s\<lparr>doneFlag := True, dirHdrs := dirHdrs s @ [d],
               world := (fs2, cs @ [Stat ?pd, MkdirAll ?pd 493] @ file_calls ?pf f fdata
                           @ [MkdirAll ?pd 493])\<rparr>)
        \<and> nodes fs2 (disk_path dst f) =
            Some (FileNode fdata (FileInfo_Mode f) (AccessTime f) (ModTime f))
        \<and> nodes fs2 (disk_path dst d) = Some (DirNode 493 (now fs) (now fs)))"
  proof (intro allI impI)
    fix s :: "fsys ustate" and more
    assume w: "world s = (fs, cs)"
    from file_then_directory [OF dst f d refl refl holds differ w nd nf up, of src fdata ddata more]
    show "\<exists>fs2. untar_loop posix dst src True (Entry f fdata # Entry d ddata # more) s =
          untar_loop posix dst src True more
            (s\<lparr>doneFlag := True, dirHdrs := dirHdrs s @ [d],
               world := (fs2, cs @ [Stat ?pd, MkdirAll ?pd 493] @ file_calls ?pf f fdata
                           @ [MkdirAll ?pd 493])\<rparr>)
        \<and> nodes fs2 (disk_path dst f) =
            Some (FileNode fdata (FileInfo_Mode f) (AccessTime f) (ModTime f))
        \<and> nodes fs2 (disk_path dst d) = Some (DirNode 493 (now fs) (now fs))"
      by (simp only: pf pd)
  qed
qed

text \<open>
  The archive of the file \<open>a/b\<close> followed by its directory \<open>a/\<close>, extracted to \<open>/d\<close> at
  time 1000, where \<open>/d\<close> is there and \<open>/d/a\<close> is not: the extraction succeeds; when the
  loop ends the directory \<open>/d/a\<close> has the time of the extraction, and when \<open>untar\<close>
  returns it has the times of its header, as the file has.
\<close>

theorem C1_directory_times_applied_last_witness:
  "fst (untar posix [Entry file_ab ''hello'', Entry dir_a []] ''/d'' ''x.tar'' True disk0) = None
   \<and> (\<exists>pre. calls (snd (untar posix [Entry file_ab ''hello'', Entry dir_a []] ''/d'' ''x.tar'' True disk0))
          = pre @ [Chtimes ''/d/a'' 21 22]
        \<and> filter (\<lambda>c. \<not> is_mkdir c) pre =
            [Create ''/d/a/b'', Copy ''/d/a/b'' ''hello'', Chmod ''/d/a/b'' 420,
             Chtimes ''/d/a/b'' 11 12])
   \<and> fst (untar_entry posix ''/d'' ''x.tar'' True dir_a []
        (snd (untar_entry posix ''/d'' ''x.tar'' True file_ab ''hello''
           \<lparr>doneFlag = False, dirHdrs = [], world = disk0\<rparr>))) = None
   \<and> fst (untar_entry posix ''/d'' ''x.tar'' True dir_a []
        (snd (untar_loop posix ''/d'' ''x.tar'' True [Entry file_ab ''hello'']
           \<lparr>doneFlag = False, dirHdrs = [], world = disk0\<rparr>))) = None
   \<and> node_times (nodes (fst (world (snd (untar_loop posix ''/d'' ''x.tar'' True
        [Entry file_ab ''hello'', Entry dir_a []]
        \<lparr>doneFlag = False, dirHdrs = [], world = disk0\<rparr>)))) ''/d/a'') = Some (1000, 1000)
   \<and> node_times (nodes (fst (snd (untar posix [Entry file_ab ''hello'', Entry dir_a []] ''/d''
        ''x.tar'' True disk0))) ''/d/a'') = Some (21, 22)
   \<and> node_times (nodes (fst (snd (untar posix [Entry file_ab ''hello'', Entry dir_a []] ''/d''
        ''x.tar'' True disk0))) ''/d/a/b'') = Some (11, 12)
   \<and> nodes (fst (snd (untar posix [Entry file_ab ''hello'', Entry dir_a []] ''/d''
        ''x.tar'' True disk0))) ''/d/a/b'' = Some (FileNode ''hello'' 420 11 12)
   \<and> nodes (fst (snd (untar posix [Entry file_ab ''hello'', Entry dir_a []] ''/d''
        ''x.tar'' True disk0))) ''/d/a'' = Some (DirNode 493 21 22)"
proof -
  let ?items = "[Entry file_ab ''hello'', Entry dir_a []]"
  let ?w' = "snd (untar posix ?items ''/d'' ''x.tar'' True disk0)"
  let ?st0 = "\<lparr>doneFlag = False, dirHdrs = [], world = disk0\<rparr>"
  let ?st1 = "snd (untar_entry posix ''/d'' ''x.tar'' True file_ab ''hello'' ?st0)"
  let ?sf' = "snd (untar_loop posix ''/d'' ''x.tar'' True [Entry file_ab ''hello''] ?st0)"
  have c: "calls disk0 = []"
    and d: "filter dir_entry (headers ?items) = [dir_a]"
    and f: "all_file_calls ''/d'' ?items =
            [Create ''/d/a/b'', Copy ''/d/a/b'' ''hello'', Chmod ''/d/a/b'' 420,
             Chtimes ''/d/a/b'' 11 12]"
    and t: "chtimes_of ''/d'' dir_a = Chtimes ''/d/a'' 21 22"
    and pa: "disk_path ''/d'' dir_a = ''/d/a''" and pb: "disk_path ''/d'' file_ab = ''/d/a/b''"
    and xa: "\<not> is_xheader dir_a" and xb: "\<not> is_xheader file_ab"
    and ea: "entries [Entry dir_a []] = [dir_a]" and eb: "entries [Entry file_ab ''hello''] = [file_ab]"
    and e0: "entries [] = []"
    and da: "dir_entry dir_a" and fb: "file_entry file_ab"
    and ex: "is_dir (nodes (fst (world ?st1)) (disk_path ''/d'' dir_a))"
    and ta: "AccessTime dir_a = 21" "ModTime dir_a = 22"
    and tb: "AccessTime file_ab = 11" "ModTime file_ab = 12"
    and mb: "FileInfo_Mode file_ab = 420"
    and dd: "filepath_Dir (disk_path ''/d'' file_ab) = disk_path ''/d'' dir_a"
    and n0: "nodes (fst disk0) (disk_path ''/d'' file_ab) = None"
      "nodes (fst disk0) (disk_path ''/d'' dir_a) = None"
    and nn: "\<not> is_file (nodes (fst (world ?st0)) (disk_path ''/d'' file_ab))"
    and up: "is_dir (nodes (fst disk0) (filepath_Dir (disk_path ''/d'' dir_a)))"
    and nw: "now (fst disk0) = 1000"
    and lf: "fst (untar_loop posix ''/d'' ''x.tar'' True [Entry file_ab ''hello''] ?st0) = None"
    by code_simp+
  have w0: "world ?st0 = (fst disk0, snd disk0)" by simp
  have ne: "''/d'' \<noteq> []" by simp
  note inst = C1_directory_times_applied_last [where dst = "''/d''" and src = "''x.tar''"]
  \<comment> \<open>the file before its directory: the extraction succeeds\<close>
  from inst [where f = file_ab and d = dir_a and fs = "fst disk0" and cs = "snd disk0"
      and fdata = "''hello''" and ddata = "[]"] ne fb da dd n0 up
  have five: "fst (untar posix ?items ''/d'' ''x.tar'' True (fst disk0, snd disk0)) = None
      \<and> nodes (fst (snd (untar posix ?items ''/d'' ''x.tar'' True (fst disk0, snd disk0))))
          (disk_path ''/d'' file_ab)
          = Some (FileNode ''hello'' (FileInfo_Mode file_ab) (AccessTime file_ab) (ModTime file_ab))
      \<and> nodes (fst (snd (untar posix ?items ''/d'' ''x.tar'' True (fst disk0, snd disk0))))
          (disk_path ''/d'' dir_a) = Some (DirNode 493 (AccessTime dir_a) (ModTime dir_a))
      \<and> (\<exists>fs2. untar_loop posix ''/d'' ''x.tar'' True (Entry file_ab ''hello'' # Entry dir_a [] # []) ?st0 =
            untar_loop posix ''/d'' ''x.tar'' True []
              (?st0\<lparr>doneFlag := True, dirHdrs := dirHdrs ?st0 @ [dir_a],
                 world := (fs2, snd disk0 @ [Stat (filepath_Join [''/d'', Name dir_a]),
                                      MkdirAll (filepath_Join [''/d'', Name dir_a]) 493]
                             @ file_calls (filepath_Join [''/d'', Name file_ab]) file_ab ''hello''
                             @ [MkdirAll (filepath_Join [''/d'', Name dir_a]) 493])\<rparr>)
          \<and> nodes fs2 (disk_path ''/d'' file_ab) =
              Some (FileNode ''hello'' (FileInfo_Mode file_ab) (AccessTime file_ab) (ModTime file_ab))
          \<and> nodes fs2 (disk_path ''/d'' dir_a) = Some (DirNode 493 (now (fst disk0)) (now (fst disk0))))"
    using w0 by blast
  then have ok: "fst (untar posix ?items ''/d'' ''x.tar'' True disk0) = None"
    and nb: "nodes (fst ?w') ''/d/a/b'' = Some (FileNode ''hello'' 420 11 12)"
    and na: "nodes (fst ?w') ''/d/a'' = Some (DirNode 493 21 22)"
    by (simp_all only: prod.collapse pa pb ta tb mb)
  from five obtain fs2 where
    "untar_loop posix ''/d'' ''x.tar'' True ?items ?st0 =
            untar_loop posix ''/d'' ''x.tar'' True []
              (?st0\<lparr>doneFlag := True, dirHdrs := dirHdrs ?st0 @ [dir_a],
                 world := (fs2, snd disk0 @ [Stat (filepath_Join [''/d'', Name dir_a]),
                                      MkdirAll (filepath_Join [''/d'', Name dir_a]) 493]
                             @ file_calls (filepath_Join [''/d'', Name file_ab]) file_ab ''hello''
                             @ [MkdirAll (filepath_Join [''/d'', Name dir_a]) 493])\<rparr>)"
    and "nodes fs2 (disk_path ''/d'' dir_a) = Some (DirNode 493 (now (fst disk0)) (now (fst disk0)))"
    by blast
  then have lp: "node_times (nodes (fst (world (snd (untar_loop posix ''/d'' ''x.tar'' True ?items ?st0))))
      ''/d/a'') = Some (1000, 1000)"
    by (simp add: pa nw)
  from ok have u: "untar posix ?items ''/d'' ''x.tar'' True disk0 = (None, ?w')"
    by (simp add: prod_eq_iff)
  \<comment> \<open>the calls of the extraction\<close>
  from inst [where os = posix and items = ?items and w = disk0 and w' = ?w'] u
  obtain pre where "calls ?w' = calls disk0 @ pre @ map (chtimes_of ''/d'') (filter dir_entry (headers ?items))"
    and "filter (\<lambda>c. \<not> is_mkdir c) pre = all_file_calls ''/d'' ?items"
    by blast
  with c d f t
  have 1: "\<exists>pre. calls ?w' = pre @ [Chtimes ''/d/a'' 21 22]
        \<and> filter (\<lambda>c. \<not> is_mkdir c) pre =
            [Create ''/d/a/b'', Copy ''/d/a/b'' ''hello'', Chmod ''/d/a/b'' 420,
             Chtimes ''/d/a/b'' 11 12]"
    by simp
  \<comment> \<open>the directory entry on the directory made for the file\<close>
  from inst [where hdr = dir_a and st = ?st1 and data = "[]"] da ex
  have "untar_entry posix ''/d'' ''x.tar'' True dir_a [] ?st1 =
          (None, ?st1\<lparr>dirHdrs := dirHdrs ?st1 @ [dir_a],
                     world := (fst (world ?st1),
                               snd (world ?st1) @ [MkdirAll (filepath_Join [''/d'', Name dir_a]) 493])\<rparr>)"
    by blast
  then have 2: "fst (untar_entry posix ''/d'' ''x.tar'' True dir_a [] ?st1) = None"
    by simp
  from lf have "untar_loop posix ''/d'' ''x.tar'' True (Entry file_ab ''hello'' # []) ?st0 = (None, ?sf')"
    by (simp only: prod_eq_iff fst_conv snd_conv simp_thms)
  with inst [where f = file_ab and d = dir_a and sf = ?st0 and sf' = ?sf' and fdata = "''hello''"
      and mid = "[]" and ddata = "[]"] fb da dd nn
  have "untar_entry posix ''/d'' ''x.tar'' True dir_a [] ?sf' =
          (None, ?sf'\<lparr>dirHdrs := dirHdrs ?sf' @ [dir_a],
                      world := (fst (world ?sf'),
                                snd (world ?sf') @ [MkdirAll (filepath_Join [''/d'', Name dir_a]) 493])\<rparr>)"
    by blast
  then have 5: "fst (untar_entry posix ''/d'' ''x.tar'' True dir_a [] ?sf') = None"
    by (simp only: fst_conv)
  \<comment> \<open>the times at the end\<close>
  have ha: "\<forall>h \<in> set (entries [Entry file_ab ''hello''] @ entries []).
      disk_path ''/d'' h \<noteq> disk_path ''/d'' dir_a"
    by (simp add: eb e0 pa pb)
  have "?items = [Entry file_ab ''hello''] @ Entry dir_a [] # []" by simp
  with inst [where items = ?items and wp = disk0 and wp' = ?w' and before = "[Entry file_ab ''hello'']"
      and hdr = dir_a and data = "[]" and rest = "[]"] u xa ha
  have "node_times (nodes (fst ?w') (disk_path ''/d'' dir_a)) = Some (AccessTime dir_a, ModTime dir_a)"
    by blast
  then have 3: "node_times (nodes (fst ?w') ''/d/a'') = Some (21, 22)"
    by (simp add: pa ta)
  have hb: "\<forall>h \<in> set (entries [] @ entries [Entry dir_a []]).
      disk_path ''/d'' h \<noteq> disk_path ''/d'' file_ab"
    by (simp add: ea e0 pa pb)
  have "?items = [] @ Entry file_ab ''hello'' # [Entry dir_a []]" by simp
  with inst [where items = ?items and wp = disk0 and wp' = ?w' and before = "[]"
      and hdr = file_ab and data = "''hello''" and rest = "[Entry dir_a []]"] u xb hb
  have "node_times (nodes (fst ?w') (disk_path ''/d'' file_ab)) = Some (AccessTime file_ab, ModTime file_ab)"
    by blast
  then have 4: "node_times (nodes (fst ?w') ''/d/a/b'') = Some (11, 12)"
    by (simp add: pb tb)
  from ok 1 2 5 lp 3 4 nb na show ?thesis by blast
qed

section \<open>The Maven getter: snapshot resolution\<close>

lemma parse_after_tempfile:
  assumes "url_reparse g a = Inr a'" and "temp_name g (files w) = Inr name"
  shows "parseLastestSnapshotVersion g a w =
     (case read_snapshot_version g name (a'\<lparr>Path := Path a' @ ''/maven-metadata.xml''\<rparr>)
             \<lparr>files = (files w)(name \<mapsto> []), ops = ops w @ [TempFileOp name]\<rparr> of
        (r, w2) \<Rightarrow> (r, os_Remove name w2))"
  using assms by (simp add: parseLastestSnapshotVersion_def ioutil_TempFile_def Let_def)

lemma read_snapshot_ops:
  "\<exists>mid. ops (snd (read_snapshot_version g name m w)) = ops w @ GetFileOp name m # mid"
  by (auto simp: read_snapshot_version_def HttpGet_GetFile_def ioutil_ReadFile_def Let_def
      split: prod.split option.split sum.split)

text \<open>
  What the part under the \<open>defer\<close> returns once the metadata document has been
  fetched and read: the first version of the list, or the error of the empty list.
\<close>

lemma read_snapshot_fetched:
  assumes "HttpGet g name m (files w) = (None, fs1)" and "fs1 name = Some doc"
  shows "read_snapshot_version g name m w =
     ((case VersionList (SnapshotVersions (Versioning (snd (xml_Unmarshal g doc)))) of
         [] \<Rightarrow> Inl (NoSnapshotVersions m)
       | v # vs \<Rightarrow> Inr (Value v)),
      \<lparr>files = fs1, ops = ops w @ [GetFileOp name m, ReadFileOp name]\<rparr>)"
  using assms
  by (simp add: read_snapshot_version_def HttpGet_GetFile_def ioutil_ReadFile_def Let_def
      split: list.split)

lemma GetFile_snapshot:
  assumes "Values_Get (RawQuery u) ''groupId'' = groupId" and "groupId \<noteq> []"
    and "Values_Get (RawQuery u) ''artifactId'' = artifactId" and "artifactId \<noteq> []"
    and "Values_Get (RawQuery u) ''version'' = version" and "version \<noteq> []"
    and "HasSuffix version ''-SNAPSHOT''"
    and "Values_Get (RawQuery u) ''type'' = t" and "artType = (if t = [] then ''jar'' else t)"
    and "url_reparse g u = Inr u"
    and "baseUrl = u\<lparr>RawQuery := [],
           Path := Path u @ ''/'' @ ReplaceByte groupId (CHR ''.'') (CHR ''/'') @ ''/'' @ artifactId
                     @ ''/'' @ version\<rparr>"
  shows "GetFile g dst u w =
     (case parseLastestSnapshotVersion g baseUrl w of
        (Inl e, w1) \<Rightarrow> (Some e, w1)
      | (Inr ver, w1) \<Rightarrow>
          HttpGet_GetFile g
            (filepath_Join [filepath_Dir dst,
               filepath_Base (Path baseUrl @ ''/'' @ artifactId @ ''-'' @ ver @ ''.'' @ artType)])
            (baseUrl\<lparr>Path := Path baseUrl @ ''/'' @ artifactId @ ''-'' @ ver @ ''.'' @ artType\<rparr>) w1)"
proof -
  have "GetFile g dst u w =
     (case parseLastestSnapshotVersion g (u\<lparr>RawQuery := [],
           Path := Path u @ ''/'' @ ReplaceByte groupId (CHR ''.'') (CHR ''/'') @ ''/'' @ artifactId
                     @ ''/'' @ version\<rparr>) w of
        (Inl e, w1) \<Rightarrow> (Some e, w1)
      | (Inr ver, w1) \<Rightarrow>
          HttpGet_GetFile g
            (filepath_Join [filepath_Dir dst,
               filepath_Base (Path u @ ''/'' @ ReplaceByte groupId (CHR ''.'') (CHR ''/'') @ ''/''
                 @ artifactId @ ''/'' @ version @ ''/'' @ artifactId @ ''-'' @ ver @ ''.''
                 @ (if t = [] then ''jar'' else t))])
            (u\<lparr>RawQuery := [],
               Path := Path u @ ''/'' @ ReplaceByte groupId (CHR ''.'') (CHR ''/'') @ ''/''
                 @ artifactId @ ''/'' @ version @ ''/'' @ artifactId @ ''-'' @ ver @ ''.''
                 @ (if t = [] then ''jar'' else t)\<rparr>) w1)"
    unfolding GetFile_def using assms(1-8,10)
    by (simp add: Let_def split: prod.split sum.split)
  then show ?thesis
    unfolding assms(9,11) by (simp split: prod.split sum.split)
qed

text \<open>
  C5. For a URL whose \<open>version\<close> ends in \<open>-SNAPSHOT\<close>, \<open>GetFile\<close> first fetches one
  document, at the base path (the path of the URL, the group with dots turned into
  slashes, the artifact, the declared version) extended by \<open>/maven-metadata.xml\<close>,
  into the temporary file; it reads the resolved version from the value of the first
  entry of the parsed list of snapshot versions; and it then fetches the base path
  extended by \<open>/artifact-resolved.type\<close>: the resolved version is in the file name
  and the declared \<open>-SNAPSHOT\<close> version stays in the path. No other fetch is made.
  This is the run in which the temporary file is created, the metadata fetch
  succeeds and leaves a document whose parsed list is not empty.
\<close>

theorem C5_snapshot_two_fetches:
  assumes "Values_Get (RawQuery u) ''groupId'' = groupId" and "groupId \<noteq> []"
    and "Values_Get (RawQuery u) ''artifactId'' = artifactId" and "artifactId \<noteq> []"
    and "Values_Get (RawQuery u) ''version'' = version" and "version \<noteq> []"
    and "HasSuffix version ''-SNAPSHOT''"
    and "Values_Get (RawQuery u) ''type'' = t" and "artType = (if t = [] then ''jar'' else t)"
    and "url_reparse g u = Inr u"
    and "baseUrl = u\<lparr>RawQuery := [],
           Path := Path u @ ''/'' @ ReplaceByte groupId (CHR ''.'') (CHR ''/'') @ ''/'' @ artifactId
                     @ ''/'' @ version\<rparr>"
    and "url_reparse g baseUrl = Inr baseUrl"
    and "metaUrl = baseUrl\<lparr>Path := Path baseUrl @ ''/maven-metadata.xml''\<rparr>"
    and "temp_name g (files w) = Inr name"
    and "HttpGet g name metaUrl ((files w)(name \<mapsto> [])) = (None, fs1)"
    and "fs1 name = Some doc"
    and "VersionList (SnapshotVersions (Versioning (snd (xml_Unmarshal g doc)))) = v # vs"
    and "finalUrl = baseUrl\<lparr>Path := Path baseUrl @ ''/'' @ artifactId @ ''-'' @ Value v @ ''.'' @ artType\<rparr>"
    and "dstFile = filepath_Join [filepath_Dir dst, filepath_Base (Path finalUrl)]"
  shows "ops (snd (GetFile g dst u w)) =
           ops w @ [TempFileOp name, GetFileOp name metaUrl, ReadFileOp name, RemoveOp name,
                    GetFileOp dstFile finalUrl]
     \<and> fst (GetFile g dst u w) = fst (HttpGet g dstFile finalUrl (fs1(name := None)))"
proof -
  let ?w1 = "\<lparr>files = (files w)(name \<mapsto> []), ops = ops w @ [TempFileOp name]\<rparr>"
  have r: "read_snapshot_version g name metaUrl ?w1 =
      (Inr (Value v), \<lparr>files = fs1, ops = ops ?w1 @ [GetFileOp name metaUrl, ReadFileOp name]\<rparr>)"
    using read_snapshot_fetched [of g name metaUrl ?w1 fs1 doc] assms(15-17) by simp
  have p: "parseLastestSnapshotVersion g baseUrl w =
      (Inr (Value v), \<lparr>files = fs1(name := None),
         ops = ops w @ [TempFileOp name, GetFileOp name metaUrl, ReadFileOp name, RemoveOp name]\<rparr>)"
    using parse_after_tempfile [OF assms(12) assms(14)] r assms(13) by (simp add: os_Remove_def)
  have "GetFile g dst u w = HttpGet_GetFile g dstFile finalUrl
      \<lparr>files = fs1(name := None),
       ops = ops w @ [TempFileOp name, GetFileOp name metaUrl, ReadFileOp name, RemoveOp name]\<rparr>"
    using GetFile_snapshot [OF assms(1-11), of dst w] p assms(18,19)
    by (simp)
  then show ?thesis
    by (simp add: HttpGet_GetFile_def split: prod.split)
qed

theorem C5_snapshot_two_fetches_witness:
  "ops (snd (GetFile (example_env None [snapshot_1]) ''/out/x'' snapshot_url no_files)) =
     [TempFileOp ''/tmp/maven-metadata1'',
      GetFileOp ''/tmp/maven-metadata1''
        \<lparr>Scheme = ''http'', User = [], Host = ''repo.example'',
         Path = ''/maven/org/example/test/1.0.0-SNAPSHOT/maven-metadata.xml'', RawQuery = []\<rparr>,
      ReadFileOp ''/tmp/maven-metadata1'',
      RemoveOp ''/tmp/maven-metadata1'',
      GetFileOp ''/out/test-1.0.0-20240101.010101-1.jar''
        \<lparr>Scheme = ''http'', User = [], Host = ''repo.example'',
         Path = ''/maven/org/example/test/1.0.0-SNAPSHOT/test-1.0.0-20240101.010101-1.jar'',
         RawQuery = []\<rparr>]
   \<and> fst (GetFile (example_env None [snapshot_1]) ''/out/x'' snapshot_url no_files) = None"
proof -
  have j: "filepath_Join [filepath_Dir ''/out/x'',
              filepath_Base ''/maven/org/example/test/1.0.0-SNAPSHOT/test-1.0.0-20240101.010101-1.jar'']
           = ''/out/test-1.0.0-20240101.010101-1.jar''"
    by code_simp
  have r: "ReplaceByte ''org.example'' (CHR ''.'') (CHR ''/'') = ''org/example''"
    by code_simp
  have s: "HasSuffix ''1.0.0-SNAPSHOT'' ''-SNAPSHOT''"
    by code_simp
  show ?thesis
    using C5_snapshot_two_fetches [of snapshot_url "''org.example''" "''test''" "''1.0.0-SNAPSHOT''"
        "[]" "''jar''" "example_env None [snapshot_1]"
        "\<lparr>Scheme = ''http'', User = [], Host = ''repo.example'',
          Path = ''/maven/org/example/test/1.0.0-SNAPSHOT'', RawQuery = []\<rparr>"
        "\<lparr>Scheme = ''http'', User = [], Host = ''repo.example'',
          Path = ''/maven/org/example/test/1.0.0-SNAPSHOT/maven-metadata.xml'', RawQuery = []\<rparr>"
        no_files "''/tmp/maven-metadata1''" "[''/tmp/maven-metadata1'' \<mapsto> ''doc'']" "''doc''"
        snapshot_1 "[]"
        "\<lparr>Scheme = ''http'', User = [], Host = ''repo.example'',
          Path = ''/maven/org/example/test/1.0.0-SNAPSHOT/test-1.0.0-20240101.010101-1.jar'',
          RawQuery = []\<rparr>"
        "''/out/test-1.0.0-20240101.010101-1.jar''" "''/out/x''"]
    by (simp add: snapshot_url_def example_env_def no_files_def metadata_of_def snapshot_1_def
        j r s)
qed

text \<open>
  The error that the parse reports has no part in what \<open>GetFile\<close> does: only the
  structure the parse leaves is read.
\<close>

lemma read_snapshot_ignores_parse_error:
  "read_snapshot_version (g\<lparr>xml_Unmarshal := \<lambda>b. (e b, snd (xml_Unmarshal g b))\<rparr>) name m w =
   read_snapshot_version g name m w"
  by (simp add: read_snapshot_version_def HttpGet_GetFile_def Let_def
      split: prod.split option.split sum.split)

lemma parse_ignores_parse_error:
  "parseLastestSnapshotVersion (g\<lparr>xml_Unmarshal := \<lambda>b. (e b, snd (xml_Unmarshal g b))\<rparr>) a w =
   parseLastestSnapshotVersion g a w"
  by (simp add: parseLastestSnapshotVersion_def ioutil_TempFile_def Let_def
      read_snapshot_ignores_parse_error split: prod.split option.split sum.split)

lemma GetFile_ignores_parse_error:
  "GetFile (g\<lparr>xml_Unmarshal := \<lambda>b. (e b, snd (xml_Unmarshal g b))\<rparr>) dst u w = GetFile g dst u w"
  by (simp add: GetFile_def parse_ignores_parse_error HttpGet_GetFile_def Let_def
      split: prod.split option.split sum.split)

text \<open>
  C7, as the claim states it, fails. \<open>xml.Unmarshal\<close> decodes into the structure
  element by element, and what it has stored when it meets the error stays there. For a
  document that is cut after its first \<open>snapshotVersion\<close> element the parse reports an
  error and the list holds one version: resolution then does not fail with the
  empty-list error, it goes on with that version and fetches the artifact.
\<close>

theorem C7_counterexample:
  "fst (xml_Unmarshal (example_env (Some (XmlError ''unexpected EOF'')) [snapshot_1]) ''doc'') =
     Some (XmlError ''unexpected EOF'')
   \<and> fst (GetFile (example_env (Some (XmlError ''unexpected EOF'')) [snapshot_1]) ''/out/x''
          snapshot_url no_files) = None
   \<and> last (ops (snd (GetFile (example_env (Some (XmlError ''unexpected EOF'')) [snapshot_1]) ''/out/x''
          snapshot_url no_files))) =
       GetFileOp ''/out/test-1.0.0-20240101.010101-1.jar''
        \<lparr>Scheme = ''http'', User = [], Host = ''repo.example'',
         Path = ''/maven/org/example/test/1.0.0-SNAPSHOT/test-1.0.0-20240101.010101-1.jar'',
         RawQuery = []\<rparr>"
proof -
  have j: "filepath_Join [filepath_Dir ''/out/x'',
              filepath_Base ''/maven/org/example/test/1.0.0-SNAPSHOT/test-1.0.0-20240101.010101-1.jar'']
           = ''/out/test-1.0.0-20240101.010101-1.jar''"
    by code_simp
  have r: "ReplaceByte ''org.example'' (CHR ''.'') (CHR ''/'') = ''org/example''"
    by code_simp
  have s: "HasSuffix ''1.0.0-SNAPSHOT'' ''-SNAPSHOT''"
    by code_simp
  show ?thesis
    by (simp add: GetFile_def parseLastestSnapshotVersion_def read_snapshot_version_def
        HttpGet_GetFile_def ioutil_TempFile_def ioutil_ReadFile_def os_Remove_def Let_def
        snapshot_url_def example_env_def no_files_def metadata_of_def snapshot_1_def
        j r s)
qed

text \<open>
  C7, amended. Whenever the list of snapshot versions that the parse of the fetched
  metadata leaves in the structure is empty, \<open>GetFile\<close> fails with the error
  \<open>no snapshot versions\<close> that names the metadata URL, and the metadata fetch is the
  only fetch made. The parse error is never read: whatever error the parse reports
  (\<open>e\<close> below), \<open>GetFile\<close> does the same. So a malformed document takes the empty-list
  failure path when the parse leaves no version in the list, and is never reported as
  a parse error.
\<close>

theorem C7_empty_list_fails:
  assumes "Values_Get (RawQuery u) ''groupId'' = groupId" and "groupId \<noteq> []"
    and "Values_Get (RawQuery u) ''artifactId'' = artifactId" and "artifactId \<noteq> []"
    and "Values_Get (RawQuery u) ''version'' = version" and "version \<noteq> []"
    and "HasSuffix version ''-SNAPSHOT''"
    and "Values_Get (RawQuery u) ''type'' = t" and "artType = (if t = [] then ''jar'' else t)"
    and "url_reparse g u = Inr u"
    and "baseUrl = u\<lparr>RawQuery := [],
           Path := Path u @ ''/'' @ ReplaceByte groupId (CHR ''.'') (CHR ''/'') @ ''/'' @ artifactId
                     @ ''/'' @ version\<rparr>"
    and "url_reparse g baseUrl = Inr baseUrl"
    and "metaUrl = baseUrl\<lparr>Path := Path baseUrl @ ''/maven-metadata.xml''\<rparr>"
    and "temp_name g (files w) = Inr name"
    and "HttpGet g name metaUrl ((files w)(name \<mapsto> [])) = (None, fs1)"
    and "fs1 name = Some doc"
    and "VersionList (SnapshotVersions (Versioning (snd (xml_Unmarshal g doc)))) = []"
  shows "GetFile g dst u w =
           (Some (NoSnapshotVersions metaUrl),
            \<lparr>files = fs1(name := None),
             ops = ops w @ [TempFileOp name, GetFileOp name metaUrl, ReadFileOp name,
                            RemoveOp name]\<rparr>)
     \<and> GetFile (g\<lparr>xml_Unmarshal := \<lambda>b. (e b, snd (xml_Unmarshal g b))\<rparr>) dst u w =
         GetFile g dst u w"
proof -
  let ?w1 = "\<lparr>files = (files w)(name \<mapsto> []), ops = ops w @ [TempFileOp name]\<rparr>"
  have r: "read_snapshot_version g name metaUrl ?w1 =
      (Inl (NoSnapshotVersions metaUrl),
       \<lparr>files = fs1, ops = ops ?w1 @ [GetFileOp name metaUrl, ReadFileOp name]\<rparr>)"
    using read_snapshot_fetched [of g name metaUrl ?w1 fs1 doc] assms(15-17) by simp
  have p: "parseLastestSnapshotVersion g baseUrl w =
      (Inl (NoSnapshotVersions metaUrl), \<lparr>files = fs1(name := None),
         ops = ops w @ [TempFileOp name, GetFileOp name metaUrl, ReadFileOp name, RemoveOp name]\<rparr>)"
    using parse_after_tempfile [OF assms(12) assms(14)] r assms(13) by (simp add: os_Remove_def)
  have "GetFile g dst u w =
           (Some (NoSnapshotVersions metaUrl),
            \<lparr>files = fs1(name := None),
             ops = ops w @ [TempFileOp name, GetFileOp name metaUrl, ReadFileOp name,
                            RemoveOp name]\<rparr>)"
    using GetFile_snapshot [OF assms(1-11), of dst w] p
    by (simp)
  then show ?thesis
    using GetFile_ignores_parse_error [where g = g and e = e and dst = dst and u = u and w = w] by simp
qed

theorem C7_empty_list_fails_witness:
  "GetFile (example_env (Some (XmlError ''unexpected EOF'')) []) ''/out/x'' snapshot_url no_files =
     (Some (NoSnapshotVersions
        \<lparr>Scheme = ''http'', User = [], Host = ''repo.example'',
         Path = ''/maven/org/example/test/1.0.0-SNAPSHOT/maven-metadata.xml'', RawQuery = []\<rparr>),
      \<lparr>files = Map.empty,
       ops = [TempFileOp ''/tmp/maven-metadata1'',
              GetFileOp ''/tmp/maven-metadata1''
                \<lparr>Scheme = ''http'', User = [], Host = ''repo.example'',
                 Path = ''/maven/org/example/test/1.0.0-SNAPSHOT/maven-metadata.xml'',
                 RawQuery = []\<rparr>,
              ReadFileOp ''/tmp/maven-metadata1'',
              RemoveOp ''/tmp/maven-metadata1'']\<rparr>)"
proof -
  have r: "ReplaceByte ''org.example'' (CHR ''.'') (CHR ''/'') = ''org/example''"
    by code_simp
  have s: "HasSuffix ''1.0.0-SNAPSHOT'' ''-SNAPSHOT''"
    by code_simp
  show ?thesis
    using C7_empty_list_fails [where u = snapshot_url and groupId = "''org.example''"
        and artifactId = "''test''" and version = "''1.0.0-SNAPSHOT''" and t = "[]"
        and artType = "''jar''" and g = "example_env (Some (XmlError ''unexpected EOF'')) []"
        and baseUrl = "\<lparr>Scheme = ''http'', User = [], Host = ''repo.example'',
          Path = ''/maven/org/example/test/1.0.0-SNAPSHOT'', RawQuery = []\<rparr>"
        and metaUrl = "\<lparr>Scheme = ''http'', User = [], Host = ''repo.example'',
          Path = ''/maven/org/example/test/1.0.0-SNAPSHOT/maven-metadata.xml'', RawQuery = []\<rparr>"
        and w = no_files and name = "''/tmp/maven-metadata1''"
        and ?fs1.0 = "[''/tmp/maven-metadata1'' \<mapsto> ''doc'']" and doc = "''doc''"
        and dst = "''/out/x''" and e = "\<lambda>b. None"]
    by (simp add: snapshot_url_def example_env_def no_files_def metadata_of_def r s)
qed

text \<open>
  C8. In every call of \<open>parseLastestSnapshotVersion\<close> that creates the temporary file
  (the URL is re-parsed and \<open>ioutil.TempFile\<close> returns a name), the file of that
  name is gone when the call returns, and \<open>os.Remove\<close> of that name is the last
  operation of the call, whatever the metadata fetch, the read of the file and the
  look-up of the version do in between.
\<close>

theorem C8_temp_file_removed:
  assumes "url_reparse g artifactUrl = Inr a" and "temp_name g (files w) = Inr name"
  shows "files (snd (parseLastestSnapshotVersion g artifactUrl w)) name = None
     \<and> (\<exists>mid. ops (snd (parseLastestSnapshotVersion g artifactUrl w)) =
            ops w @ [TempFileOp name] @ mid @ [RemoveOp name])"
proof -
  let ?m = "a\<lparr>Path := Path a @ ''/maven-metadata.xml''\<rparr>"
  let ?w1 = "\<lparr>files = (files w)(name \<mapsto> []), ops = ops w @ [TempFileOp name]\<rparr>"
  obtain r w2 where rs: "read_snapshot_version g name ?m ?w1 = (r, w2)"
    by (cases "read_snapshot_version g name ?m ?w1")
  have p: "parseLastestSnapshotVersion g artifactUrl w = (r, os_Remove name w2)"
    using parse_after_tempfile [OF assms] rs by simp
  obtain mid where "ops w2 = ops ?w1 @ GetFileOp name ?m # mid"
    using read_snapshot_ops [of g name ?m ?w1] rs by auto
  then have "ops (os_Remove name w2) =
      ops w @ [TempFileOp name] @ (GetFileOp name ?m # mid) @ [RemoveOp name]"
    by (simp add: os_Remove_def)
  then show ?thesis
    using p by (auto simp: os_Remove_def)
qed

theorem C8_temp_file_removed_witness:
  "files (snd (parseLastestSnapshotVersion (example_env None []) snapshot_url no_files))
       ''/tmp/maven-metadata1'' = None
   \<and> (\<exists>mid. ops (snd (parseLastestSnapshotVersion (example_env None []) snapshot_url no_files)) =
          [TempFileOp ''/tmp/maven-metadata1''] @ mid @ [RemoveOp ''/tmp/maven-metadata1''])"
  using C8_temp_file_removed [of "example_env None []" snapshot_url snapshot_url no_files
      "''/tmp/maven-metadata1''"]
  by (simp add: example_env_def no_files_def)

section \<open>The Maven getter: release coordinates\<close>

text \<open>
  C6. For a URL whose query gives \<open>groupId\<close>, \<open>artifactId\<close> and a \<open>version\<close> that does
  not end in \<open>-SNAPSHOT\<close>, \<open>GetFile\<close> makes one operation only, a fetch through the
  injected getter, and returns what that fetch returns. The URL fetched is the URL
  given with the query removed and the path extended by the group with every dot
  turned into a slash, the artifact, the version, and the file name
  \<open>artifact-version.type\<close>, the type being \<open>jar\<close> when the parameter is absent. The
  destination of the fetch is the base name of that path joined to the directory of
  the destination given. The URL given is one that \<open>url.Parse(u.String())\<close> returns
  unchanged.
\<close>

theorem C6_release_one_fetch:
  assumes "Values_Get (RawQuery u) ''groupId'' = groupId" and "groupId \<noteq> []"
    and "Values_Get (RawQuery u) ''artifactId'' = artifactId" and "artifactId \<noteq> []"
    and "Values_Get (RawQuery u) ''version'' = version" and "version \<noteq> []"
    and "\<not> HasSuffix version ''-SNAPSHOT''"
    and "Values_Get (RawQuery u) ''type'' = t" and "artType = (if t = [] then ''jar'' else t)"
    and "url_reparse g u = Inr u"
    and "finalUrl = u\<lparr>RawQuery := [],
           Path := Path u @ ''/'' @ ReplaceByte groupId (CHR ''.'') (CHR ''/'') @ ''/'' @ artifactId
                     @ ''/'' @ version @ ''/'' @ artifactId @ ''-'' @ version @ ''.'' @ artType\<rparr>"
    and "dstFile = filepath_Join [filepath_Dir dst, filepath_Base (Path finalUrl)]"
  shows "ops (snd (GetFile g dst u w)) = ops w @ [GetFileOp dstFile finalUrl]
        \<and> fst (GetFile g dst u w) = fst (HttpGet g dstFile finalUrl (files w))
        \<and> files (snd (GetFile g dst u w)) = snd (HttpGet g dstFile finalUrl (files w))"
proof -
  have "GetFile g dst u w = HttpGet_GetFile g dstFile finalUrl w"
    unfolding GetFile_def using assms by (simp add: Let_def)
  then show ?thesis
    by (simp add: HttpGet_GetFile_def split: prod.split)
qed

theorem C6_release_one_fetch_witness:
  "ops (snd (GetFile (example_env None []) ''/out/x'' release_url no_files)) =
     [GetFileOp ''/out/test-1.0.0.jar''
        \<lparr>Scheme = ''http'', User = [], Host = ''repo.example'',
         Path = ''/maven/org/example/test/1.0.0/test-1.0.0.jar'', RawQuery = []\<rparr>]
   \<and> fst (GetFile (example_env None []) ''/out/x'' release_url no_files) = None
   \<and> files (snd (GetFile (example_env None []) ''/out/x'' release_url no_files)) =
        [''/out/test-1.0.0.jar'' \<mapsto> ''doc'']"
proof -
  have j: "filepath_Join [filepath_Dir ''/out/x'',
              filepath_Base ''/maven/org/example/test/1.0.0/test-1.0.0.jar''] = ''/out/test-1.0.0.jar''"
    by code_simp
  have r: "ReplaceByte ''org.example'' (CHR ''.'') (CHR ''/'') = ''org/example''"
    by code_simp
  have s: "\<not> HasSuffix ''1.0.0'' ''-SNAPSHOT''"
    by code_simp
  show ?thesis
    using C6_release_one_fetch [of release_url "''org.example''" "''test''" "''1.0.0''" "[]" "''jar''"
        "example_env None []"
        "\<lparr>Scheme = ''http'', User = [], Host = ''repo.example'',
          Path = ''/maven/org/example/test/1.0.0/test-1.0.0.jar'', RawQuery = []\<rparr>"
        "''/out/test-1.0.0.jar''" "''/out/x''" no_files]
    by (simp add: release_url_def example_env_def no_files_def j r s)
qed

end
